(* ===== verification/Prelude.thy ===== *)
theory Prelude
  imports Main "HOL-Library.Word"
begin

text \<open>
  Shared vocabulary of the development: the machine integer types of the Rust sources,
  the result type of its fallible functions, state passing with errors, checked machine
  arithmetic, and the little-endian byte order the memories are read and written in.

  \<^item> A Rust value of type \<open>u8 \<dots> u64\<close> is a word of that width. \<open>wrapping_add\<close> and the
    bit operations are the word operations; a plain \<open>+\<close>, \<open>-\<close>, \<open>*\<close> or \<open>/\<close> that can
    leave the type's range is one of the checked operations below, whose overflow is
    \<open>Panic\<close> (the overflow checks of cargo's default profile; a run without \<open>Panic\<close> is
    the same in both profiles). Where the plain operator cannot overflow the model uses
    the word operation, and a lemma next to the definition says why.
  \<^item> A fallible function returns \<open>('a, 'e) result\<close>; a method that takes
    \<open>&mut self\<close> returns its result together with the new state, because what it wrote
    before an error stays written.
  \<^item> The byteorder crate is not part of the sources. It is the record \<open>byteorder\<close> that
    every memory carries; what the code relies on is the locale \<open>little_endian\<close>.
\<close>

unbundle bit_operations_syntax

subsection \<open>Collections of simplification rules\<close>

named_theorems run_simps \<open>evaluation of the result and state combinators\<close>
named_theorems frame_simps \<open>what an operation leaves unchanged\<close>

subsection \<open>Machine integers\<close>

type_synonym u5 = "5 word"
type_synonym u8 = "8 word"
type_synonym u16 = "16 word"
type_synonym u32 = "32 word"
type_synonym u64 = "64 word"

definition in_range :: "u64 \<Rightarrow> u64 \<Rightarrow> u64 \<Rightarrow> bool" where
  "in_range lo hi a \<longleftrightarrow> lo \<le> a \<and> a \<le> hi"

subsection \<open>Results\<close>

datatype ('a, 'e) result = Ok 'a | Err 'e | Panic

fun bindR :: "('a, 'e) result \<Rightarrow> ('a \<Rightarrow> ('b, 'e) result) \<Rightarrow> ('b, 'e) result" where
  "bindR (Ok a) f = f a"
| "bindR (Err e) f = Err e"
| "bindR Panic f = Panic"

fun mapR :: "('a \<Rightarrow> 'b) \<Rightarrow> ('a, 'e) result \<Rightarrow> ('b, 'e) result" where
  "mapR f (Ok a) = Ok (f a)"
| "mapR f (Err e) = Err e"
| "mapR f Panic = Panic"

text \<open>\<open>map_err\<close> changes the error only, \<open>unwrap_or\<close> replaces it by a value; neither stops a panic.\<close>

fun map_errR :: "('e \<Rightarrow> 'f) \<Rightarrow> ('a, 'e) result \<Rightarrow> ('a, 'f) result" where
  "map_errR f (Ok a) = Ok a"
| "map_errR f (Err e) = Err (f e)"
| "map_errR f Panic = Panic"

fun unwrap_orR :: "'a \<Rightarrow> ('a, 'e) result \<Rightarrow> ('a, 'f) result" where
  "unwrap_orR d (Ok a) = Ok a"
| "unwrap_orR d (Err e) = Ok d"
| "unwrap_orR d Panic = Panic"

fun is_ok :: "('a, 'e) result \<Rightarrow> bool" where
  "is_ok (Ok a) = True"
| "is_ok (Err e) = False"
| "is_ok Panic = False"

lemma bindR_Ok_iff: "bindR r f = Ok b \<longleftrightarrow> (\<exists>a. r = Ok a \<and> f a = Ok b)"
  by (cases r) auto

lemma bindR_Panic_iff: "bindR r f = Panic \<longleftrightarrow> r = Panic \<or> (\<exists>a. r = Ok a \<and> f a = Panic)"
  by (cases r) auto

lemma map_errR_simps [simp]:
  "map_errR f r = Ok a \<longleftrightarrow> r = Ok a"
  "map_errR f r = Panic \<longleftrightarrow> r = Panic"
  "Ok a = map_errR f r \<longleftrightarrow> r = Ok a"
  "Panic = map_errR f r \<longleftrightarrow> r = Panic"
  by (cases r; auto)+

lemma mapR_simps [simp]:
  "mapR g r = Panic \<longleftrightarrow> r = Panic"
  "Panic = mapR g r \<longleftrightarrow> r = Panic"
  "mapR g r = Err e \<longleftrightarrow> r = Err e"
  by (cases r; auto)+

lemma mapR_Ok_iff: "mapR g r = Ok b \<longleftrightarrow> (\<exists>a. r = Ok a \<and> b = g a)"
  by (cases r) auto

subsection \<open>State passing with errors\<close>

text \<open>
  \<open>bindS m f\<close> is the \<open>?\<close> operator over a mutable state: \<open>f\<close> runs on \<open>m\<close>'s value and
  state, an error or a panic of \<open>m\<close> ends the computation in the state \<open>m\<close> left.
\<close>

type_synonym ('s, 'a, 'e) comp = "'s \<Rightarrow> ('a, 'e) result \<times> 's"

definition bindS :: "('s, 'a, 'e) comp \<Rightarrow> ('a \<Rightarrow> ('s, 'b, 'e) comp) \<Rightarrow> ('s, 'b, 'e) comp" where
  "bindS m f s =
     (case m s of
        (Ok a, s') \<Rightarrow> f a s'
      | (Err e, s') \<Rightarrow> (Err e, s')
      | (Panic, s') \<Rightarrow> (Panic, s'))"

definition returnS :: "'a \<Rightarrow> ('s, 'a, 'e) comp" where
  "returnS a s = (Ok a, s)"

definition failS :: "'e \<Rightarrow> ('s, 'a, 'e) comp" where
  "failS e s = (Err e, s)"

definition liftR :: "('a, 'e) result \<Rightarrow> ('s, 'a, 'e) comp" where
  "liftR r s = (r, s)"

definition modifyS :: "('s \<Rightarrow> 's) \<Rightarrow> ('s, unit, 'e) comp" where
  "modifyS f s = (Ok (), f s)"

definition map_errS :: "('e \<Rightarrow> 'f) \<Rightarrow> ('s, 'a, 'e) comp \<Rightarrow> ('s, 'a, 'f) comp" where
  "map_errS f m s = (case m s of (r, s') \<Rightarrow> (map_errR f r, s'))"

definition unwrap_orS :: "'a \<Rightarrow> ('s, 'a, 'e) comp \<Rightarrow> ('s, 'a, 'f) comp" where
  "unwrap_orS d m s = (case m s of (r, s') \<Rightarrow> (unwrap_orR d r, s'))"

definition mapS :: "('a \<Rightarrow> 'b) \<Rightarrow> ('s, 'a, 'e) comp \<Rightarrow> ('s, 'b, 'e) comp" where
  "mapS f m s = (case m s of (r, s') \<Rightarrow> (mapR f r, s'))"

text \<open>\<open>zoomS get put m\<close> runs \<open>m\<close> on one field of a larger state.\<close>

definition zoomS :: "('s \<Rightarrow> 't) \<Rightarrow> ('t \<Rightarrow> 's \<Rightarrow> 's) \<Rightarrow> ('t, 'a, 'e) comp \<Rightarrow> ('s, 'a, 'e) comp" where
  "zoomS get put m s = (case m (get s) of (r, t) \<Rightarrow> (r, put t s))"

lemma bindS_run [run_simps]:
  "m s = (Ok a, s') \<Longrightarrow> bindS m f s = f a s'"
  "m s = (Err e, s') \<Longrightarrow> bindS m f s = (Err e, s')"
  "m s = (Panic, s') \<Longrightarrow> bindS m f s = (Panic, s')"
  by (simp_all add: bindS_def)

lemma returnS_run [run_simps, simp]: "returnS a s = (Ok a, s)"
  by (simp add: returnS_def)

lemma failS_run [run_simps, simp]: "failS e s = (Err e, s)"
  by (simp add: failS_def)

lemma liftR_run [run_simps, simp]: "liftR r s = (r, s)"
  by (simp add: liftR_def)

lemma modifyS_run [run_simps, simp]: "modifyS f s = (Ok (), f s)"
  by (simp add: modifyS_def)

lemma map_errS_run [run_simps]: "m s = (r, s') \<Longrightarrow> map_errS f m s = (map_errR f r, s')"
  by (simp add: map_errS_def)

lemma unwrap_orS_run [run_simps]: "m s = (r, s') \<Longrightarrow> unwrap_orS d m s = (unwrap_orR d r, s')"
  by (simp add: unwrap_orS_def)

lemma mapS_run [run_simps]: "m s = (r, s') \<Longrightarrow> mapS f m s = (mapR f r, s')"
  by (simp add: mapS_def)

lemma zoomS_run [run_simps]: "m (get s) = (r, t) \<Longrightarrow> zoomS get put m s = (r, put t s)"
  by (simp add: zoomS_def)

text \<open>Rules that take an invariant \<open>P\<close> of the state through the combinators.\<close>

lemma bindS_inv:
  assumes "P (snd (m s))" and "\<And>a s'. m s = (Ok a, s') \<Longrightarrow> P s' \<Longrightarrow> P (snd (f a s'))"
  shows "P (snd (bindS m f s))"
  using assms by (cases "m s"; cases "fst (m s)") (auto simp: bindS_def)

lemma map_errS_snd [simp]: "snd (map_errS f m s) = snd (m s)"
  by (simp add: map_errS_def split: prod.splits)

lemma unwrap_orS_snd [simp]: "snd (unwrap_orS d m s) = snd (m s)"
  by (simp add: unwrap_orS_def split: prod.splits)

lemma mapS_snd [simp]: "snd (mapS f m s) = snd (m s)"
  by (simp add: mapS_def split: prod.splits)

lemma zoomS_snd [simp]: "snd (zoomS get put m s) = put (snd (m (get s))) s"
  by (simp add: zoomS_def split: prod.splits)

lemma bindS_Ok_E:
  assumes "bindS m f s = (Ok b, t)"
  obtains a s' where "m s = (Ok a, s')" and "f a s' = (Ok b, t)"
  using assms by (auto simp: bindS_def split: prod.splits result.splits)

lemma bindS_Panic_E:
  assumes "fst (bindS m f s) = Panic"
  obtains "fst (m s) = Panic" | a s' where "m s = (Ok a, s')" and "fst (f a s') = Panic"
  using assms by (auto simp: bindS_def split: prod.splits result.splits)

subsection \<open>Checked arithmetic\<close>

definition add_ck :: "'a::len word \<Rightarrow> 'a word \<Rightarrow> ('a word, 'e) result" where
  "add_ck a b = (if unat a + unat b < 2 ^ LENGTH('a) then Ok (a + b) else Panic)"

definition sub_ck :: "'a::len word \<Rightarrow> 'a word \<Rightarrow> ('a word, 'e) result" where
  "sub_ck a b = (if b \<le> a then Ok (a - b) else Panic)"

definition mul_ck :: "'a::len word \<Rightarrow> 'a word \<Rightarrow> ('a word, 'e) result" where
  "mul_ck a b = (if unat a * unat b < 2 ^ LENGTH('a) then Ok (a * b) else Panic)"

definition div_ck :: "'a::len word \<Rightarrow> 'a word \<Rightarrow> ('a word, 'e) result" where
  "div_ck a b = (if b = 0 then Panic else Ok (a div b))"

definition mod_ck :: "'a::len word \<Rightarrow> 'a word \<Rightarrow> ('a word, 'e) result" where
  "mod_ck a b = (if b = 0 then Panic else Ok (a mod b))"

lemma add_ck_Ok: "add_ck a b = Ok c \<Longrightarrow> unat c = unat a + unat b"
  by (auto simp: add_ck_def unat_word_ariths split: if_splits)

lemma sub_ck_Ok: "sub_ck a b = Ok c \<Longrightarrow> unat c = unat a - unat b"
  by (auto simp: sub_ck_def unat_sub split: if_splits)

lemma ck_not_Err [simp]:
  "add_ck a b \<noteq> Err e" "sub_ck a b \<noteq> Err e" "mul_ck a b \<noteq> Err e"
  "div_ck a b \<noteq> Err e" "mod_ck a b \<noteq> Err e"
  by (simp_all add: add_ck_def sub_ck_def mul_ck_def div_ck_def mod_ck_def)

subsection \<open>Words as bit fields\<close>

lemma mask_insert_same: "((x AND NOT m) OR (y AND m)) AND m = y AND m" for x :: "'a::len word"
  by (rule bit_word_eqI) (auto simp: bit_simps)

lemma mask_insert_other: "((x AND NOT m) OR (y AND m)) AND NOT m = x AND NOT m" for x :: "'a::len word"
  by (rule bit_word_eqI) (auto simp: bit_simps)

lemma and_1_eq: "drop_bit n x AND 1 = of_bool (bit x n)" for x :: "'a::len word"
  by (rule bit_word_eqI) (auto simp: bit_simps dest: bit_imp_le_length)

lemma and_exp_eq_0_iff: "x AND push_bit n 1 = 0 \<longleftrightarrow> \<not> (n < LENGTH('a) \<and> bit x n)" for x :: "'a::len word"
  by (auto simp: bit_eq_iff [of _ "0 :: 'a word"] bit_simps)

text \<open>\<open>bits_within m w\<close>: every bit of \<open>w\<close> is a bit of the mask \<open>m\<close>.\<close>

definition bits_within :: "'a::len word \<Rightarrow> 'a word \<Rightarrow> bool" where
  "bits_within m w \<longleftrightarrow> w AND NOT m = 0"

lemma bits_within_iff: "bits_within m w \<longleftrightarrow> (\<forall>i < LENGTH('a). bit w i \<longrightarrow> bit m i)" for w :: "'a::len word"
  by (auto simp: bits_within_def bit_eq_iff [of _ "0 :: 'a word"] bit_simps)

lemma bits_within_or [simp]: "bits_within m (a OR b) \<longleftrightarrow> bits_within m a \<and> bits_within m b"
  by (auto simp: bits_within_iff bit_simps)

lemma bits_within_and [intro]:
  "bits_within m a \<Longrightarrow> bits_within m (a AND b)" "bits_within m b \<Longrightarrow> bits_within m (a AND b)"
  by (auto simp: bits_within_iff bit_simps)

lemma bits_within_refl [simp]: "bits_within m m" "bits_within m 0" "bits_within m (a AND m)"
  by (auto simp: bits_within_iff bit_simps)

lemma word_le_and_mask: "x AND m \<le> m" for x :: "'a::len word"
  by (simp add: word_and_le1)

lemma unat_and_mask_le: "unat (x AND m) \<le> unat m" for x :: "'a::len word"
  by (simp add: word_and_le1 flip: word_le_nat_alt)

text \<open>
  Low masks as \<open>mask k\<close>, for goals over a symbolic bit; and equality of 64-bit words by
  its 64 bits, for goals with irregular masks, where simp decides each bit.
\<close>

lemma mask_numerals:
  "(3 :: 'a::len word) = mask 2" "(7 :: 'a word) = mask 3" "(0xF :: 'a word) = mask 4"
  "(0x1F :: 'a word) = mask 5" "(0x3F :: 'a word) = mask 6" "(0x7F :: 'a word) = mask 7"
  "(0xFF :: 'a word) = mask 8" "(0x1FF :: 'a word) = mask 9" "(0xFFF :: 'a word) = mask 12"
  "(0xFFFF :: 'a word) = mask 16" "(0xFFFFFFFF :: 'a word) = mask 32"
  "(0xFFFFFFFFFFF :: 'a word) = mask 44"
  by (simp_all add: mask_eq_exp_minus_1)

lemma u64_eqI: "list_all (\<lambda>n. bit a n \<longleftrightarrow> bit b n) [0..<64] \<Longrightarrow> a = b" for a b :: u64
  by (rule bit_word_eqI) (simp add: list_all_iff)

lemma upt_64:
  "[0..<64] =
    [0, 1, 2, 3, 4, 5, 6, 7, 8, 9, 10, 11, 12, 13, 14, 15, 16, 17, 18, 19, 20, 21, 22, 23, 24,
     25, 26, 27, 28, 29, 30, 31, 32, 33, 34, 35, 36, 37, 38, 39, 40, 41, 42, 43, 44, 45, 46,
     47, 48, 49, 50, 51, 52, 53, 54, 55, 56, 57, 58, 59, 60, 61, 62, 63]"
  by (simp add: upt_rec)

lemma two_bits_eq_3: "drop_bit n x AND 3 = 3 \<longleftrightarrow> bit x n \<and> bit x (Suc n)" for x :: u64
proof -
  have "drop_bit n x AND 3 = 3 \<longleftrightarrow> (\<forall>i < 2. bit x (n + i))"
    unfolding mask_numerals bit_eq_iff [of "drop_bit n x AND mask 2"]
    by (auto simp: bit_simps dest: bit_imp_le_length) (metis less_trans numeral_less_iff semiring_norm(76,78))
  then show ?thesis by (auto simp: less_2_cases_iff)
qed

subsection \<open>Little-endian byte sequences\<close>

definition le_bytes :: "nat \<Rightarrow> 'a::len word \<Rightarrow> u8 list" where
  "le_bytes n v = map (\<lambda>i. ucast (drop_bit (8 * i) v)) [0..<n]"

fun le_word :: "u8 list \<Rightarrow> 'a::len word" where
  "le_word [] = 0"
| "le_word (b # bs) = ucast b OR push_bit 8 (le_word bs)"

lemma length_le_bytes [simp]: "length (le_bytes n v) = n"
  by (simp add: le_bytes_def)

lemma nth_le_bytes [simp]: "i < n \<Longrightarrow> le_bytes n v ! i = ucast (drop_bit (8 * i) v)"
  by (simp add: le_bytes_def)

lemma bit_le_word:
  "bit (le_word bs :: 'a::len word) n \<longleftrightarrow>
     n < LENGTH('a) \<and> n div 8 < length bs \<and> bit (bs ! (n div 8)) (n mod 8)"
proof (induction bs arbitrary: n)
  case Nil
  then show ?case by simp
next
  case (Cons b bs)
  show ?case
  proof (cases "n < 8")
    case True
    then show ?thesis by (auto simp: bit_simps)
  next
    case False
    then have "n div 8 = Suc ((n - 8) div 8)" and "n mod 8 = (n - 8) mod 8"
      by (simp_all add: le_div_geq le_mod_geq)
    with False Cons.IH [of "n - 8"] show ?thesis
      by (auto simp: bit_simps dest: bit_imp_le_length)
  qed
qed

lemma le_word_le_bytes:
  fixes v :: "'a::len word"
  shows "LENGTH('a) \<le> 8 * n \<Longrightarrow> le_word (le_bytes n v) = v"
  by (rule bit_word_eqI) (auto simp: bit_le_word bit_simps less_mult_imp_div_less ac_simps)

lemma le_bytes_le_word:
  assumes "length bs = n" and "8 * n \<le> LENGTH('a)"
  shows "le_bytes n (le_word bs :: 'a::len word) = bs"
proof (rule nth_equalityI)
  fix i assume "i < length (le_bytes n (le_word bs :: 'a word))"
  then have i: "i < n" by simp
  show "le_bytes n (le_word bs :: 'a word) ! i = bs ! i"
  proof (rule bit_word_eqI)
    fix k assume "k < LENGTH(8)"
    then have k: "k < 8" by simp
    then have "(8 * i + k) div 8 = i" and "(8 * i + k) mod 8 = k" by simp_all
    with k i assms show "bit (le_bytes n (le_word bs :: 'a word) ! i) k \<longleftrightarrow> bit (bs ! i) k"
      by (auto simp: bit_simps bit_le_word ac_simps)
  qed
qed (simp add: assms)

subsection \<open>The byteorder crate\<close>

text \<open>
  \<open>LittleEndian::read_u16\<close>, \<open>read_u32\<close>, \<open>read_u64\<close> take a slice of exactly the right
  length here, the \<open>write\<close> functions fill such a slice. The crate is a parameter of the
  model; its documentation is the locale's laws.
\<close>

record byteorder =
  bo_read_u16 :: "u8 list \<Rightarrow> u16"
  bo_read_u32 :: "u8 list \<Rightarrow> u32"
  bo_read_u64 :: "u8 list \<Rightarrow> u64"
  bo_write_u16 :: "u16 \<Rightarrow> u8 list"
  bo_write_u32 :: "u32 \<Rightarrow> u8 list"
  bo_write_u64 :: "u64 \<Rightarrow> u8 list"

locale little_endian =
  fixes B :: byteorder
  assumes read_u16: "length bs = 2 \<Longrightarrow> bo_read_u16 B bs = le_word bs"
    and read_u32: "length bs = 4 \<Longrightarrow> bo_read_u32 B bs = le_word bs"
    and read_u64: "length bs = 8 \<Longrightarrow> bo_read_u64 B bs = le_word bs"
    and write_u16: "bo_write_u16 B v16 = le_bytes 2 v16"
    and write_u32: "bo_write_u32 B v32 = le_bytes 4 v32"
    and write_u64: "bo_write_u64 B v64 = le_bytes 8 v64"
begin

lemma read_write_u16: "bo_read_u16 B (bo_write_u16 B v) = v"
  by (simp add: read_u16 write_u16 le_word_le_bytes)

lemma read_write_u32: "bo_read_u32 B (bo_write_u32 B v) = v"
  by (simp add: read_u32 write_u32 le_word_le_bytes)

lemma read_write_u64: "bo_read_u64 B (bo_write_u64 B v) = v"
  by (simp add: read_u64 write_u64 le_word_le_bytes)

lemma length_write:
  "length (bo_write_u16 B v16) = 2" "length (bo_write_u32 B v32) = 4" "length (bo_write_u64 B v64) = 8"
  by (simp_all add: write_u16 write_u32 write_u64)

end

text \<open>The instance used where a concrete memory is evaluated.\<close>

definition le_byteorder :: byteorder where
  "le_byteorder =
     \<lparr>bo_read_u16 = le_word, bo_read_u32 = le_word, bo_read_u64 = le_word,
      bo_write_u16 = le_bytes 2, bo_write_u32 = le_bytes 4, bo_write_u64 = le_bytes 8\<rparr>"

interpretation le_instance: little_endian le_byteorder
  by unfold_locales (simp_all add: le_byteorder_def)

subsection \<open>Byte memories\<close>

text \<open>
  A memory of fixed length is a function from offsets to bytes, read below its length
  only. \<open>slice m a n\<close> is \<open>&m[a..a + n]\<close>, \<open>blit m a bs\<close> is \<open>m[a..].copy_from_slice(bs)\<close>.
\<close>

definition slice :: "(nat \<Rightarrow> u8) \<Rightarrow> nat \<Rightarrow> nat \<Rightarrow> u8 list" where
  "slice m a n = map m [a..<a + n]"

definition blit :: "(nat \<Rightarrow> u8) \<Rightarrow> nat \<Rightarrow> u8 list \<Rightarrow> nat \<Rightarrow> u8" where
  "blit m a bs = (\<lambda>i. if a \<le> i \<and> i < a + length bs then bs ! (i - a) else m i)"

lemma length_slice [simp]: "length (slice m a n) = n"
  by (simp add: slice_def)

lemma nth_slice [simp]: "i < n \<Longrightarrow> slice m a n ! i = m (a + i)"
  by (simp add: slice_def)

lemma slice_cong: "(\<And>i. a \<le> i \<Longrightarrow> i < a + n \<Longrightarrow> m i = m' i) \<Longrightarrow> slice m a n = slice m' a n"
  by (rule nth_equalityI) simp_all

lemma slice_append: "slice m a (n + k) = slice m a n @ slice m (a + n) k"
  by (rule nth_equalityI) (auto simp: nth_append)

lemma blit_inside [simp]: "i < length bs \<Longrightarrow> blit m a bs (a + i) = bs ! i"
  by (simp add: blit_def)

lemma blit_outside [simp]: "i < a \<or> a + length bs \<le> i \<Longrightarrow> blit m a bs i = m i"
  by (auto simp: blit_def)

lemma slice_blit_same [simp]: "n = length bs \<Longrightarrow> slice (blit m a bs) a n = bs"
  by (rule nth_equalityI) simp_all

lemma slice_blit_disjoint [simp]:
  "b + n \<le> a \<or> a + length bs \<le> b \<Longrightarrow> slice (blit m a bs) b n = slice m b n"
  by (rule slice_cong) auto

text \<open>The error messages of the memories, the bus and the devices.\<close>

datatype mem_error =
    DramLoadRange
  | DramReaderShort nat nat
  | ReaderFailed
  | DramReadRange nat
  | DramWriteRange nat
  | MromLoadRange
  | MromReadRange nat
  | FlashLoadRange nat nat nat
  | FlashReadRange
  | BusReadRange
  | BusWriteRange
  | DescriptorChainTooLong
  | DescriptorChainTooShort

end
