(* ===== verification/Trap.thy ===== *)
theory Trap
  imports Prelude
begin

text \<open>
  \<open>src/src/trap.rs\<close>: exceptions, interrupts and their RISC-V cause codes, and the
  privilege mode (\<open>Mode\<close> of \<open>src/src/cpu.rs\<close>), which the MMU and the CPU share.
\<close>

datatype exception =
    InstructionAddressMisaligned
  | InstructionAccessFault
  | IllegalInstruction
  | Breakpoint
  | LoadAddressMisaligned
  | LoadAccessFault
  | StoreAMOAddressMisaligned
  | StoreAMOAccessFault
  | EnvironmentCallFromUMode
  | EnvironmentCallFromSMode
  | EnvironmentCallFromMMode
  | InstructionPageFault
  | LoadPageFault
  | StoreAMOPageFault

primrec exception_code :: "exception \<Rightarrow> u64" where
  "exception_code InstructionAddressMisaligned = 0"
| "exception_code InstructionAccessFault = 1"
| "exception_code IllegalInstruction = 2"
| "exception_code Breakpoint = 3"
| "exception_code LoadAddressMisaligned = 4"
| "exception_code LoadAccessFault = 5"
| "exception_code StoreAMOAddressMisaligned = 6"
| "exception_code StoreAMOAccessFault = 7"
| "exception_code EnvironmentCallFromUMode = 8"
| "exception_code EnvironmentCallFromSMode = 9"
| "exception_code EnvironmentCallFromMMode = 11"
| "exception_code InstructionPageFault = 12"
| "exception_code LoadPageFault = 13"
| "exception_code StoreAMOPageFault = 15"

datatype interrupt =
    UserSoftwareInterrupt
  | SupervisorSoftwareInterrupt
  | MachineSoftwareInterrupt
  | UserTimerInterrupt
  | SupervisorTimerInterrupt
  | MachineTimerInterrupt
  | UserExternalInterrupt
  | SupervisorExternalInterrupt
  | MachineExternalInterrupt

primrec interrupt_code :: "interrupt \<Rightarrow> u64" where
  "interrupt_code UserSoftwareInterrupt = 0"
| "interrupt_code SupervisorSoftwareInterrupt = 1"
| "interrupt_code MachineSoftwareInterrupt = 3"
| "interrupt_code UserTimerInterrupt = 4"
| "interrupt_code SupervisorTimerInterrupt = 5"
| "interrupt_code MachineTimerInterrupt = 7"
| "interrupt_code UserExternalInterrupt = 8"
| "interrupt_code SupervisorExternalInterrupt = 9"
| "interrupt_code MachineExternalInterrupt = 11"

datatype trap = Exception exception | Interrupt interrupt

primrec trap_code :: "trap \<Rightarrow> u64" where
  "trap_code (Exception e) = exception_code e"
| "trap_code (Interrupt i) = push_bit 63 1 OR interrupt_code i"

primrec is_interrupt :: "trap \<Rightarrow> bool" where
  "is_interrupt (Exception e) = False"
| "is_interrupt (Interrupt i) = True"

primrec is_exception :: "trap \<Rightarrow> bool" where
  "is_exception (Exception e) = True"
| "is_exception (Interrupt i) = False"

datatype mode = User | Supervisor | Hypervisor | Machine

primrec mode_bits :: "mode \<Rightarrow> u64" where
  "mode_bits User = 0"
| "mode_bits Supervisor = 1"
| "mode_bits Hypervisor = 2"
| "mode_bits Machine = 3"

subsection \<open>Cause codes\<close>

lemma exception_code_small: "exception_code e < 16"
  by (cases e) simp_all

lemma interrupt_code_small: "interrupt_code i < 16"
  by (cases i) simp_all

lemma mode_bits_less_4: "mode_bits m < 4"
  by (cases m) simp_all

lemma mode_bits_inj: "mode_bits m = mode_bits m' \<longleftrightarrow> m = m'"
  by (cases m; cases m') simp_all

lemma exception_code_inj: "exception_code e = exception_code e' \<longleftrightarrow> e = e'"
  by (cases e; cases e'; simp)

lemma interrupt_code_inj: "interrupt_code i = interrupt_code i' \<longleftrightarrow> i = i'"
  by (cases i; cases i'; simp)

lemma bit_63_trap_code: "bit (trap_code t) 63 \<longleftrightarrow> is_interrupt t"
proof (cases t)
  case (Exception e)
  then show ?thesis by (cases e) simp_all
next
  case (Interrupt i)
  then show ?thesis by (cases i) simp_all
qed

lemma trap_code_inj: "trap_code t = trap_code t' \<longleftrightarrow> t = t'"
proof
  assume eq: "trap_code t = trap_code t'"
  then have "is_interrupt t = is_interrupt t'"
    using bit_63_trap_code by metis
  then show "t = t'"
  proof (cases t; cases t')
    fix i i' assume "t = Interrupt i" "t' = Interrupt i'"
    then show ?thesis using eq by (cases i; cases i'; simp)
  qed (use eq in \<open>auto simp: exception_code_inj\<close>)
qed simp

end
