(* ===== verification/Csr.thy ===== *)
theory Csr
  imports Trap
begin

text \<open>
  \<open>src/src/csr.rs\<close>: the control and status registers. The hash map of the code is a map
  from 12-bit addresses (held in a \<open>u16\<close>) to \<open>u64\<close> values; a register that was never
  written reads as zero. \<open>csr_read\<close> and \<open>csr_write\<close> are the code's two matches, in
  their order; the shadow registers (SSTATUS, SIE, SIP, FFLAGS, FRM) are views of the
  register they alias. The lemmas show the views' laws, the invariant that every write
  keeps, and the privilege check.
\<close>

subsection \<open>Addresses\<close>

abbreviation MSTATUS :: u16 where "MSTATUS \<equiv> 0x300"
abbreviation MISA :: u16 where "MISA \<equiv> 0x301"
abbreviation MEDELEG :: u16 where "MEDELEG \<equiv> 0x302"
abbreviation MIDELEG :: u16 where "MIDELEG \<equiv> 0x303"
abbreviation MIE :: u16 where "MIE \<equiv> 0x304"
abbreviation MTVEC :: u16 where "MTVEC \<equiv> 0x305"
abbreviation MCOUNTEREN :: u16 where "MCOUNTEREN \<equiv> 0x306"
abbreviation MENVCFG :: u16 where "MENVCFG \<equiv> 0x30A"
abbreviation MCOUNTINHIBIT :: u16 where "MCOUNTINHIBIT \<equiv> 0x320"
abbreviation MSCRATCH :: u16 where "MSCRATCH \<equiv> 0x340"
abbreviation MEPC :: u16 where "MEPC \<equiv> 0x341"
abbreviation MCAUSE :: u16 where "MCAUSE \<equiv> 0x342"
abbreviation MTVAL :: u16 where "MTVAL \<equiv> 0x343"
abbreviation MIP :: u16 where "MIP \<equiv> 0x344"
abbreviation MTINST :: u16 where "MTINST \<equiv> 0x34A"
abbreviation MTVAL2 :: u16 where "MTVAL2 \<equiv> 0x34B"
abbreviation MVENDORID :: u16 where "MVENDORID \<equiv> 0xF11"
abbreviation MARCHID :: u16 where "MARCHID \<equiv> 0xF12"
abbreviation MIMPID :: u16 where "MIMPID \<equiv> 0xF13"
abbreviation MHARTID :: u16 where "MHARTID \<equiv> 0xF14"
abbreviation SSTATUS :: u16 where "SSTATUS \<equiv> 0x100"
abbreviation SEDELEG :: u16 where "SEDELEG \<equiv> 0x102"
abbreviation SIDELEG :: u16 where "SIDELEG \<equiv> 0x103"
abbreviation SIE :: u16 where "SIE \<equiv> 0x104"
abbreviation STVEC :: u16 where "STVEC \<equiv> 0x105"
abbreviation SCOUNTEREN :: u16 where "SCOUNTEREN \<equiv> 0x106"
abbreviation SENVCFG :: u16 where "SENVCFG \<equiv> 0x10A"
abbreviation SSCRATCH :: u16 where "SSCRATCH \<equiv> 0x140"
abbreviation SEPC :: u16 where "SEPC \<equiv> 0x141"
abbreviation SCAUSE :: u16 where "SCAUSE \<equiv> 0x142"
abbreviation STVAL :: u16 where "STVAL \<equiv> 0x143"
abbreviation SIP :: u16 where "SIP \<equiv> 0x144"
abbreviation STIMECMP :: u16 where "STIMECMP \<equiv> 0x14D"
abbreviation SATP :: u16 where "SATP \<equiv> 0x180"
abbreviation HSTATUS :: u16 where "HSTATUS \<equiv> 0x600"
abbreviation HEDELEG :: u16 where "HEDELEG \<equiv> 0x602"
abbreviation HIDELEG :: u16 where "HIDELEG \<equiv> 0x603"
abbreviation HCOUNTEREN :: u16 where "HCOUNTEREN \<equiv> 0x606"
abbreviation HTVAL :: u16 where "HTVAL \<equiv> 0x643"
abbreviation HTINST :: u16 where "HTINST \<equiv> 0x64A"
abbreviation VSSTATUS :: u16 where "VSSTATUS \<equiv> 0x200"
abbreviation VSIE :: u16 where "VSIE \<equiv> 0x204"
abbreviation VSTVEC :: u16 where "VSTVEC \<equiv> 0x205"
abbreviation VSSCRATCH :: u16 where "VSSCRATCH \<equiv> 0x240"
abbreviation VSEPC :: u16 where "VSEPC \<equiv> 0x241"
abbreviation VSCAUSE :: u16 where "VSCAUSE \<equiv> 0x242"
abbreviation VSTVAL :: u16 where "VSTVAL \<equiv> 0x243"
abbreviation VSIP :: u16 where "VSIP \<equiv> 0x244"
abbreviation VSATP :: u16 where "VSATP \<equiv> 0x280"
abbreviation FFLAGS :: u16 where "FFLAGS \<equiv> 0x001"
abbreviation FRM :: u16 where "FRM \<equiv> 0x002"
abbreviation FCSR :: u16 where "FCSR \<equiv> 0x003"
abbreviation TSELECT :: u16 where "TSELECT \<equiv> 0x7A0"
abbreviation TDATA1 :: u16 where "TDATA1 \<equiv> 0x7A1"
abbreviation TDATA2 :: u16 where "TDATA2 \<equiv> 0x7A2"
abbreviation TDATA3 :: u16 where "TDATA3 \<equiv> 0x7A3"
abbreviation TINFO :: u16 where "TINFO \<equiv> 0x7A4"
abbreviation CYCLE :: u16 where "CYCLE \<equiv> 0xC00"
abbreviation TIME :: u16 where "TIME \<equiv> 0xC01"
abbreviation INSTRET :: u16 where "INSTRET \<equiv> 0xC02"

subsection \<open>State and operations\<close>

record csr =
  csr_regs :: "u16 \<Rightarrow> u64 option"
  csr_num_triggers :: u64

text \<open>\<open>*self.regs.get(&addr).unwrap_or(&0)\<close> and \<open>self.regs.insert(addr, value)\<close>.\<close>

definition reg_get :: "csr \<Rightarrow> u16 \<Rightarrow> u64" where
  "reg_get c a = (case csr_regs c a of None \<Rightarrow> 0 | Some v \<Rightarrow> v)"

definition reg_insert :: "csr \<Rightarrow> u16 \<Rightarrow> u64 \<Rightarrow> csr" where
  "reg_insert c a v = c\<lparr>csr_regs := (csr_regs c)(a \<mapsto> v)\<rparr>"

definition get_csr_privilege :: "u16 \<Rightarrow> u8" where
  "get_csr_privilege addr = ucast (drop_bit 8 addr AND 0x3)"

definition is_csr_readonly :: "u16 \<Rightarrow> bool" where
  "is_csr_readonly addr \<longleftrightarrow> drop_bit 10 addr AND 0x3 = 0x3"

definition check_csr_privilege :: "u16 \<Rightarrow> u8 \<Rightarrow> bool \<Rightarrow> bool" where
  "check_csr_privilege addr mode is_write =
     (let required_priv = get_csr_privilege addr in
      if mode < required_priv then False
      else if is_write \<and> is_csr_readonly addr then False
      else True)"

definition is_valid_csr :: "u16 \<Rightarrow> bool" where
  "is_valid_csr addr =
     (if addr \<in> {MSTATUS, MISA, MEDELEG, MIDELEG, MIE, MTVEC, MCOUNTEREN} then True
      else if addr \<in> {MENVCFG, MCOUNTINHIBIT} then True
      else if addr \<in> {MSCRATCH, MEPC, MCAUSE, MTVAL, MIP, MTINST, MTVAL2} then True
      else if addr \<in> {MVENDORID, MARCHID, MIMPID, MHARTID} then True
      else if 0x323 \<le> addr \<and> addr \<le> 0x332 then True
      else if 0x3A0 \<le> addr \<and> addr \<le> 0x3A3 then True
      else if 0x3B0 \<le> addr \<and> addr \<le> 0x3EF then True
      else if addr \<in> {SSTATUS, SEDELEG, SIDELEG, SIE, STVEC, SCOUNTEREN, SENVCFG} then True
      else if addr \<in> {SSCRATCH, SEPC, SCAUSE, STVAL, SIP, STIMECMP} then True
      else if addr = SATP then True
      else if addr \<in> {HSTATUS, HEDELEG, HIDELEG, HCOUNTEREN, HTVAL, HTINST} then True
      else if addr \<in> {VSSTATUS, VSIE, VSTVEC, VSSCRATCH, VSEPC, VSCAUSE, VSTVAL, VSIP, VSATP} then True
      else if addr \<in> {TSELECT, TDATA1, TDATA2, TDATA3, TINFO} then True
      else if addr \<in> {FFLAGS, FRM, FCSR} then True
      else if addr \<in> {CYCLE, TIME, INSTRET} then True
      else if 0xB03 \<le> addr \<and> addr \<le> 0xB12 then True
      else False)"

abbreviation SSTATUS_MASK :: u64 where "SSTATUS_MASK \<equiv> 0x80000003000DE762"
abbreviation SIE_MASK :: u64 where "SIE_MASK \<equiv> 0x222"
abbreviation SIP_MASK :: u64 where "SIP_MASK \<equiv> 0x222"
abbreviation SIP_WRITABLE :: u64 where "SIP_WRITABLE \<equiv> 0x2"
abbreviation MIP_WRITABLE :: u64 where "MIP_WRITABLE \<equiv> 0x0222"
abbreviation MIDELEG_FORCE :: u64 where "MIDELEG_FORCE \<equiv> 0x1444"
abbreviation MIDELEG_WRITABLE :: u64 where "MIDELEG_WRITABLE \<equiv> 0xFFFF"

text \<open>The MSTATUS arm of \<open>read\<close>, which the SSTATUS arm calls.\<close>

definition csr_read_mstatus :: "csr \<Rightarrow> u64" where
  "csr_read_mstatus c =
     (let raw = reg_get c MSTATUS;
          fs = drop_bit 13 raw AND 0x3;
          vs = drop_bit 9 raw AND 0x3;
          value = raw AND NOT (push_bit 32 0xF);
          value = value OR push_bit 32 0xA;
          sd = (if fs = 3 \<or> vs = 3 then push_bit 63 1 else 0)
      in (value AND NOT (push_bit 63 1)) OR sd)"

definition csr_read :: "csr \<Rightarrow> u16 \<Rightarrow> u64" where
  "csr_read c addr =
     (if addr = 0x3c0 then 0
      else if addr = TINFO then 0x44
      else if addr = MISA then
        (let raw = reg_get c addr; value = raw AND NOT (push_bit 62 0x3) in value OR push_bit 62 2)
      else if addr = MSTATUS then csr_read_mstatus c
      else if addr = SSTATUS then csr_read_mstatus c AND SSTATUS_MASK
      else if addr = SIE then reg_get c MIE AND SIE_MASK
      else if addr = SIP then reg_get c MIP AND SIP_MASK
      else if addr = SENVCFG then reg_get c MENVCFG
      else if addr = HSTATUS then
        (let raw = reg_get c addr; value = raw AND NOT (push_bit 32 0x3) in value OR push_bit 32 2)
      else if addr = VSSTATUS then
        (let raw = reg_get c addr; value = raw AND NOT (push_bit 32 0x3) in value OR push_bit 32 2)
      else if addr = FFLAGS then reg_get c FCSR AND 0x1F
      else if addr = FRM then drop_bit 5 (reg_get c FCSR) AND 0x7
      else reg_get c addr)"

definition satp_mode :: "u64 \<Rightarrow> u64" where
  "satp_mode satp = drop_bit 60 satp AND 0xF"

definition csr_write :: "csr \<Rightarrow> u16 \<Rightarrow> u64 \<Rightarrow> csr" where
  "csr_write c addr value =
     (if addr = 0x3c0 then c
      else if addr = TINFO then c
      else if addr = MSTATUS then reg_insert c addr (value AND NOT (push_bit 63 1))
      else if addr = SSTATUS then
        (let old_mstatus = reg_get c MSTATUS;
             new_mstatus = (old_mstatus AND NOT SSTATUS_MASK) OR (value AND SSTATUS_MASK)
         in reg_insert c MSTATUS (new_mstatus AND NOT (push_bit 63 1)))
      else if addr = MIE then reg_insert c addr value
      else if addr = FFLAGS then
        (let old_fcsr = reg_get c FCSR in
         reg_insert c FCSR ((old_fcsr AND NOT 0x1F) OR (value AND 0x1F)))
      else if addr = FRM then
        (let old_fcsr = reg_get c FCSR in
         reg_insert c FCSR ((old_fcsr AND NOT 0xE0) OR push_bit 5 (value AND 0x7)))
      else if addr = SIE then
        (let old_mie = reg_get c MIE in
         reg_insert c MIE ((old_mie AND NOT SIE_MASK) OR (value AND SIE_MASK)))
      else if addr = SIP then
        (let old_mip = reg_get c MIP in
         reg_insert c MIP ((old_mip AND NOT SIP_WRITABLE) OR (value AND SIP_WRITABLE)))
      else if addr = TSELECT then
        (if value < csr_num_triggers c then reg_insert c addr value else c)
      else if addr = MIDELEG then
        reg_insert c addr ((value AND MIDELEG_WRITABLE) OR MIDELEG_FORCE)
      else if addr = MIP then
        (let old = csr_read c addr in
         reg_insert c addr ((old AND NOT MIP_WRITABLE) OR (value AND MIP_WRITABLE)))
      else if addr = SATP then
        (let mode = satp_mode value;
             is_supported = (mode = 0 \<or> mode = 8 \<or> mode = 9 \<or> mode = 10)
         in if \<not> is_supported then c else reg_insert c addr value)
      else if addr = STVEC then reg_insert c addr value
      else reg_insert c addr value)"

definition csrrw :: "csr \<Rightarrow> u16 \<Rightarrow> u64 \<Rightarrow> u64 \<times> csr" where
  "csrrw c addr value = (let old = csr_read c addr in (old, csr_write c addr value))"

definition csrrs :: "csr \<Rightarrow> u16 \<Rightarrow> u64 \<Rightarrow> u64 \<times> csr" where
  "csrrs c addr msk =
     (let old = csr_read c addr in
      (old, if msk \<noteq> 0 then csr_write c addr (old OR msk) else c))"

definition csrrc :: "csr \<Rightarrow> u16 \<Rightarrow> u64 \<Rightarrow> u64 \<times> csr" where
  "csrrc c addr msk =
     (let old = csr_read c addr in
      (old, if msk \<noteq> 0 then csr_write c addr (old AND NOT msk) else c))"

text \<open>\<open>Csr::new\<close>: the writes of the constructor, in order, on an empty map.\<close>

definition csr_write_all :: "csr \<Rightarrow> (u16 \<times> u64) list \<Rightarrow> csr" where
  "csr_write_all c ws = fold (\<lambda>(a, v) c. csr_write c a v) ws c"

definition csr_new :: csr where
  "csr_new = csr_write_all \<lparr>csr_regs = Map.empty, csr_num_triggers = 2\<rparr>
     ([(MSTATUS, 0x0000000a00000000), (MISA, 0x80000000001411ad),
       (MENVCFG, 0xA000000000000000), (MCOUNTINHIBIT, 0)]
      @ map (\<lambda>i. (0x323 + word_of_nat i, 0)) [0..<16]
      @ [(MEDELEG, 0x0000000000f4b509), (MIDELEG, 0x0000000000001666),
         (MIE, 0), (MTVEC, 0), (MEPC, 0), (MCAUSE, 0), (MTVAL, 0),
         (MIP, 0x0000000000000080), (MSCRATCH, 0),
         (SSTATUS, 0), (SIE, 0), (STVEC, 0), (SEPC, 0), (SCAUSE, 0), (STVAL, 0), (SIP, 0),
         (SSCRATCH, 0), (STIMECMP, 0xFFFFFFFFFFFFFFFF), (SATP, 0),
         (HSTATUS, 0x0000000200000000), (HEDELEG, 0), (HIDELEG, 0), (HTVAL, 0), (HTINST, 0),
         (VSSTATUS, 0x0000000a00000000), (VSIE, 0), (VSTVEC, 0), (VSEPC, 0), (VSCAUSE, 0),
         (VSTVAL, 0), (VSIP, 0), (VSSCRATCH, 0), (VSATP, 0),
         (TSELECT, 0), (TDATA1, 0), (TDATA2, 0), (TDATA3, 0),
         (FCSR, 0), (MHARTID, 0)])"

subsection \<open>The map under the registers\<close>

lemma reg_get_insert [simp]: "reg_get (reg_insert c a v) b = (if a = b then v else reg_get c b)"
  by (simp add: reg_get_def reg_insert_def)

lemma num_triggers_insert [simp]: "csr_num_triggers (reg_insert c a v) = csr_num_triggers c"
  by (simp add: reg_insert_def)

lemma num_triggers_write [simp]: "csr_num_triggers (csr_write c a v) = csr_num_triggers c"
  by (simp add: csr_write_def Let_def)


text \<open>What a write does to each register the rest of the machine reads, seen through the map.\<close>

lemma csr_write_mstatus:
  "reg_get (csr_write c a v) MSTATUS =
     (if a = MSTATUS then v AND NOT (push_bit 63 1)
      else if a = SSTATUS then
        ((reg_get c MSTATUS AND NOT SSTATUS_MASK) OR (v AND SSTATUS_MASK)) AND NOT (push_bit 63 1)
      else reg_get c MSTATUS)"
  by (simp add: csr_write_def Let_def)

lemma csr_write_mie:
  "reg_get (csr_write c a v) MIE =
     (if a = MIE then v
      else if a = SIE then (reg_get c MIE AND NOT SIE_MASK) OR (v AND SIE_MASK)
      else reg_get c MIE)"
  by (simp add: csr_write_def Let_def)

lemma csr_write_mip:
  "reg_get (csr_write c a v) MIP =
     (if a = MIP then (reg_get c MIP AND NOT MIP_WRITABLE) OR (v AND MIP_WRITABLE)
      else if a = SIP then (reg_get c MIP AND NOT SIP_WRITABLE) OR (v AND SIP_WRITABLE)
      else reg_get c MIP)"
  by (simp add: csr_write_def csr_read_def Let_def)

lemma csr_write_mideleg:
  "reg_get (csr_write c a v) MIDELEG =
     (if a = MIDELEG then (v AND MIDELEG_WRITABLE) OR MIDELEG_FORCE else reg_get c MIDELEG)"
  by (simp add: csr_write_def Let_def)

lemma csr_write_satp:
  "reg_get (csr_write c a v) SATP =
     (if a = SATP \<and> satp_mode v \<in> {0, 8, 9, 10} then v else reg_get c SATP)"
  by (simp add: csr_write_def Let_def)

lemma csr_write_tselect:
  "reg_get (csr_write c a v) TSELECT =
     (if a = TSELECT \<and> v < csr_num_triggers c then v else reg_get c TSELECT)"
  by (simp add: csr_write_def Let_def)

lemma csr_write_fcsr:
  "reg_get (csr_write c a v) FCSR =
     (if a = FCSR then v
      else if a = FFLAGS then (reg_get c FCSR AND NOT 0x1F) OR (v AND 0x1F)
      else if a = FRM then (reg_get c FCSR AND NOT 0xE0) OR push_bit 5 (v AND 0x7)
      else reg_get c FCSR)"
  by (simp add: csr_write_def Let_def)

text \<open>A register with no arm of its own in either match is plain storage.\<close>

definition plain_csr :: "u16 \<Rightarrow> bool" where
  "plain_csr a \<longleftrightarrow> a \<notin> {0x3c0, TINFO, MISA, MSTATUS, SSTATUS, MIE, SIE, MIP, SIP, SENVCFG,
     HSTATUS, VSSTATUS, FFLAGS, FRM, FCSR, TSELECT, MIDELEG, SATP}"

lemma csr_write_plain:
  "plain_csr b \<Longrightarrow> reg_get (csr_write c a v) b = (if a = b then v else reg_get c b)"
  by (auto simp: plain_csr_def csr_write_def Let_def)

lemma csr_read_plain: "plain_csr b \<Longrightarrow> csr_read c b = reg_get c b"
  by (simp add: plain_csr_def csr_read_def)

lemma csr_read_simps:
  "csr_read c MSTATUS = csr_read_mstatus c"
  "csr_read c SSTATUS = csr_read_mstatus c AND SSTATUS_MASK"
  "csr_read c MIE = reg_get c MIE" "csr_read c MIP = reg_get c MIP"
  "csr_read c SIE = reg_get c MIE AND SIE_MASK" "csr_read c SIP = reg_get c MIP AND SIP_MASK"
  "csr_read c MIDELEG = reg_get c MIDELEG" "csr_read c MEDELEG = reg_get c MEDELEG"
  "csr_read c SATP = reg_get c SATP" "csr_read c FCSR = reg_get c FCSR"
  "csr_read c FFLAGS = reg_get c FCSR AND 0x1F"
  "csr_read c FRM = drop_bit 5 (reg_get c FCSR) AND 0x7"
  "csr_read c TSELECT = reg_get c TSELECT" "csr_read c TINFO = 0x44"
  "csr_read c SENVCFG = reg_get c MENVCFG"
  by (simp_all add: csr_read_def)

lemmas csr_write_regs =
  csr_write_mstatus csr_write_mie csr_write_mip csr_write_mideleg csr_write_satp
  csr_write_tselect csr_write_fcsr

subsection \<open>The well-formed register file\<close>

text \<open>
  What every write keeps: SATP holds a mode the walker supports, TSELECT a trigger that
  exists, MIDELEG its forced bits and nothing above bit 15, MSTATUS no stored SD bit, and
  MIP only the bits software may set.
\<close>

definition csr_wf :: "csr \<Rightarrow> bool" where
  "csr_wf c \<longleftrightarrow>
     csr_num_triggers c = 2 \<and>
     satp_mode (reg_get c SATP) \<in> {0, 8, 9, 10} \<and>
     reg_get c TSELECT < 2 \<and>
     bits_within (reg_get c MIDELEG) MIDELEG_FORCE \<and>
     bits_within MIDELEG_WRITABLE (reg_get c MIDELEG) \<and>
     \<not> bit (reg_get c MSTATUS) 63 \<and>
     bits_within MIP_WRITABLE (reg_get c MIP)"

lemma bits_within_or_right: "bits_within (a OR m) m"
  by (auto simp: bits_within_iff bit_simps)

lemma csr_masks [simp]:
  "bits_within MIDELEG_WRITABLE MIDELEG_FORCE" "bits_within MIP_WRITABLE SIP_WRITABLE"
  by (simp_all add: bits_within_def)

lemma not_sd_bit [simp]: "\<not> bit (x AND NOT (push_bit 63 1)) 63" for x :: u64
  by (simp only: bit_simps) simp

lemma csr_write_wf:
  assumes "csr_wf c" shows "csr_wf (csr_write c a v)"
proof -
  have "satp_mode (reg_get (csr_write c a v) SATP) \<in> {0, 8, 9, 10}"
    using assms unfolding csr_wf_def csr_write_satp by simp
  moreover have "reg_get (csr_write c a v) TSELECT < 2"
    using assms unfolding csr_wf_def csr_write_tselect by simp
  moreover have "bits_within (reg_get (csr_write c a v) MIDELEG) MIDELEG_FORCE"
    using assms unfolding csr_wf_def csr_write_mideleg by (simp only: bits_within_or_right split: if_split) simp
  moreover have "bits_within MIDELEG_WRITABLE (reg_get (csr_write c a v) MIDELEG)"
    using assms unfolding csr_wf_def csr_write_mideleg by simp
  moreover have "\<not> bit (reg_get (csr_write c a v) MSTATUS) 63"
    using assms unfolding csr_wf_def csr_write_mstatus by (simp only: not_sd_bit split: if_split) simp
  moreover have "bits_within MIP_WRITABLE (reg_get (csr_write c a v) MIP)"
    using assms unfolding csr_wf_def csr_write_mip
    by (simp only: bits_within_or split: if_split) (auto intro: bits_within_and)
  ultimately show ?thesis
    using assms by (simp add: csr_wf_def)
qed

lemma reg_get_empty [simp]: "reg_get \<lparr>csr_regs = \<lambda>x. None, csr_num_triggers = n\<rparr> a = 0"
  by (simp add: reg_get_def)

lemma csr_new_regs:
  "reg_get csr_new MSTATUS = 0x0000000800000000"
  "reg_get csr_new MIDELEG = 0x1666" "reg_get csr_new MEDELEG = 0x00f4b509"
  "reg_get csr_new SATP = 0" "reg_get csr_new TSELECT = 0"
  "reg_get csr_new MIP = 0" "reg_get csr_new MIE = 0"
  "reg_get csr_new STIMECMP = 0xFFFFFFFFFFFFFFFF"
  "csr_num_triggers csr_new = 2"
  by (simp_all add: csr_new_def csr_write_all_def csr_write_def Let_def upt_rec csr_read_def satp_mode_def)

lemma csr_new_wf: "csr_wf csr_new"
  by (simp add: csr_wf_def csr_new_regs satp_mode_def bits_within_def)

lemma csr_write_all_wf: "csr_wf c \<Longrightarrow> csr_wf (csr_write_all c ws)"
  unfolding csr_write_all_def
  by (induction ws arbitrary: c) (auto intro: csr_write_wf)

lemma csrrw_wf: "csr_wf c \<Longrightarrow> csr_wf (snd (csrrw c a v))"
  by (simp add: csrrw_def Let_def csr_write_wf)

lemma csrrs_wf: "csr_wf c \<Longrightarrow> csr_wf (snd (csrrs c a v))"
  by (simp add: csrrs_def Let_def csr_write_wf)

lemma csrrc_wf: "csr_wf c \<Longrightarrow> csr_wf (snd (csrrc c a v))"
  by (simp add: csrrc_def Let_def csr_write_wf)

subsection \<open>Masked views\<close>

text \<open>
  The contract the shadow registers share: reading shows the bits of the underlying
  register under one mask, writing changes its bits under another.
\<close>

locale masked_view =
  fixes get :: "'s \<Rightarrow> 'w::len word"
    and put :: "'s \<Rightarrow> 'w word \<Rightarrow> 's"
    and whole :: "'s \<Rightarrow> 'w word"
    and vmask :: "'w word"
    and wmask :: "'w word"
  assumes get_whole: "get s = whole s AND vmask"
    and whole_put: "whole (put s v) = (whole s AND NOT wmask) OR (v AND wmask)"
    and wmask_visible: "bits_within vmask wmask"
begin

lemma get_put: "get (put s v) = (get s AND NOT wmask) OR (v AND wmask)"
proof (rule bit_word_eqI)
  fix i assume "i < LENGTH('w)"
  then show "bit (get (put s v)) i = bit ((get s AND NOT wmask) OR (v AND wmask)) i"
    using wmask_visible by (auto simp: get_whole whole_put bit_simps bits_within_iff)
qed

lemma whole_outside: "whole (put s v) AND NOT wmask = whole s AND NOT wmask"
  by (simp add: whole_put mask_insert_other)

lemma put_get: "whole (put s (get s)) = whole s"
proof (rule bit_word_eqI)
  fix i assume "i < LENGTH('w)"
  then show "bit (whole (put s (get s))) i = bit (whole s) i"
    using wmask_visible by (auto simp: get_whole whole_put bit_simps bits_within_iff)
qed

lemma put_put: "whole (put (put s u) v) = whole (put s v)"
  by (rule bit_word_eqI) (auto simp: whole_put bit_simps)

lemma set_bits: "get (put s (get s OR m)) = get s OR (m AND wmask)"
proof (rule bit_word_eqI)
  fix i assume "i < LENGTH('w)"
  then show "bit (get (put s (get s OR m))) i = bit (get s OR (m AND wmask)) i"
    by (auto simp: get_put bit_simps)
qed

lemma clear_bits: "get (put s (get s AND NOT m)) = get s AND NOT (m AND wmask)"
proof (rule bit_word_eqI)
  fix i assume "i < LENGTH('w)"
  then show "bit (get (put s (get s AND NOT m))) i = bit (get s AND NOT (m AND wmask)) i"
    by (auto simp: get_put bit_simps)
qed

end

interpretation sie_view: masked_view
  "\<lambda>c. csr_read c SIE" "\<lambda>c. csr_write c SIE" "\<lambda>c. reg_get c MIE" SIE_MASK SIE_MASK
  by unfold_locales (simp_all add: csr_read_simps csr_write_mie)

interpretation sip_view: masked_view
  "\<lambda>c. csr_read c SIP" "\<lambda>c. csr_write c SIP" "\<lambda>c. reg_get c MIP" SIP_MASK SIP_WRITABLE
  by unfold_locales (simp_all add: csr_read_simps csr_write_mip)

interpretation mip_view: masked_view
  "\<lambda>c. csr_read c MIP" "\<lambda>c. csr_write c MIP" "\<lambda>c. reg_get c MIP" "- 1" MIP_WRITABLE
  by unfold_locales (simp_all add: csr_read_simps csr_write_mip bits_within_def)

interpretation fflags_view: masked_view
  "\<lambda>c. csr_read c FFLAGS" "\<lambda>c. csr_write c FFLAGS" "\<lambda>c. reg_get c FCSR" "0x1F" "0x1F"
  by unfold_locales (simp_all add: csr_read_simps csr_write_fcsr)


subsection \<open>SSTATUS\<close>

text \<open>The stored register behind a read of MSTATUS, and the fields the read computes.\<close>

definition sd_bit :: "u64 \<Rightarrow> bool" where
  "sd_bit x \<longleftrightarrow> bit x 13 \<and> bit x 14 \<or> bit x 9 \<and> bit x 10"

lemma csr_read_mstatus_alt:
  "csr_read_mstatus c =
     (((reg_get c MSTATUS AND NOT (push_bit 32 0xF)) OR push_bit 32 0xA) AND NOT (push_bit 63 1))
       OR (if sd_bit (reg_get c MSTATUS) then push_bit 63 1 else 0)"
  by (simp add: csr_read_mstatus_def Let_def two_bits_eq_3 sd_bit_def)

lemma sstatus_write_outside:
  "csr_read_mstatus (csr_write c SSTATUS v) AND NOT SSTATUS_MASK = csr_read_mstatus c AND NOT SSTATUS_MASK"
proof -
  have raw: "reg_get (csr_write c SSTATUS v) MSTATUS =
      ((reg_get c MSTATUS AND NOT SSTATUS_MASK) OR (v AND SSTATUS_MASK)) AND NOT (push_bit 63 1)"
    by (simp only: csr_write_mstatus) simp
  show ?thesis
    unfolding csr_read_mstatus_alt raw by (rule u64_eqI) (simp add: upt_64 bit_simps)
qed

text \<open>
  Writing SSTATUS changes only the supervisor's bits of MSTATUS: every other
  bit of MSTATUS reads as before. The supervisor reads back what it wrote in the fields it
  owns, UXL stays at 64 bit, and SD is recomputed from the written FS and VS fields.
\<close>

theorem sstatus_write_view:
  "csr_read (csr_write c SSTATUS v) MSTATUS AND NOT SSTATUS_MASK = csr_read c MSTATUS AND NOT SSTATUS_MASK \<and>
   csr_read (csr_write c SSTATUS v) SSTATUS AND 0xDE762 = v AND 0xDE762 \<and>
   drop_bit 32 (csr_read (csr_write c SSTATUS v) SSTATUS) AND 3 = 2 \<and>
   (bit (csr_read (csr_write c SSTATUS v) SSTATUS) 63 \<longleftrightarrow> sd_bit v)"
proof -
  define c' where "c' = csr_write c SSTATUS v"
  have raw: "reg_get c' MSTATUS =
      ((reg_get c MSTATUS AND NOT SSTATUS_MASK) OR (v AND SSTATUS_MASK)) AND NOT (push_bit 63 1)"
    unfolding c'_def by (simp only: csr_write_mstatus) simp
  have sd: "sd_bit (reg_get c' MSTATUS) \<longleftrightarrow> sd_bit v"
    by (simp add: raw sd_bit_def bit_simps)
  have "csr_read c' MSTATUS AND NOT SSTATUS_MASK = csr_read c MSTATUS AND NOT SSTATUS_MASK"
    unfolding c'_def csr_read_simps by (rule sstatus_write_outside)
  moreover have "csr_read c' SSTATUS AND 0xDE762 = v AND 0xDE762"
    unfolding csr_read_simps csr_read_mstatus_alt raw by (rule u64_eqI) (simp add: upt_64 bit_simps)
  moreover have "drop_bit 32 (csr_read c' SSTATUS) AND 3 = 2"
    unfolding csr_read_simps csr_read_mstatus_alt raw by (rule u64_eqI) (simp add: upt_64 bit_simps)
  moreover have "bit (csr_read c' SSTATUS) 63 \<longleftrightarrow> sd_bit v"
    by (simp add: csr_read_simps csr_read_mstatus_alt sd bit_simps)
  ultimately show ?thesis unfolding c'_def by blast
qed

subsection \<open>Every reachable register file is well formed\<close>

text \<open>
  Property C32. Whatever sequence of writes follows the constructor, SATP never holds an
  unsupported translation mode, the selected trigger exists, the forced delegation bits
  of MIDELEG are set and its upper bits clear, the stored MSTATUS has no SD bit, and only
  the software-writable bits of MIP are ever stored.
\<close>

theorem csr_reachable_wf: "csr_wf (csr_write_all csr_new ws)"
  by (intro csr_write_all_wf csr_new_wf)

subsection \<open>Privilege of an address\<close>

lemma get_csr_privilege_range:
  assumes "0x300 \<le> a" "a \<le> (0x3FF :: u16)"
  shows "get_csr_privilege a = 3"
proof -
  have "unat a div 256 = 3"
    using assms by (simp add: word_le_nat_alt)
  then have "unat (a div 256) = unat (3 :: u16)"
    by (simp add: unat_div)
  then have "drop_bit 8 a = 3"
    by (simp only: word_unat_eq_iff) (simp add: drop_bit_eq_div)
  then show ?thesis by (simp add: get_csr_privilege_def)
qed

lemma get_csr_privilege_range_b:
  assumes "0xB03 \<le> a" "a \<le> (0xB12 :: u16)"
  shows "get_csr_privilege a = 3"
proof -
  have "unat a div 256 = 11"
    using assms by (simp add: word_le_nat_alt)
  then have "unat (a div 256) = unat (11 :: u16)"
    by (simp add: unat_div)
  then have "drop_bit 8 a = 11"
    by (simp only: word_unat_eq_iff) (simp add: drop_bit_eq_div)
  then show ?thesis by (simp add: get_csr_privilege_def)
qed

abbreviation user_writable_csrs :: "u16 set" where
  "user_writable_csrs \<equiv> {FFLAGS, FRM, FCSR}"

abbreviation supervisor_csrs :: "u16 set" where
  "supervisor_csrs \<equiv> {SSTATUS, SEDELEG, SIDELEG, SIE, STVEC, SCOUNTEREN, SENVCFG,
     SSCRATCH, SEPC, SCAUSE, STVAL, SIP, STIMECMP, SATP}"

abbreviation high_csrs :: "u16 set" where
  "high_csrs \<equiv> {MVENDORID, MARCHID, MIMPID, MHARTID, HSTATUS, HEDELEG, HIDELEG, HCOUNTEREN, HTVAL, HTINST,
     VSSTATUS, VSIE, VSTVEC, VSSCRATCH, VSEPC, VSCAUSE, VSTVAL, VSIP, VSATP,
     TSELECT, TDATA1, TDATA2, TDATA3, TINFO}"

lemma is_valid_csr_cases:
  assumes "is_valid_csr a"
  shows "a \<in> user_writable_csrs \<union> supervisor_csrs \<union> {CYCLE, TIME, INSTRET} \<or> a \<in> high_csrs \<or>
         0x300 \<le> a \<and> a \<le> 0x3FF \<or> 0xB03 \<le> a \<and> a \<le> 0xB12"
proof -
  have sub: "0x300 \<le> a \<and> a \<le> 0x3FF" if "lo \<le> a" "a \<le> hi" "0x300 \<le> lo" "hi \<le> 0x3FF" for lo hi
    using that by (meson order_trans)
  have machine: "0x300 \<le> a \<and> a \<le> 0x3FF"
    if "a \<in> {MSTATUS, MISA, MEDELEG, MIDELEG, MIE, MTVEC, MCOUNTEREN, MENVCFG, MCOUNTINHIBIT,
              MSCRATCH, MEPC, MCAUSE, MTVAL, MIP, MTINST, MTVAL2}"
    using that by (elim insertE) simp_all
  have "a \<in> {MSTATUS, MISA, MEDELEG, MIDELEG, MIE, MTVEC, MCOUNTEREN, MENVCFG, MCOUNTINHIBIT,
              MSCRATCH, MEPC, MCAUSE, MTVAL, MIP, MTINST, MTVAL2} \<or>
        0x323 \<le> a \<and> a \<le> 0x332 \<or> 0x3A0 \<le> a \<and> a \<le> 0x3A3 \<or> 0x3B0 \<le> a \<and> a \<le> 0x3EF \<or>
        0xB03 \<le> a \<and> a \<le> 0xB12 \<or> a \<in> high_csrs \<or>
        a \<in> user_writable_csrs \<union> supervisor_csrs \<union> {CYCLE, TIME, INSTRET}"
    using assms unfolding is_valid_csr_def by (simp only: split: if_split_asm) blast+
  then show ?thesis
    using sub [of "0x323" "0x332"] sub [of "0x3A0" "0x3A3"] sub [of "0x3B0" "0x3EF"] machine
    by (elim disjE) simp_all
qed

lemma high_csr_privilege: "a \<in> high_csrs \<Longrightarrow> get_csr_privilege a \<noteq> 0 \<and> get_csr_privilege a \<noteq> 1"
  by (elim insertE) (simp_all add: get_csr_privilege_def)

lemma low_csr_privilege: "a \<in> user_writable_csrs \<union> supervisor_csrs \<Longrightarrow> get_csr_privilege a \<in> {0, 1}"
  unfolding Un_iff by (elim disjE insertE) (simp_all add: get_csr_privilege_def)

lemma u8_le_1: "x \<le> 1 \<longleftrightarrow> x \<in> {0, 1}" for x :: u8
proof -
  have "x \<le> 1 \<longleftrightarrow> unat x = unat (0 :: u8) \<or> unat x = unat (1 :: u8)"
    by (auto simp: word_le_nat_alt)
  then show ?thesis by (simp only: word_unat_eq_iff [symmetric]) simp
qed

lemma valid_low_csr_cases:
  assumes "is_valid_csr a" and "get_csr_privilege a \<le> 1"
  shows "a \<in> user_writable_csrs \<union> supervisor_csrs \<union> {CYCLE, TIME, INSTRET}"
proof -
  have p: "get_csr_privilege a = 0 \<or> get_csr_privilege a = 1"
    using assms(2) by (simp add: u8_le_1)
  then have "a \<notin> high_csrs"
    using high_csr_privilege by blast
  moreover have "\<not> (0x300 \<le> a \<and> a \<le> 0x3FF)"
    using p get_csr_privilege_range [of a] by auto
  moreover have "\<not> (0xB03 \<le> a \<and> a \<le> 0xB12)"
    using p get_csr_privilege_range_b [of a] by auto
  ultimately show ?thesis
    using is_valid_csr_cases [OF assms(1)] by blast
qed

lemma writable_csr_cases:
  assumes "is_valid_csr a" and "check_csr_privilege a m True" and "m \<le> 1"
  shows "a \<in> user_writable_csrs \<union> supervisor_csrs"
proof -
  from assms have "get_csr_privilege a \<le> 1" and "\<not> is_csr_readonly a"
    by (auto simp: check_csr_privilege_def Let_def not_less split: if_splits)
  with valid_low_csr_cases [OF assms(1)] show ?thesis
    by (auto simp: is_csr_readonly_def)
qed

lemma csr_write_frame:
  "b \<notin> {a, MSTATUS, FCSR, MIE, MIP} \<Longrightarrow> reg_get (csr_write c a v) b = reg_get c b"
  by (auto simp: csr_write_def Let_def)

text \<open>
  Privilege separation of the register file. A write that the access checks
  let through below machine mode leaves every machine and hypervisor register as it reads,
  except MSTATUS, MIE and MIP, and of these it changes at most the supervisor's bits: the
  SSTATUS bits of MSTATUS, SSIE, STIE and SEIE of MIE, and SSIP of MIP.
\<close>

theorem supervisor_write_confined:
  assumes "is_valid_csr a" and "check_csr_privilege a m True" and "m \<le> 1"
  shows "(\<forall>b. get_csr_privilege b \<ge> 2 \<and> b \<notin> {MSTATUS, MIE, MIP} \<longrightarrow>
            csr_read (csr_write c a v) b = csr_read c b) \<and>
         csr_read (csr_write c a v) MSTATUS AND NOT SSTATUS_MASK = csr_read c MSTATUS AND NOT SSTATUS_MASK \<and>
         csr_read (csr_write c a v) MIE AND NOT SIE_MASK = csr_read c MIE AND NOT SIE_MASK \<and>
         csr_read (csr_write c a v) MIP AND NOT SIP_WRITABLE = csr_read c MIP AND NOT SIP_WRITABLE"
proof -
  from assms have a: "a \<in> user_writable_csrs \<union> supervisor_csrs"
    by (rule writable_csr_cases)
  then have low: "get_csr_privilege a \<in> {0, 1}"
    by (rule low_csr_privilege)
  have "csr_read (csr_write c a v) b = csr_read c b"
    if b: "get_csr_privilege b \<ge> 2" "b \<notin> {MSTATUS, MIE, MIP}" for b
  proof -
    have "get_csr_privilege b \<notin> {0, 1}"
      using b by (auto simp: word_le_nat_alt)
    then have "b \<notin> user_writable_csrs \<union> supervisor_csrs" and "b \<noteq> a"
      using low low_csr_privilege [of b] by blast+
    then show ?thesis
      using b csr_write_frame [of b a c v] by (auto simp: csr_read_def)
  qed
  moreover have "csr_read (csr_write c a v) MSTATUS AND NOT SSTATUS_MASK = csr_read c MSTATUS AND NOT SSTATUS_MASK"
  proof (cases "a = SSTATUS")
    case True
    then show ?thesis by (simp only: csr_read_simps sstatus_write_outside)
  next
    case False
    with a have "reg_get (csr_write c a v) MSTATUS = reg_get c MSTATUS"
      by (auto simp: csr_write_mstatus)
    then show ?thesis by (simp add: csr_read_simps csr_read_mstatus_def)
  qed
  moreover have "csr_read (csr_write c a v) MIE AND NOT SIE_MASK = csr_read c MIE AND NOT SIE_MASK"
    using a sie_view.whole_outside [of c v] by (cases "a = SIE") (auto simp: csr_read_simps csr_write_mie)
  moreover have "csr_read (csr_write c a v) MIP AND NOT SIP_WRITABLE = csr_read c MIP AND NOT SIP_WRITABLE"
    using a sip_view.whole_outside [of c v] by (cases "a = SIP") (auto simp: csr_read_simps csr_write_mip)
  ultimately show ?thesis by blast
qed

text \<open>The hypotheses hold for the supervisor's write of SIE.\<close>

theorem supervisor_write_confined_witness:
  "is_valid_csr SIE \<and> check_csr_privilege SIE 1 True \<and>
   csr_read (csr_write csr_new SIE 0xFFFF) MIE AND NOT SIE_MASK = csr_read csr_new MIE AND NOT SIE_MASK"
proof -
  have h: "is_valid_csr SIE" "check_csr_privilege SIE 1 True" "(1 :: u8) \<le> 1"
    by (simp_all add: is_valid_csr_def check_csr_privilege_def get_csr_privilege_def is_csr_readonly_def)
  show ?thesis
    using supervisor_write_confined [OF h, of csr_new "0xFFFF"] h by blast
qed

subsection \<open>The shadow registers under the CSR instructions\<close>

text \<open>
  Setting or clearing bits through a shadow register (CSRRS and CSRRC) sets
  or clears exactly the bits that are writable there, in the view and in the register
  behind it: SSIE, STIE and SEIE for SIE, SSIP alone for SIP, the five accrued flags for
  FFLAGS.
\<close>

theorem shadow_set_clear:
  "csr_read (snd (csrrs c SIE m)) SIE = csr_read c SIE OR (m AND SIE_MASK) \<and>
   csr_read (snd (csrrc c SIE m)) SIE = csr_read c SIE AND NOT (m AND SIE_MASK) \<and>
   csr_read (snd (csrrs c SIP m)) SIP = csr_read c SIP OR (m AND SIP_WRITABLE) \<and>
   csr_read (snd (csrrc c SIP m)) SIP = csr_read c SIP AND NOT (m AND SIP_WRITABLE) \<and>
   csr_read (snd (csrrs c MIP m)) MIP = csr_read c MIP OR (m AND MIP_WRITABLE) \<and>
   csr_read (snd (csrrs c FFLAGS m)) FFLAGS = csr_read c FFLAGS OR (m AND 0x1F)"
proof (cases "m = 0")
  case True
  then show ?thesis by (simp add: csrrs_def csrrc_def Let_def)
next
  case False
  then show ?thesis
    unfolding csrrs_def csrrc_def Let_def snd_conv
    by (simp only: if_True not_False_eq_True sie_view.set_bits sie_view.clear_bits
        sip_view.set_bits sip_view.clear_bits mip_view.set_bits fflags_view.set_bits simp_thms)
qed

text \<open>
  FFLAGS and FRM are disjoint fields of FCSR: writing either is read back and
  leaves the other as it was, and together they are the low byte of FCSR.
\<close>

theorem fcsr_fields:
  "csr_read (csr_write c FRM v) FRM = v AND 7 \<and>
   csr_read (csr_write c FRM v) FFLAGS = csr_read c FFLAGS \<and>
   csr_read (csr_write c FFLAGS v) FFLAGS = v AND 0x1F \<and>
   csr_read (csr_write c FFLAGS v) FRM = csr_read c FRM \<and>
   csr_read c FCSR AND 0xFF = push_bit 5 (csr_read c FRM) OR csr_read c FFLAGS"
  unfolding csr_read_simps csr_write_fcsr
  by (intro conjI; rule u64_eqI; simp add: upt_64 bit_simps)

end
