(* ===== verification/Dram.thy ===== *)
theory Dram
  imports Prelude
begin

text \<open>
  \<open>src/src/dram.rs\<close>: main memory. The mapping of the mmap-rs crate is a byte memory of
  fixed length, \<open>dram_len\<close> (2 GiB on the machine, any length here), the byteorder crate
  the record \<open>dram_bo\<close>. Addresses are offsets from the base of the DRAM region. The
  lemmas give each access on both sides of its bounds check, the store/load round trip
  and its frame at every width, and how a wide load is made of narrower ones.
\<close>

record dram =
  dram_len :: nat
  dram_mem :: "nat \<Rightarrow> u8"
  dram_bo :: byteorder

text \<open>The mapping is fresh, so it reads as zero; its length is at most \<open>isize::MAX\<close>.\<close>

definition dram_new :: "byteorder \<Rightarrow> nat \<Rightarrow> dram" where
  "dram_new B sz = \<lparr>dram_len = sz, dram_mem = (\<lambda>_. 0), dram_bo = B\<rparr>"

definition dram_put :: "dram \<Rightarrow> nat \<Rightarrow> u8 list \<Rightarrow> dram" where
  "dram_put d a bs = d\<lparr>dram_mem := blit (dram_mem d) a bs\<rparr>"

definition dram_load :: "u64 \<Rightarrow> u8 list \<Rightarrow> (dram, unit, mem_error) comp" where
  "dram_load offset data d =
     (if unat offset + length data \<ge> 2 ^ 64 then (Panic, d)
      else if unat offset + length data > dram_len d then (Err DramLoadRange, d)
      else (Ok (), dram_put d (unat offset) data))"

definition dram_read64 :: "dram \<Rightarrow> u64 \<Rightarrow> (u64, mem_error) result" where
  "dram_read64 d addr =
     bindR (add_ck addr 8) (\<lambda>end_addr.
       if unat end_addr > dram_len d then Err (DramReadRange 64)
       else Ok (bo_read_u64 (dram_bo d) (slice (dram_mem d) (unat addr) 8)))"

definition dram_write64 :: "u64 \<Rightarrow> u64 \<Rightarrow> (dram, unit, mem_error) comp" where
  "dram_write64 addr value =
     bindS (liftR (add_ck addr 8)) (\<lambda>end_addr d.
       if unat end_addr > dram_len d then (Err (DramWriteRange 64), d)
       else (Ok (), dram_put d (unat addr) (bo_write_u64 (dram_bo d) value)))"

definition dram_read32 :: "dram \<Rightarrow> u64 \<Rightarrow> (u32, mem_error) result" where
  "dram_read32 d addr =
     bindR (add_ck addr 4) (\<lambda>end_addr.
       if unat end_addr > dram_len d then Err (DramReadRange 32)
       else Ok (bo_read_u32 (dram_bo d) (slice (dram_mem d) (unat addr) 4)))"

definition dram_write32 :: "u64 \<Rightarrow> u32 \<Rightarrow> (dram, unit, mem_error) comp" where
  "dram_write32 addr value =
     bindS (liftR (add_ck addr 4)) (\<lambda>end_addr d.
       if unat end_addr > dram_len d then (Err (DramWriteRange 32), d)
       else (Ok (), dram_put d (unat addr) (bo_write_u32 (dram_bo d) value)))"

definition dram_read16 :: "dram \<Rightarrow> u64 \<Rightarrow> (u16, mem_error) result" where
  "dram_read16 d addr =
     bindR (add_ck addr 2) (\<lambda>end_addr.
       if unat end_addr > dram_len d then Err (DramReadRange 16)
       else Ok (bo_read_u16 (dram_bo d) (slice (dram_mem d) (unat addr) 2)))"

definition dram_write16 :: "u64 \<Rightarrow> u16 \<Rightarrow> (dram, unit, mem_error) comp" where
  "dram_write16 addr value =
     bindS (liftR (add_ck addr 2)) (\<lambda>end_addr d.
       if unat end_addr > dram_len d then (Err (DramWriteRange 16), d)
       else (Ok (), dram_put d (unat addr) (bo_write_u16 (dram_bo d) value)))"

definition dram_read8 :: "dram \<Rightarrow> u64 \<Rightarrow> (u8, mem_error) result" where
  "dram_read8 d addr =
     (if unat addr \<ge> dram_len d then Err (DramReadRange 8) else Ok (dram_mem d (unat addr)))"

definition dram_write8 :: "u64 \<Rightarrow> u8 \<Rightarrow> (dram, unit, mem_error) comp" where
  "dram_write8 addr value d =
     (if unat addr \<ge> dram_len d then (Err (DramWriteRange 8), d)
      else (Ok (), dram_put d (unat addr) [value]))"

definition dram_size :: "dram \<Rightarrow> nat" where
  "dram_size d = dram_len d"

subsection \<open>Loading from a reader\<close>

text \<open>
  A \<open>Read\<close> is the list of what its next calls deliver: some bytes, or an I/O error; an
  exhausted list is the end of the file. A call with room for \<open>n\<close> bytes returns at most
  \<open>n\<close> and leaves the rest of a longer chunk for the next call.
\<close>

datatype read_event = Chunk "u8 list" | IoError

fun reader_read :: "nat \<Rightarrow> read_event list \<Rightarrow> u8 list option \<times> read_event list" where
  "reader_read n [] = (Some [], [])"
| "reader_read n (IoError # es) = (None, es)"
| "reader_read n (Chunk bs # es) =
     (Some (take n bs), if length bs \<le> n then es else Chunk (drop n bs) # es)"

text \<open>The \<open>while\<close> loop of \<open>load_from_reader\<close>: \<open>None\<close> is the \<open>?\<close> on a failed read.\<close>

function load_loop :: "nat \<Rightarrow> read_event list \<Rightarrow> dram \<Rightarrow> nat option \<times> dram" where
  "load_loop offset es d =
     (if offset < dram_len d then
        (case reader_read (dram_len d - offset) es of
           (None, es') \<Rightarrow> (None, d)
         | (Some bs, es') \<Rightarrow>
             if length bs = 0 then (Some offset, d)
             else load_loop (offset + length bs) es' (dram_put d offset bs))
      else (Some offset, d))"
  by pat_completeness auto
termination
  by (relation "measure (\<lambda>(offset, es, d). dram_len d - offset)") (auto simp: dram_put_def intro!: diff_less_mono2)

declare load_loop.simps [simp del]

definition load_from_reader :: "read_event list \<Rightarrow> (dram, unit, mem_error) comp" where
  "load_from_reader es d =
     (case load_loop 0 es d of
        (None, d') \<Rightarrow> (Err ReaderFailed, d')
      | (Some offset, d') \<Rightarrow>
          if offset \<noteq> dram_len d' then (Err (DramReaderShort (dram_len d') offset), d')
          else (Ok (), d'))"

subsection \<open>Well-formed memories\<close>

definition dram_wf :: "dram \<Rightarrow> bool" where
  "dram_wf d \<longleftrightarrow> dram_len d < 2 ^ 63 \<and> little_endian (dram_bo d)"

lemma dram_put_simps [simp]:
  "dram_len (dram_put d a bs) = dram_len d"
  "dram_bo (dram_put d a bs) = dram_bo d"
  "dram_mem (dram_put d a bs) = blit (dram_mem d) a bs"
  "dram_wf (dram_put d a bs) = dram_wf d"
  by (simp_all add: dram_put_def dram_wf_def)

lemma dram_put_Nil [simp]: "dram_put d a [] = d"
proof -
  have "blit (dram_mem d) a [] = dram_mem d" by (rule ext) (auto simp: blit_def)
  then show ?thesis by (simp add: dram_put_def)
qed

lemma dram_put_append: "dram_put (dram_put d a xs) (a + length xs) ys = dram_put d a (xs @ ys)"
proof -
  have "blit (blit (dram_mem d) a xs) (a + length xs) ys = blit (dram_mem d) a (xs @ ys)"
    by (rule ext) (auto simp: blit_def nth_append)
  then show ?thesis by (simp add: dram_put_def)
qed

lemma dram_new_wf: "sz < 2 ^ 63 \<Longrightarrow> little_endian B \<Longrightarrow> dram_wf (dram_new B sz)"
  by (simp add: dram_wf_def dram_new_def)

lemma dram_wf_bo:
  assumes "dram_wf d"
  shows "length bs = 2 \<Longrightarrow> bo_read_u16 (dram_bo d) bs = le_word bs"
    and "length bs = 4 \<Longrightarrow> bo_read_u32 (dram_bo d) bs = le_word bs"
    and "length bs = 8 \<Longrightarrow> bo_read_u64 (dram_bo d) bs = le_word bs"
    and "bo_write_u16 (dram_bo d) v16 = le_bytes 2 v16"
    and "bo_write_u32 (dram_bo d) v32 = le_bytes 4 v32"
    and "bo_write_u64 (dram_bo d) v64 = le_bytes 8 v64"
  using assms by (simp_all add: dram_wf_def little_endian_def)

lemma add_ck_small: "unat a + unat b < 2 ^ LENGTH('a) \<Longrightarrow> add_ck a b = Ok (a + b)" for a b :: "'a::len word"
  by (simp add: add_ck_def)

lemma unat_add_small: "unat a + unat b < 2 ^ LENGTH('a) \<Longrightarrow> unat (a + b) = unat a + unat b" for a b :: "'a::len word"
  by (simp add: unat_word_ariths)

text \<open>Every access inside the memory succeeds with the expected bytes.\<close>

lemma dram_read_in:
  assumes "dram_wf d"
  shows "unat a + 8 \<le> dram_len d \<Longrightarrow> dram_read64 d a = Ok (le_word (slice (dram_mem d) (unat a) 8))"
    and "unat a + 4 \<le> dram_len d \<Longrightarrow> dram_read32 d a = Ok (le_word (slice (dram_mem d) (unat a) 4))"
    and "unat a + 2 \<le> dram_len d \<Longrightarrow> dram_read16 d a = Ok (le_word (slice (dram_mem d) (unat a) 2))"
    and "unat a < dram_len d \<Longrightarrow> dram_read8 d a = Ok (dram_mem d (unat a))"
  using assms
  by (auto simp: dram_read64_def dram_read32_def dram_read16_def dram_read8_def add_ck_small
      unat_add_small dram_wf_bo [OF assms] dram_wf_def)

lemma dram_write_in:
  assumes "dram_wf d"
  shows "unat a + 8 \<le> dram_len d \<Longrightarrow> dram_write64 a v64 d = (Ok (), dram_put d (unat a) (le_bytes 8 v64))"
    and "unat a + 4 \<le> dram_len d \<Longrightarrow> dram_write32 a v32 d = (Ok (), dram_put d (unat a) (le_bytes 4 v32))"
    and "unat a + 2 \<le> dram_len d \<Longrightarrow> dram_write16 a v16 d = (Ok (), dram_put d (unat a) (le_bytes 2 v16))"
    and "unat a < dram_len d \<Longrightarrow> dram_write8 a v8 d = (Ok (), dram_put d (unat a) [v8])"
  using assms
  by (auto simp: dram_write64_def dram_write32_def dram_write16_def dram_write8_def bindS_def add_ck_small
      unat_add_small dram_wf_bo [OF assms] dram_wf_def)

text \<open>Every access that ends past the memory is refused and writes nothing.\<close>

lemma dram_read_out:
  "dram_len d < unat a + 8 \<Longrightarrow> unat a + 8 < 2 ^ 64 \<Longrightarrow> dram_read64 d a = Err (DramReadRange 64)"
  "dram_len d < unat a + 4 \<Longrightarrow> unat a + 4 < 2 ^ 64 \<Longrightarrow> dram_read32 d a = Err (DramReadRange 32)"
  "dram_len d < unat a + 2 \<Longrightarrow> unat a + 2 < 2 ^ 64 \<Longrightarrow> dram_read16 d a = Err (DramReadRange 16)"
  "dram_len d \<le> unat a \<Longrightarrow> dram_read8 d a = Err (DramReadRange 8)"
  by (auto simp: dram_read64_def dram_read32_def dram_read16_def dram_read8_def add_ck_small unat_add_small)

lemma dram_write_out:
  "dram_len d < unat a + 8 \<Longrightarrow> unat a + 8 < 2 ^ 64 \<Longrightarrow> dram_write64 a v64 d = (Err (DramWriteRange 64), d)"
  "dram_len d < unat a + 4 \<Longrightarrow> unat a + 4 < 2 ^ 64 \<Longrightarrow> dram_write32 a v32 d = (Err (DramWriteRange 32), d)"
  "dram_len d < unat a + 2 \<Longrightarrow> unat a + 2 < 2 ^ 64 \<Longrightarrow> dram_write16 a v16 d = (Err (DramWriteRange 16), d)"
  "dram_len d \<le> unat a \<Longrightarrow> dram_write8 a v8 d = (Err (DramWriteRange 8), d)"
  by (auto simp: dram_write64_def dram_write32_def dram_write16_def dram_write8_def bindS_def add_ck_small unat_add_small)

text \<open>No write changes the length or the byte order, so well-formedness is kept.\<close>

lemma dram_write_frame [frame_simps]:
  "dram_len (snd (dram_write64 a v64 d)) = dram_len d" "dram_bo (snd (dram_write64 a v64 d)) = dram_bo d"
  "dram_len (snd (dram_write32 a v32 d)) = dram_len d" "dram_bo (snd (dram_write32 a v32 d)) = dram_bo d"
  "dram_len (snd (dram_write16 a v16 d)) = dram_len d" "dram_bo (snd (dram_write16 a v16 d)) = dram_bo d"
  "dram_len (snd (dram_write8 a v8 d)) = dram_len d" "dram_bo (snd (dram_write8 a v8 d)) = dram_bo d"
  by (auto simp: dram_write64_def dram_write32_def dram_write16_def dram_write8_def bindS_def add_ck_def
      split: result.splits)

lemma dram_write_wf [frame_simps]:
  "dram_wf (snd (dram_write64 a v64 d)) = dram_wf d" "dram_wf (snd (dram_write32 a v32 d)) = dram_wf d"
  "dram_wf (snd (dram_write16 a v16 d)) = dram_wf d" "dram_wf (snd (dram_write8 a v8 d)) = dram_wf d"
  by (simp_all add: dram_wf_def frame_simps)

subsection \<open>The load/store contract\<close>

text \<open>
  What the page walker, the queues and the CPU rely on, for cells of \<open>n\<close> bytes: an access
  to a good address succeeds, a load returns the last value stored at its address, and a
  store leaves every cell that does not overlap it alone.
\<close>

locale cell_memory =
  fixes rd :: "'m \<Rightarrow> u64 \<Rightarrow> ('v, 'e) result"
    and wr :: "u64 \<Rightarrow> 'v \<Rightarrow> ('m, unit, 'e) comp"
    and good :: "'m \<Rightarrow> u64 \<Rightarrow> bool"
    and n :: nat
  assumes wr_ok: "good m a \<Longrightarrow> fst (wr a v m) = Ok ()"
    and good_wr: "good m a \<Longrightarrow> good (snd (wr a v m)) b \<longleftrightarrow> good m b"
    and rd_same: "good m a \<Longrightarrow> rd (snd (wr a v m)) a = Ok v"
    and rd_other: "good m a \<Longrightarrow> good m b \<Longrightarrow> unat a + n \<le> unat b \<or> unat b + n \<le> unat a \<Longrightarrow>
      rd (snd (wr a v m)) b = rd m b"
begin

lemma last_store_wins: "good m a \<Longrightarrow> rd (snd (wr a v (snd (wr a u m)))) a = Ok v"
  by (simp add: rd_same good_wr)

lemma good_stores:
  "\<forall>(a, v) \<in> set ws. good m a \<Longrightarrow> good (fold (\<lambda>(a, v) m. snd (wr a v m)) ws m) b \<longleftrightarrow> good m b"
  by (induction ws arbitrary: m) (auto simp: good_wr)

lemma stores_frame:
  assumes "\<forall>(a, v) \<in> set ws. good m a \<and> (unat a + n \<le> unat b \<or> unat b + n \<le> unat a)" and "good m b"
  shows "rd (fold (\<lambda>(a, v) m. snd (wr a v m)) ws m) b = rd m b"
  using assms by (induction ws arbitrary: m) (auto simp: good_wr rd_other)

lemma stores_observed:
  assumes "sorted_wrt (\<lambda>(a, v) (b, w). unat a + n \<le> unat b \<or> unat b + n \<le> unat a) ws"
    and "\<forall>(a, v) \<in> set ws. good m a" and "(a, v) \<in> set ws"
  shows "rd (fold (\<lambda>(a, v) m. snd (wr a v m)) ws m) a = Ok v"
  using assms
proof (induction ws arbitrary: m)
  case Nil
  then show ?case by simp
next
  case (Cons w ws)
  obtain b u where w: "w = (b, u)" by fastforce
  have good: "\<forall>(a, v) \<in> set ws. good (snd (wr b u m)) a"
    using Cons.prems(2) by (auto simp: w good_wr)
  show ?case
  proof (cases "(a, v) \<in> set ws")
    case True
    with Cons.IH [of "snd (wr b u m)"] Cons.prems(1) good show ?thesis by (simp add: w)
  next
    case False
    with Cons.prems have ab: "a = b" "v = u" and gb: "good m b"
      and disj: "\<forall>(a', v') \<in> set ws. unat b + n \<le> unat a' \<or> unat a' + n \<le> unat b"
      by (auto simp: w)
    have "rd (fold (\<lambda>(a, v) m. snd (wr a v m)) ws (snd (wr b u m))) b = rd (snd (wr b u m)) b"
    proof (rule stores_frame)
      show "\<forall>(a, v) \<in> set ws. good (snd (wr b u m)) a \<and> (unat a + n \<le> unat b \<or> unat b + n \<le> unat a)"
        using good disj by blast
      show "good (snd (wr b u m)) b" using gb by (simp add: good_wr)
    qed
    then show ?thesis using gb by (simp add: w ab rd_same)
  qed
qed

end

interpretation dram64: cell_memory dram_read64 dram_write64 "\<lambda>d a. dram_wf d \<and> unat a + 8 \<le> dram_len d" 8
  by unfold_locales (auto simp: dram_write_in dram_read_in le_word_le_bytes)

interpretation dram32: cell_memory dram_read32 dram_write32 "\<lambda>d a. dram_wf d \<and> unat a + 4 \<le> dram_len d" 4
  by unfold_locales (auto simp: dram_write_in dram_read_in le_word_le_bytes)

interpretation dram16: cell_memory dram_read16 dram_write16 "\<lambda>d a. dram_wf d \<and> unat a + 2 \<le> dram_len d" 2
  by unfold_locales (auto simp: dram_write_in dram_read_in le_word_le_bytes)

interpretation dram8: cell_memory dram_read8 dram_write8 "\<lambda>d a. dram_wf d \<and> unat a < dram_len d" 1
  by unfold_locales (auto simp: dram_write_in dram_read_in blit_def)

text \<open>
  Main memory is memory: after any sequence of 64-bit stores to
  non-overlapping addresses inside it, each address loads the value stored there, and
  every 64-bit cell that none of them touches loads what it did before.
\<close>

theorem dram_stores_observed:
  assumes "dram_wf d"
    and "\<forall>(a, v) \<in> set ws. unat a + 8 \<le> dram_len d"
    and "sorted_wrt (\<lambda>(a, v) (b, w). unat a + 8 \<le> unat b \<or> unat b + 8 \<le> unat a) ws"
  shows "(\<forall>(a, v) \<in> set ws. dram_read64 (fold (\<lambda>(a, v) d. snd (dram_write64 a v d)) ws d) a = Ok v) \<and>
    (\<forall>b. unat b + 8 \<le> dram_len d \<and> (\<forall>(a, v) \<in> set ws. unat a + 8 \<le> unat b \<or> unat b + 8 \<le> unat a) \<longrightarrow>
       dram_read64 (fold (\<lambda>(a, v) d. snd (dram_write64 a v d)) ws d) b = dram_read64 d b)"
proof (intro conjI allI impI)
  show "\<forall>(a, v) \<in> set ws. dram_read64 (fold (\<lambda>(a, v) d. snd (dram_write64 a v d)) ws d) a = Ok v"
    using assms dram64.stores_observed [of ws d] by auto
next
  fix b :: u64
  assume b: "unat b + 8 \<le> dram_len d \<and>
    (\<forall>(a, v) \<in> set ws. unat a + 8 \<le> unat b \<or> unat b + 8 \<le> unat a)"
  then have "\<forall>(a, v) \<in> set ws. (dram_wf d \<and> unat a + 8 \<le> dram_len d) \<and> (unat a + 8 \<le> unat b \<or> unat b + 8 \<le> unat a)"
    using assms(1,2) by blast
  then show "dram_read64 (fold (\<lambda>(a, v) d. snd (dram_write64 a v d)) ws d) b = dram_read64 d b"
    using dram64.stores_frame [of ws d b] b assms(1) by simp
qed

theorem dram_stores_observed_witness:
  "dram_read64 (fold (\<lambda>(a, v) d. snd (dram_write64 a v d)) [(8, 42), (16, 7)] (dram_new le_byteorder 32)) 8 = Ok 42"
proof -
  have wf: "dram_wf (dram_new le_byteorder 32)"
    by (rule dram_new_wf) (simp_all add: le_instance.little_endian_axioms)
  have in_mem: "\<forall>(a, v) \<in> set [(8 :: u64, 42 :: u64), (16, 7)]. unat a + 8 \<le> dram_len (dram_new le_byteorder 32)"
    by (simp add: dram_new_def)
  have disj: "sorted_wrt (\<lambda>(a, v) (b, w). unat a + 8 \<le> unat b \<or> unat b + 8 \<le> unat a) [(8 :: u64, 42 :: u64), (16, 7)]"
    by simp
  show ?thesis using dram_stores_observed [OF wf in_mem disj] by auto
qed

subsection \<open>Wide loads\<close>

lemma le_word_append: "le_word (xs @ ys) = le_word xs OR push_bit (8 * length xs) (le_word ys)"
  by (induction xs) (simp_all add: push_bit_or or.assoc flip: push_bit_push_bit)

lemma ucast_le_word:
  assumes "8 * length bs \<le> LENGTH('b)" and "LENGTH('b) \<le> LENGTH('a)"
  shows "(ucast (le_word bs :: 'b::len word) :: 'a::len word) = le_word bs"
  by (rule bit_word_eqI) (use assms in \<open>auto simp: bit_simps bit_le_word\<close>)

text \<open>
  The little-endian layout: a 64-bit load is the 32-bit load of its low half
  below the 32-bit load of its high half, a 32-bit load two 16-bit loads, a 16-bit load
  two bytes.
\<close>

theorem dram_load_halves:
  assumes "dram_wf d" and "unat a + 8 \<le> dram_len d"
  shows "(\<exists>lo hi. dram_read32 d a = Ok lo \<and> dram_read32 d (a + 4) = Ok hi \<and>
            dram_read64 d a = Ok (ucast lo OR push_bit 32 (ucast hi))) \<and>
         (\<exists>lo hi. dram_read16 d a = Ok lo \<and> dram_read16 d (a + 2) = Ok hi \<and>
            dram_read32 d a = Ok (ucast lo OR push_bit 16 (ucast hi))) \<and>
         (\<exists>lo hi. dram_read8 d a = Ok lo \<and> dram_read8 d (a + 1) = Ok hi \<and>
            dram_read16 d a = Ok (ucast lo OR push_bit 8 (ucast hi)))"
proof -
  have off: "unat (a + k) = unat a + unat k" if "unat k \<le> 8" for k
    using that assms by (intro unat_add_small) (simp add: dram_wf_def)
  note reads = dram_read_in [OF assms(1)] off [of 4] off [of 2] off [of 1]
  have "\<exists>lo hi. dram_read32 d a = Ok lo \<and> dram_read32 d (a + 4) = Ok hi \<and>
        dram_read64 d a = Ok (ucast lo OR push_bit 32 (ucast hi))"
    using assms(2) reads slice_append [of "dram_mem d" "unat a" 4 4]
    by (auto simp: le_word_append ucast_le_word)
  moreover have "\<exists>lo hi. dram_read16 d a = Ok lo \<and> dram_read16 d (a + 2) = Ok hi \<and>
        dram_read32 d a = Ok (ucast lo OR push_bit 16 (ucast hi))"
    using assms(2) reads slice_append [of "dram_mem d" "unat a" 2 2]
    by (auto simp: le_word_append ucast_le_word)
  moreover have "\<exists>lo hi. dram_read8 d a = Ok lo \<and> dram_read8 d (a + 1) = Ok hi \<and>
        dram_read16 d a = Ok (ucast lo OR push_bit 8 (ucast hi))"
    using assms(2) reads by (auto simp: slice_def)
  ultimately show ?thesis by blast
qed

theorem dram_load_halves_witness:
  "\<exists>lo hi. dram_read32 (dram_new le_byteorder 32) 8 = Ok lo \<and> dram_read32 (dram_new le_byteorder 32) (8 + 4) = Ok hi \<and>
     dram_read64 (dram_new le_byteorder 32) 8 = Ok (ucast lo OR push_bit 32 (ucast hi))"
proof -
  have wf: "dram_wf (dram_new le_byteorder 32)"
    by (rule dram_new_wf) (simp_all add: le_instance.little_endian_axioms)
  have in_mem: "unat (8 :: u64) + 8 \<le> dram_len (dram_new le_byteorder 32)"
    by (simp add: dram_new_def)
  show ?thesis using dram_load_halves [OF wf in_mem] by blast
qed

subsection \<open>The loader\<close>

lemma reader_read_chunk:
  assumes "bs \<noteq> []" and "[] \<notin> set bss" and "0 < n"
  shows "\<exists>bss'. reader_read n (map Chunk (bs # bss)) = (Some (take n bs), map Chunk bss') \<and>
    [] \<notin> set bss' \<and> concat (bs # bss) = take n bs @ concat bss'"
proof (cases "length bs \<le> n")
  case True
  with assms show ?thesis by (auto intro!: exI [of _ bss])
next
  case False
  with assms show ?thesis by (auto intro!: exI [of _ "drop n bs # bss"])
qed

lemma load_loop_chunks:
  assumes "[] \<notin> set bss" and "offset \<le> dram_len d"
  shows "load_loop offset (map Chunk bss) d =
    (Some (min (dram_len d) (offset + length (concat bss))),
     dram_put d offset (take (dram_len d - offset) (concat bss)))"
  using assms
proof (induction offset "map Chunk bss" d arbitrary: bss rule: load_loop.induct)
  case (1 offset d)
  show ?case
  proof (cases "offset < dram_len d \<and> bss \<noteq> []")
    case False
    then show ?thesis
      using "1.prems" by (auto simp: load_loop.simps [of offset _ d])
  next
    case True
    then obtain bs rest where bss: "bss = bs # rest" by (auto simp: neq_Nil_conv)
    obtain bss' where r: "reader_read (dram_len d - offset) (map Chunk bss) =
        (Some (take (dram_len d - offset) bs), map Chunk bss')"
      and ne: "[] \<notin> set bss'" and cat: "concat bss = take (dram_len d - offset) bs @ concat bss'"
      using reader_read_chunk [of bs rest "dram_len d - offset"] "1.prems" True by (auto simp: bss)
    define k where "k = take (dram_len d - offset) bs"
    have k: "length k \<noteq> 0" "offset + length k \<le> dram_len d" "k = take (dram_len d - offset) k"
      using True "1.prems" by (auto simp: k_def bss)
    have "load_loop offset (map Chunk bss) d = load_loop (offset + length k) (map Chunk bss') (dram_put d offset k)"
      using conjunct1 [OF True] k(1) by (subst load_loop.simps) (simp add: r k_def [symmetric])
    also have "\<dots> = (Some (min (dram_len d) (offset + length k + length (concat bss'))),
        dram_put (dram_put d offset k) (offset + length k) (take (dram_len d - (offset + length k)) (concat bss')))"
      using "1.hyps" [OF _ r [symmetric] refl _ ne] True k by (simp add: k_def)
    also have "dram_put (dram_put d offset k) (offset + length k) (take (dram_len d - (offset + length k)) (concat bss')) =
        dram_put d offset (take (dram_len d - offset) (concat bss))"
      using k by (simp add: dram_put_append cat k_def [symmetric])
    finally show ?thesis
      by (simp add: cat k_def [symmetric] add.assoc)
  qed
qed

text \<open>
  Property C38. Loading from a reader that delivers chunks and no error ends for any chunk
  sizes, fills memory with the first \<open>dram_len\<close> bytes of the stream, and succeeds exactly
  when the stream is at least that long; a shorter stream is reported with its length.
\<close>

theorem load_from_reader_fills:
  assumes "[] \<notin> set bss"
  shows "load_from_reader (map Chunk bss) d =
    (if dram_len d \<le> length (concat bss) then Ok () else Err (DramReaderShort (dram_len d) (length (concat bss))),
     dram_put d 0 (take (dram_len d) (concat bss)))"
  using load_loop_chunks [OF assms, of 0 d] by (auto simp: load_from_reader_def min_def)

theorem load_from_reader_fills_witness:
  "fst (load_from_reader (map Chunk [[1, 2], [3]]) (dram_new le_byteorder 4)) = Err (DramReaderShort 4 3)"
  using load_from_reader_fills [of "[[1, 2], [3]]" "dram_new le_byteorder 4"] by (simp add: dram_new_def)

end
