(* ===== verification/Mrom.thy ===== *)
theory Mrom
  imports Prelude Dram
begin

text \<open>
  \<open>src/src/mrom.rs\<close>: the boot ROM, a byte vector that is loaded once and only read by
  the guest. The lemmas give each read on both sides of its bounds check and what a load
  makes readable.
\<close>

record mrom =
  mrom_len :: nat
  mrom_mem :: "nat \<Rightarrow> u8"
  mrom_bo :: byteorder

definition mrom_new :: "byteorder \<Rightarrow> nat \<Rightarrow> mrom" where
  "mrom_new B sz = \<lparr>mrom_len = sz, mrom_mem = (\<lambda>_. 0), mrom_bo = B\<rparr>"

definition mrom_load :: "u64 \<Rightarrow> u8 list \<Rightarrow> (mrom, unit, mem_error) comp" where
  "mrom_load offset data m =
     (if unat offset + length data \<ge> 2 ^ 64 then (Panic, m)
      else if unat offset + length data > mrom_len m then (Err MromLoadRange, m)
      else (Ok (), m\<lparr>mrom_mem := blit (mrom_mem m) (unat offset) data\<rparr>))"

definition mrom_read32 :: "mrom \<Rightarrow> u64 \<Rightarrow> (u32, mem_error) result" where
  "mrom_read32 m addr =
     bindR (add_ck addr 4) (\<lambda>end_addr.
       if unat end_addr > mrom_len m then Err (MromReadRange 32)
       else Ok (bo_read_u32 (mrom_bo m) (slice (mrom_mem m) (unat addr) 4)))"

definition mrom_read64 :: "mrom \<Rightarrow> u64 \<Rightarrow> (u64, mem_error) result" where
  "mrom_read64 m addr =
     bindR (add_ck addr 8) (\<lambda>end_addr.
       if unat end_addr > mrom_len m then Err (MromReadRange 64)
       else Ok (bo_read_u64 (mrom_bo m) (slice (mrom_mem m) (unat addr) 8)))"

definition mrom_read16 :: "mrom \<Rightarrow> u64 \<Rightarrow> (u16, mem_error) result" where
  "mrom_read16 m addr =
     bindR (add_ck addr 2) (\<lambda>end_addr.
       if unat end_addr > mrom_len m then Err (MromReadRange 16)
       else Ok (bo_read_u16 (mrom_bo m) (slice (mrom_mem m) (unat addr) 2)))"

definition mrom_read8 :: "mrom \<Rightarrow> u64 \<Rightarrow> (u8, mem_error) result" where
  "mrom_read8 m addr =
     (if unat addr \<ge> mrom_len m then Err (MromReadRange 8) else Ok (mrom_mem m (unat addr)))"

definition mrom_size :: "mrom \<Rightarrow> nat" where
  "mrom_size m = mrom_len m"

definition mrom_wf :: "mrom \<Rightarrow> bool" where
  "mrom_wf m \<longleftrightarrow> mrom_len m < 2 ^ 63 \<and> little_endian (mrom_bo m)"

lemma mrom_new_wf: "sz < 2 ^ 63 \<Longrightarrow> little_endian B \<Longrightarrow> mrom_wf (mrom_new B sz)"
  by (simp add: mrom_wf_def mrom_new_def)

lemma mrom_load_wf: "mrom_wf (snd (mrom_load offset data m)) = mrom_wf m"
  by (simp add: mrom_load_def mrom_wf_def)

lemma mrom_read_in:
  assumes "mrom_wf m"
  shows "unat a + 8 \<le> mrom_len m \<Longrightarrow> mrom_read64 m a = Ok (le_word (slice (mrom_mem m) (unat a) 8))"
    and "unat a + 4 \<le> mrom_len m \<Longrightarrow> mrom_read32 m a = Ok (le_word (slice (mrom_mem m) (unat a) 4))"
    and "unat a + 2 \<le> mrom_len m \<Longrightarrow> mrom_read16 m a = Ok (le_word (slice (mrom_mem m) (unat a) 2))"
    and "unat a < mrom_len m \<Longrightarrow> mrom_read8 m a = Ok (mrom_mem m (unat a))"
  using assms
  by (auto simp: mrom_read64_def mrom_read32_def mrom_read16_def mrom_read8_def add_ck_small
      unat_add_small mrom_wf_def little_endian_def)

lemma mrom_read_out:
  "mrom_len m < unat a + 8 \<Longrightarrow> unat a + 8 < 2 ^ 64 \<Longrightarrow> mrom_read64 m a = Err (MromReadRange 64)"
  "mrom_len m < unat a + 4 \<Longrightarrow> unat a + 4 < 2 ^ 64 \<Longrightarrow> mrom_read32 m a = Err (MromReadRange 32)"
  "mrom_len m < unat a + 2 \<Longrightarrow> unat a + 2 < 2 ^ 64 \<Longrightarrow> mrom_read16 m a = Err (MromReadRange 16)"
  "mrom_len m \<le> unat a \<Longrightarrow> mrom_read8 m a = Err (MromReadRange 8)"
  by (auto simp: mrom_read64_def mrom_read32_def mrom_read16_def mrom_read8_def add_ck_small unat_add_small)

text \<open>The firmware image reads back at the place it was loaded to.\<close>

lemma mrom_load_read8:
  assumes "mrom_wf m" and "mrom_load offset data m = (Ok (), m')"
    and "unat offset \<le> unat a" and "unat a < unat offset + length data"
  shows "mrom_read8 m' a = Ok (data ! (unat a - unat offset))"
  using assms by (auto simp: mrom_load_def mrom_read8_def blit_def split: if_splits)

end
