(* ===== verification/Plic.thy ===== *)
theory Plic
  imports Prelude
begin

text \<open>
  \<open>src/src/plic.rs\<close>: the platform-level interrupt controller. The arrays are functions on
  their index, read and written below their length only. The two scans over the 1024
  sources are the nested loops of the code; the lemmas reduce them to a scan over the
  list of active sources, and show that the claim is the best source of that list.
\<close>

abbreviation MAX_IRQS :: nat where "MAX_IRQS \<equiv> 1024"
abbreviation MAX_CONTEXTS :: nat where "MAX_CONTEXTS \<equiv> 2"

record plic =
  plic_priority :: "nat \<Rightarrow> u32"
  plic_threshold :: "nat \<Rightarrow> u32"
  plic_claim_complete :: "nat \<Rightarrow> u32"
  plic_pending :: "nat \<Rightarrow> u32"
  plic_enable :: "nat \<Rightarrow> nat \<Rightarrow> u32"

definition plic_new :: plic where
  "plic_new = \<lparr>plic_priority = (\<lambda>_. 0), plic_threshold = (\<lambda>_. 0), plic_claim_complete = (\<lambda>_. 0),
     plic_pending = (\<lambda>_. 0), plic_enable = (\<lambda>_ _. 0)\<rparr>"

text \<open>The inner loop over the 32 bits of one word, left at the first source above the threshold.\<close>

fun has_pending_bits :: "plic \<Rightarrow> u32 \<Rightarrow> u32 \<Rightarrow> nat \<Rightarrow> nat list \<Rightarrow> bool" where
  "has_pending_bits p threshold active_bits idx [] = False"
| "has_pending_bits p threshold active_bits idx (b # bs) =
     (if active_bits AND push_bit b 1 \<noteq> 0 then
        (let irq = idx * 32 + b in
         if irq = 0 then has_pending_bits p threshold active_bits idx bs
         else if irq < MAX_IRQS \<and> plic_priority p irq > threshold then True
         else has_pending_bits p threshold active_bits idx bs)
      else has_pending_bits p threshold active_bits idx bs)"

fun has_pending_words :: "plic \<Rightarrow> nat \<Rightarrow> u32 \<Rightarrow> nat list \<Rightarrow> bool" where
  "has_pending_words p context_id threshold [] = False"
| "has_pending_words p context_id threshold (idx # is) =
     (let active_bits = plic_pending p idx AND plic_enable p context_id idx in
      if active_bits = 0 then has_pending_words p context_id threshold is
      else if has_pending_bits p threshold active_bits idx [0..<32] then True
      else has_pending_words p context_id threshold is)"

definition plic_has_pending_interrupt :: "plic \<Rightarrow> nat \<Rightarrow> bool" where
  "plic_has_pending_interrupt p context_id =
     (if context_id \<ge> MAX_CONTEXTS then False
      else has_pending_words p context_id (plic_threshold p context_id) [0..<32])"

text \<open>The scan of \<open>claim_interrupt\<close> carries \<open>(best_irq, best_priority)\<close>.\<close>

fun claim_bits :: "plic \<Rightarrow> u32 \<Rightarrow> u32 \<Rightarrow> nat \<Rightarrow> nat list \<Rightarrow> u32 \<times> u32 \<Rightarrow> u32 \<times> u32" where
  "claim_bits p threshold active_bits idx [] best = best"
| "claim_bits p threshold active_bits idx (b # bs) (best_irq, best_priority) =
     claim_bits p threshold active_bits idx bs
       (if active_bits AND push_bit b 1 \<noteq> 0 then
          (let irq = (of_nat (idx * 32 + b) :: u32) in
           if irq = 0 then (best_irq, best_priority)
           else if unat irq < MAX_IRQS then
             (let prio = plic_priority p (unat irq) in
              if prio > threshold \<and> prio > best_priority then (irq, prio) else (best_irq, best_priority))
           else (best_irq, best_priority))
        else (best_irq, best_priority))"

fun claim_words :: "plic \<Rightarrow> nat \<Rightarrow> u32 \<Rightarrow> nat list \<Rightarrow> u32 \<times> u32 \<Rightarrow> u32 \<times> u32" where
  "claim_words p context_id threshold [] best = best"
| "claim_words p context_id threshold (idx # is) best =
     (let active_bits = plic_pending p idx AND plic_enable p context_id idx in
      claim_words p context_id threshold is
        (if active_bits = 0 then best else claim_bits p threshold active_bits idx [0..<32] best))"

definition pending_and_not :: "nat \<Rightarrow> u32 \<Rightarrow> plic \<Rightarrow> plic" where
  "pending_and_not idx m p = p\<lparr>plic_pending := (plic_pending p)(idx := plic_pending p idx AND NOT m)\<rparr>"

definition plic_claim_interrupt :: "nat \<Rightarrow> plic \<Rightarrow> u32 \<times> plic" where
  "plic_claim_interrupt context_id p =
     (if context_id \<ge> MAX_CONTEXTS then (0, p)
      else
        (let best_irq = fst (claim_words p context_id (plic_threshold p context_id) [0..<32] (0, 0)) in
         (best_irq,
          if best_irq > 0 then pending_and_not (unat (best_irq div 32)) (push_bit (unat (best_irq mod 32)) 1) p
          else p)))"

text \<open>\<open>complete_interrupt\<close> has an empty body.\<close>

definition plic_complete_interrupt :: "nat \<Rightarrow> u32 \<Rightarrow> plic \<Rightarrow> plic" where
  "plic_complete_interrupt context_id irq p = p"

definition plic_set_pending :: "u32 \<Rightarrow> plic \<Rightarrow> plic" where
  "plic_set_pending irq p =
     (if irq > 0 \<and> irq \<le> 1023 then
        p\<lparr>plic_pending := (plic_pending p)(unat (irq div 32) :=
            plic_pending p (unat (irq div 32)) OR push_bit (unat (irq mod 32)) 1)\<rparr>
      else p)"

definition plic_clear_pending :: "u32 \<Rightarrow> plic \<Rightarrow> plic" where
  "plic_clear_pending irq p =
     (if irq > 0 \<and> irq \<le> 1023 then pending_and_not (unat (irq div 32)) (push_bit (unat (irq mod 32)) 1) p
      else p)"

text \<open>Register accesses; none returns an error.\<close>

definition plic_read32 :: "u64 \<Rightarrow> (plic, u32, mem_error) comp" where
  "plic_read32 offset p =
     (if in_range 0x000000 0x000FFF offset then
        (let irq = unat (offset div 4) in (Ok (if irq < MAX_IRQS then plic_priority p irq else 0), p))
      else if in_range 0x001000 0x00107F offset then
        (let idx = unat ((offset - 0x001000) div 4) in (Ok (if idx < 32 then plic_pending p idx else 0), p))
      else if in_range 0x002000 0x01FFFF offset then
        (let rel_offset = offset - 0x002000;
             context = unat (rel_offset div 0x80);
             idx = unat ((rel_offset mod 0x80) div 4) in
         (Ok (if context < MAX_CONTEXTS \<and> idx < 32 then plic_enable p context idx else 0), p))
      else if offset = 0x200000 then (Ok (plic_threshold p 0), p)
      else if offset = 0x200004 then (case plic_claim_interrupt 0 p of (irq, p') \<Rightarrow> (Ok irq, p'))
      else if offset = 0x201000 then (Ok (plic_threshold p 1), p)
      else if offset = 0x201004 then (case plic_claim_interrupt 1 p of (irq, p') \<Rightarrow> (Ok irq, p'))
      else (Ok 0, p))"

definition plic_write32 :: "u64 \<Rightarrow> u32 \<Rightarrow> (plic, unit, mem_error) comp" where
  "plic_write32 offset value p =
     (if in_range 0x000000 0x000FFF offset then
        (let irq = unat (offset div 4) in
         (Ok (), if irq < MAX_IRQS then p\<lparr>plic_priority := (plic_priority p)(irq := value AND 7)\<rparr> else p))
      else if in_range 0x001000 0x00107F offset then
        (let idx = unat ((offset - 0x001000) div 4) in
         (Ok (), if idx < 32 then pending_and_not idx value p else p))
      else if in_range 0x002000 0x01FFFF offset then
        (let rel_offset = offset - 0x002000;
             context = unat (rel_offset div 0x80);
             idx = unat ((rel_offset mod 0x80) div 4) in
         (Ok (), if context < MAX_CONTEXTS \<and> idx < 32
                 then p\<lparr>plic_enable := (plic_enable p)(context := (plic_enable p context)(idx := value))\<rparr>
                 else p))
      else if offset = 0x200000 then (Ok (), p\<lparr>plic_threshold := (plic_threshold p)(0 := value AND 7)\<rparr>)
      else if offset = 0x200004 then (Ok (), plic_complete_interrupt 0 value p)
      else if offset = 0x201000 then (Ok (), p\<lparr>plic_threshold := (plic_threshold p)(1 := value AND 7)\<rparr>)
      else if offset = 0x201004 then (Ok (), plic_complete_interrupt 1 value p)
      else (Ok (), p))"

subsection \<open>The specification of the scans\<close>

text \<open>
  Source \<open>irq\<close> is deliverable in a context when it is a real source, pending, enabled there
  and above the threshold.
\<close>

definition irq_pending :: "plic \<Rightarrow> nat \<Rightarrow> bool" where
  "irq_pending p irq \<longleftrightarrow> bit (plic_pending p (irq div 32)) (irq mod 32)"

definition deliverable :: "plic \<Rightarrow> nat \<Rightarrow> nat \<Rightarrow> bool" where
  "deliverable p c irq \<longleftrightarrow> 0 < irq \<and> irq < MAX_IRQS \<and> irq_pending p irq \<and>
     bit (plic_enable p c (irq div 32)) (irq mod 32) \<and> plic_threshold p c < plic_priority p irq"

definition irq_step :: "plic \<Rightarrow> nat \<Rightarrow> nat \<Rightarrow> nat \<times> u32 \<Rightarrow> nat \<times> u32" where
  "irq_step p c irq best =
     (if deliverable p c irq \<and> snd best < plic_priority p irq then (irq, plic_priority p irq) else best)"

lemma and_exp_eq_0: "x AND 2 ^ b = 0 \<longleftrightarrow> \<not> (b < 32 \<and> bit x b)" for x :: u32
  using and_exp_eq_0_iff [of x b] by simp

lemma claim_bits_fold:
  assumes "idx < 32" and "\<forall>b \<in> set bs. b < 32" and "fst best < 1024"
  shows "claim_bits p (plic_threshold p c) (plic_pending p idx AND plic_enable p c idx) idx bs (of_nat (fst best), snd best) =
    (case fold (irq_step p c) (map (\<lambda>b. idx * 32 + b) bs) best of (i, q) \<Rightarrow> (of_nat i, q)) \<and>
    fst (fold (irq_step p c) (map (\<lambda>b. idx * 32 + b) bs) best) < 1024"
  using assms(2,3)
proof (induction bs arbitrary: best)
  case Nil
  then show ?case by (simp add: case_prod_beta)
next
  case (Cons b bs)
  define n where "n = idx * 32 + b"
  have b: "b < 32" and n: "n < 1024" using Cons.prems assms(1) by (auto simp: n_def)
  then have un: "unat (of_nat n :: u32) = n" by (simp add: take_bit_eq_mod unat_of_nat)
  then have z: "(of_nat n :: u32) = 0 \<longleftrightarrow> n = 0" by (metis unat_0 unat_eq_zero)
  have dm: "n div 32 = idx" "n mod 32 = b" using b by (simp_all add: n_def)
  define best' where "best' = irq_step p c n best"
  have fst': "fst best' < 1024" using n Cons.prems by (auto simp: best'_def irq_step_def)
  have step: "claim_bits p (plic_threshold p c) (plic_pending p idx AND plic_enable p c idx) idx (b # bs) (of_nat (fst best), snd best)
    = claim_bits p (plic_threshold p c) (plic_pending p idx AND plic_enable p c idx) idx bs (of_nat (fst best'), snd best')"
    using b n unfolding claim_bits.simps(2) n_def [symmetric]
    by (simp add: best'_def irq_step_def deliverable_def irq_pending_def Let_def un z dm and_exp_eq_0 bit_simps)
  from Cons.IH [of best'] Cons.prems fst' show ?case
    unfolding step by (simp add: best'_def n_def)
qed

lemma concat_rows: "concat (map (\<lambda>idx. map (\<lambda>b. idx * 32 + b) [0..<32]) [0..<n]) = [0..<n * 32]"
proof (induction n)
  case (Suc n)
  have "map (\<lambda>b. n * 32 + b) [0..<32] = [n * 32..<n * 32 + 32]"
    by (rule nth_equalityI) (simp_all del: upt_rec_numeral)
  with Suc show ?case
    using upt_add_eq_append [of 0 "n * 32" 32] by (simp add: add.commute del: upt_rec_numeral)
qed simp

lemma irqs_split: "[0..<1024] = concat (map (\<lambda>idx. map (\<lambda>b. idx * 32 + b) [0..<32]) [0..<32])"
  using concat_rows [of 32] by (simp del: upt_rec_numeral)

lemma fold_inactive:
  assumes "plic_pending p idx AND plic_enable p c idx = 0"
  shows "fold (irq_step p c) (map (\<lambda>b. idx * 32 + b) [0..<32]) best = best"
proof -
  have "irq_step p c (idx * 32 + b) best = best" if "b < 32" for b best
  proof -
    have "\<not> bit (plic_pending p idx AND plic_enable p c idx) b" by (simp add: assms)
    with that show ?thesis by (auto simp: irq_step_def deliverable_def irq_pending_def bit_simps)
  qed
  then have "\<forall>b \<in> set bs. b < 32 \<Longrightarrow> fold (irq_step p c) (map (\<lambda>b. idx * 32 + b) bs) best = best" for bs
    by (induction bs) simp_all
  then show ?thesis by simp
qed

lemma claim_words_fold:
  assumes "\<forall>idx \<in> set is. idx < 32" and "fst best < 1024"
  shows "claim_words p c (plic_threshold p c) is (of_nat (fst best), snd best) =
    (case fold (irq_step p c) (concat (map (\<lambda>idx. map (\<lambda>b. idx * 32 + b) [0..<32]) is)) best of (i, q) \<Rightarrow> (of_nat i, q)) \<and>
    fst (fold (irq_step p c) (concat (map (\<lambda>idx. map (\<lambda>b. idx * 32 + b) [0..<32]) is)) best) < 1024"
  using assms
proof (induction "is" arbitrary: best)
  case Nil
  then show ?case by (simp add: case_prod_beta)
next
  case (Cons idx "is")
  let ?best = "fold (irq_step p c) (map (\<lambda>b. idx * 32 + b) [0..<32]) best"
  have idx: "idx < 32" using Cons.prems by simp
  have bits: "(if plic_pending p idx AND plic_enable p c idx = 0 then (of_nat (fst best), snd best)
      else claim_bits p (plic_threshold p c) (plic_pending p idx AND plic_enable p c idx) idx [0..<32] (of_nat (fst best), snd best))
    = (of_nat (fst ?best), snd ?best) \<and> fst ?best < 1024"
    using claim_bits_fold [OF idx _ Cons.prems(2), of "[0..<32]" p c] Cons.prems(2)
    by (auto simp: fold_inactive case_prod_beta)
  with Cons.IH [of ?best] Cons.prems(1) show ?case
    by (simp del: upt_rec_numeral upt.simps)
qed

lemma claim_scan:
  "claim_words p c (plic_threshold p c) [0..<32] (0, 0) =
    (case fold (irq_step p c) [0..<1024] (0, 0) of (i, q) \<Rightarrow> (of_nat i, q))"
  using claim_words_fold [of "[0..<32]" "(0, 0)" p c] unfolding irqs_split by simp

text \<open>The running best of a scan in increasing order: the first of the best.\<close>

lemma irq_fold_best:
  assumes "sorted_wrt (<) is"
  shows "(\<forall>j \<in> set is. deliverable p c j \<longrightarrow> plic_priority p j \<le> snd best) \<and> fold (irq_step p c) is best = best \<or>
    (\<exists>i \<in> set is. deliverable p c i \<and> snd best < plic_priority p i \<and>
       fold (irq_step p c) is best = (i, plic_priority p i) \<and>
       (\<forall>j \<in> set is. deliverable p c j \<longrightarrow> plic_priority p j < plic_priority p i \<or> plic_priority p j = plic_priority p i \<and> i \<le> j))"
  using assms
proof (induction "is" arbitrary: best)
  case Nil
  then show ?case by simp
next
  case (Cons k "is")
  have k: "\<forall>j \<in> set is. k < j" and srt: "sorted_wrt (<) is" using Cons.prems by auto
  show ?case
  proof (cases "deliverable p c k \<and> snd best < plic_priority p k")
    case True
    then have s: "irq_step p c k best = (k, plic_priority p k)" by (simp add: irq_step_def)
    show ?thesis using Cons.IH [OF srt, of "(k, plic_priority p k)"] True k
      by (fastforce simp: s le_less)
  next
    case False
    then have s: "irq_step p c k best = best" by (auto simp: irq_step_def)
    show ?thesis using Cons.IH [OF srt, of best] False by (fastforce simp: s not_less)
  qed
qed

lemma claim_result:
  assumes "c < MAX_CONTEXTS"
  shows "fst (plic_claim_interrupt c p) = 0 \<and> (\<forall>j. \<not> deliverable p c j) \<or>
    deliverable p c (unat (fst (plic_claim_interrupt c p))) \<and>
    (\<forall>j. deliverable p c j \<longrightarrow>
       plic_priority p j < plic_priority p (unat (fst (plic_claim_interrupt c p))) \<or>
       plic_priority p j = plic_priority p (unat (fst (plic_claim_interrupt c p))) \<and> unat (fst (plic_claim_interrupt c p)) \<le> j)"
proof -
  have r: "fst (plic_claim_interrupt c p) = of_nat (fst (fold (irq_step p c) [0..<1024] (0, 0)))"
    using assms by (simp add: plic_claim_interrupt_def Let_def claim_scan case_prod_beta del: upt_rec_numeral)
  have sorted: "sorted_wrt (<) [0..<1024]" by (rule sorted_wrt_upt)
  have dl: "deliverable p c j \<Longrightarrow> j < 1024 \<and> 0 < plic_priority p j" for j
    using le_less_trans [OF word_zero_le] by (auto simp: deliverable_def)
  have un: "i < 1024 \<Longrightarrow> unat (of_nat i :: u32) = i" for i
    by (simp add: take_bit_eq_mod unat_of_nat)
  from irq_fold_best [OF sorted, of p c "(0, 0)"] show ?thesis
  proof (elim disjE bexE conjE)
    assume "\<forall>j \<in> set [0..<1024]. deliverable p c j \<longrightarrow> plic_priority p j \<le> snd (0 :: nat, 0)"
      and "fold (irq_step p c) [0..<1024] (0, 0) = (0, 0)"
    moreover from this(1) have "\<not> deliverable p c j" for j using dl [of j] by force
    ultimately show ?thesis by (simp add: r del: upt_rec_numeral)
  next
    fix i assume "i \<in> set [0..<1024]" "deliverable p c i"
      "fold (irq_step p c) [0..<1024] (0, 0) = (i, plic_priority p i)"
      "\<forall>j \<in> set [0..<1024]. deliverable p c j \<longrightarrow> plic_priority p j < plic_priority p i \<or> plic_priority p j = plic_priority p i \<and> i \<le> j"
    then show ?thesis using dl by (auto simp: r un simp del: upt_rec_numeral)
  qed
qed

lemma has_pending_bits_iff:
  assumes "idx < 32" and "\<forall>b \<in> set bs. b < 32"
  shows "has_pending_bits p (plic_threshold p c) (plic_pending p idx AND plic_enable p c idx) idx bs \<longleftrightarrow>
    (\<exists>b \<in> set bs. deliverable p c (idx * 32 + b))"
  using assms(2)
  by (induction bs) (use assms(1) in \<open>auto simp: deliverable_def irq_pending_def Let_def and_exp_eq_0 bit_simps\<close>)

lemma has_pending_words_iff:
  assumes "\<forall>idx \<in> set is. idx < 32"
  shows "has_pending_words p c (plic_threshold p c) is \<longleftrightarrow> (\<exists>idx \<in> set is. \<exists>b < 32. deliverable p c (idx * 32 + b))"
  using assms
proof (induction "is")
  case Nil
  then show ?case by simp
next
  case (Cons idx "is")
  have "\<not> deliverable p c (idx * 32 + b)" if "plic_pending p idx AND plic_enable p c idx = 0" "b < 32" for b
    using that(2) arg_cong [OF that(1), of "\<lambda>w. bit w b"] by (auto simp: deliverable_def irq_pending_def bit_simps)
  with Cons has_pending_bits_iff [of idx "[0..<32]" p c] show ?case
    by (auto simp: Let_def simp del: upt_rec_numeral)
qed

lemma has_pending_iff: "c < MAX_CONTEXTS \<Longrightarrow> plic_has_pending_interrupt p c \<longleftrightarrow> (\<exists>j. deliverable p c j)"
proof -
  assume c: "c < MAX_CONTEXTS"
  have "(\<exists>idx < 32. \<exists>b < 32. deliverable p c (idx * 32 + b)) \<longleftrightarrow> (\<exists>j. deliverable p c j)"
  proof
    assume "\<exists>j. deliverable p c j"
    then obtain j where j: "deliverable p c j" by blast
    then have "j div 32 < 32" "j mod 32 < 32" "j = j div 32 * 32 + j mod 32"
      by (auto simp: deliverable_def less_mult_imp_div_less)
    with j show "\<exists>idx < 32. \<exists>b < 32. deliverable p c (idx * 32 + b)" by metis
  qed blast
  with c show ?thesis
    using has_pending_words_iff [of "[0..<32]" p c]
    by (simp add: plic_has_pending_interrupt_def Bex_def del: upt_rec_numeral)
qed


subsection \<open>Interrupt lines\<close>

text \<open>
  What a device or the bus uses the controller for: raising and lowering one line, without
  touching the others. The bus drives a level-triggered source by this contract.
\<close>

locale interrupt_lines =
  fixes raise_line :: "'i \<Rightarrow> 'p \<Rightarrow> 'p"
    and lower_line :: "'i \<Rightarrow> 'p \<Rightarrow> 'p"
    and line :: "'p \<Rightarrow> nat \<Rightarrow> bool"
    and num :: "'i \<Rightarrow> nat"
    and valid :: "'i \<Rightarrow> bool"
  assumes raise: "valid i \<Longrightarrow> line (raise_line i p) j \<longleftrightarrow> j = num i \<or> line p j"
    and lower: "valid i \<Longrightarrow> line (lower_line i p) j \<longleftrightarrow> j \<noteq> num i \<and> line p j"
begin

lemma level: "valid i \<Longrightarrow> line (if b then raise_line i p else lower_line i p) j \<longleftrightarrow> (if j = num i then b else line p j)"
  by (simp add: raise lower)

lemma other_lines: "valid i \<Longrightarrow> j \<noteq> num i \<Longrightarrow> line (raise_line i p) j = line p j \<and> line (lower_line i p) j = line p j"
  by (simp add: raise lower)

end

lemma unat_div_32: "unat (irq div 32) = unat irq div 32" "unat (irq mod 32) = unat irq mod 32" for irq :: u32
  by (simp_all add: unat_div unat_mod)

lemma irq_split_eq: "(i div 32 = j div 32 \<and> i mod 32 = j mod 32) \<longleftrightarrow> i = j" for i j :: nat
  by (metis div_mult_mod_eq)

lemma plic_set_pending_line:
  assumes "0 < irq \<and> irq \<le> 1023"
  shows "irq_pending (plic_set_pending irq p) j \<longleftrightarrow> j = unat irq \<or> irq_pending p j"
  using assms irq_split_eq [of j "unat irq"]
  by (auto simp: plic_set_pending_def irq_pending_def unat_div_32 bit_simps)

lemma pending_and_not_line:
  "irq_pending (pending_and_not (unat (irq div 32)) (push_bit (unat (irq mod 32)) 1) p) j \<longleftrightarrow>
     j \<noteq> unat irq \<and> irq_pending p j" for irq :: u32
  using irq_split_eq [of j "unat irq"]
  by (auto simp: pending_and_not_def irq_pending_def unat_div_32 bit_simps)

lemma plic_clear_pending_line:
  "0 < irq \<and> irq \<le> 1023 \<Longrightarrow> irq_pending (plic_clear_pending irq p) j \<longleftrightarrow> j \<noteq> unat irq \<and> irq_pending p j"
  unfolding plic_clear_pending_def by (simp only: if_P pending_and_not_line)

interpretation plic_lines: interrupt_lines plic_set_pending plic_clear_pending irq_pending unat "\<lambda>irq. 0 < irq \<and> irq \<le> 1023"
  by unfold_locales (simp_all only: plic_set_pending_line plic_clear_pending_line)

text \<open>An operation on a line changes the pending bits only.\<close>

lemma plic_line_frame [frame_simps]:
  "plic_priority (plic_set_pending irq p) = plic_priority p" "plic_priority (plic_clear_pending irq p) = plic_priority p"
  "plic_threshold (plic_set_pending irq p) = plic_threshold p" "plic_threshold (plic_clear_pending irq p) = plic_threshold p"
  "plic_enable (plic_set_pending irq p) = plic_enable p" "plic_enable (plic_clear_pending irq p) = plic_enable p"
  by (simp_all add: plic_set_pending_def plic_clear_pending_def pending_and_not_def)

lemma plic_claim_frame [frame_simps]:
  "plic_priority (snd (plic_claim_interrupt c p)) = plic_priority p"
  "plic_threshold (snd (plic_claim_interrupt c p)) = plic_threshold p"
  "plic_enable (snd (plic_claim_interrupt c p)) = plic_enable p"
  by (simp_all add: plic_claim_interrupt_def pending_and_not_def Let_def del: upt_rec_numeral)

lemma claim_clears:
  "irq_pending (snd (plic_claim_interrupt c p)) j \<longleftrightarrow>
     \<not> (fst (plic_claim_interrupt c p) \<noteq> 0 \<and> j = unat (fst (plic_claim_interrupt c p))) \<and> irq_pending p j"
  by (auto simp: plic_claim_interrupt_def Let_def pending_and_not_line word_gt_0 simp del: upt_rec_numeral push_bit_of_1)

subsection \<open>The register invariant\<close>

definition plic_wf :: "plic \<Rightarrow> bool" where
  "plic_wf p \<longleftrightarrow> (\<forall>irq. plic_priority p irq \<le> 7) \<and> (\<forall>c. plic_threshold p c \<le> 7)"

lemma and_7_le: "x AND 7 \<le> 7" for x :: u32
  by (rule word_le_and_mask)

lemma plic_new_wf: "plic_wf plic_new"
  by (simp add: plic_wf_def plic_new_def)

lemma plic_lines_wf [frame_simps]:
  "plic_wf (plic_set_pending irq p) = plic_wf p" "plic_wf (plic_clear_pending irq p) = plic_wf p"
  "plic_wf (snd (plic_claim_interrupt c p)) = plic_wf p"
  by (simp_all add: plic_wf_def frame_simps)

lemma plic_read32_wf [frame_simps]: "plic_wf (snd (plic_read32 offset p)) = plic_wf p"
  by (auto simp: plic_read32_def Let_def frame_simps split: prod.splits) (metis plic_lines_wf(3) snd_conv)+

lemma plic_write32_wf: "plic_wf p \<Longrightarrow> plic_wf (snd (plic_write32 offset v p))"
  by (auto simp: plic_write32_def plic_wf_def Let_def pending_and_not_def plic_complete_interrupt_def and_7_le)

text \<open>Register accesses never fail.\<close>

lemma plic_access_ok: "is_ok (fst (plic_read32 offset p))" "is_ok (fst (plic_write32 offset v p))"
  by (auto simp: plic_read32_def plic_write32_def Let_def split: prod.splits)

subsection \<open>Claims\<close>

definition plic_example :: plic where
  "plic_example = plic_set_pending 10 (plic_set_pending 8 (plic_new
     \<lparr>plic_priority := (\<lambda>_. 0)(8 := 1, 10 := 1), plic_enable := (\<lambda>_ _. 0)(1 := (\<lambda>_. 0)(0 := 0x500))\<rparr>))"

text \<open>
  Property C24. A claim returns 0 exactly when nothing is deliverable in the context;
  otherwise it returns a deliverable source such that every other deliverable source has a
  lower priority, or the same priority and a larger number, and it lowers that line and
  no other.
\<close>

theorem plic_claim_best:
  assumes "c < MAX_CONTEXTS"
  shows "\<exists>irq p'. plic_claim_interrupt c p = (irq, p') \<and>
    (if \<exists>j. deliverable p c j
     then deliverable p c (unat irq) \<and>
       (\<forall>j. deliverable p c j \<longrightarrow> plic_priority p j < plic_priority p (unat irq) \<or>
          plic_priority p j = plic_priority p (unat irq) \<and> unat irq \<le> j) \<and>
       (\<forall>j. irq_pending p' j \<longleftrightarrow> j \<noteq> unat irq \<and> irq_pending p j)
     else irq = 0 \<and> (\<forall>j. irq_pending p' j = irq_pending p j))"
proof (cases "plic_claim_interrupt c p")
  case (Pair irq p')
  then have f: "fst (plic_claim_interrupt c p) = irq" and s: "snd (plic_claim_interrupt c p) = p'" by simp_all
  have not0: "deliverable p c (unat irq) \<Longrightarrow> irq \<noteq> 0" by (auto simp: deliverable_def)
  show ?thesis
    using claim_result [OF assms, of p] claim_clears [of c p] not0 unfolding f s Pair by auto
qed

theorem plic_claim_best_witness:
  "fst (plic_claim_interrupt 1 plic_example) = 8 \<and>
   (\<exists>irq p'. plic_claim_interrupt 1 plic_example = (irq, p') \<and>
    (if \<exists>j. deliverable plic_example 1 j
     then deliverable plic_example 1 (unat irq) \<and>
       (\<forall>j. deliverable plic_example 1 j \<longrightarrow> plic_priority plic_example j < plic_priority plic_example (unat irq) \<or>
          plic_priority plic_example j = plic_priority plic_example (unat irq) \<and> unat irq \<le> j) \<and>
       (\<forall>j. irq_pending p' j \<longleftrightarrow> j \<noteq> unat irq \<and> irq_pending plic_example j)
     else irq = 0 \<and> (\<forall>j. irq_pending p' j = irq_pending plic_example j)))"
proof
  show "fst (plic_claim_interrupt 1 plic_example) = 8" by code_simp
qed (rule plic_claim_best, simp)

text \<open>
  The interrupt line of a context is high exactly when a claim in that context
  would return a source.
\<close>

theorem plic_pending_iff_claim:
  "plic_has_pending_interrupt p c \<longleftrightarrow> fst (plic_claim_interrupt c p) \<noteq> 0"
proof (cases "c < MAX_CONTEXTS")
  case True
  have "\<not> deliverable p c 0" by (simp add: deliverable_def)
  with True claim_result [OF True, of p] show ?thesis by (auto simp: has_pending_iff)
next
  case False
  then show ?thesis by (simp add: plic_has_pending_interrupt_def plic_claim_interrupt_def)
qed

end
