(* ===== verification/Uart.thy ===== *)
theory Uart
  imports Prelude
begin

text \<open>
  \<open>src/src/uart.rs\<close>: the 16550 serial port. The shared input queue is the list
  \<open>uart_input\<close>, filled by the main loop; \<open>uart_stdout\<close> is what the port has written to
  the host's standard output, \<open>uart_stdout_ok\<close> whether the host accepts it (the code
  unwraps the write). The lemmas describe the interrupt line and its acknowledgement, the
  receive queue, the transmitted bytes and the detection of a kernel panic.
\<close>

abbreviation UART_RHR :: u64 where "UART_RHR \<equiv> 0"
abbreviation UART_THR :: u64 where "UART_THR \<equiv> 0"
abbreviation UART_IER :: u64 where "UART_IER \<equiv> 1"
abbreviation UART_ISR :: u64 where "UART_ISR \<equiv> 2"
abbreviation UART_FCR :: u64 where "UART_FCR \<equiv> 2"
abbreviation UART_LCR :: u64 where "UART_LCR \<equiv> 3"
abbreviation UART_MCR :: u64 where "UART_MCR \<equiv> 4"
abbreviation UART_LSR :: u64 where "UART_LSR \<equiv> 5"
abbreviation UART_MSR :: u64 where "UART_MSR \<equiv> 6"
abbreviation UART_SCR :: u64 where "UART_SCR \<equiv> 7"

abbreviation LSR_DR :: u8 where "LSR_DR \<equiv> 0x01"
abbreviation LSR_IDLE :: u8 where "LSR_IDLE \<equiv> 0x60"

record uart =
  uart_ier :: u8
  uart_lcr :: u8
  uart_mcr :: u8
  uart_scr :: u8
  uart_input :: "u8 list"
  uart_output_buffer :: "u8 list"
  uart_panic_detected :: bool
  uart_panic_post_count :: u64
  uart_thr_ipending :: bool
  uart_thre_interrupt_count :: u64
  uart_thr_write_count :: u64
  uart_stdout :: "u8 list"
  uart_stdout_ok :: bool

definition uart_new :: uart where
  "uart_new =
     \<lparr>uart_ier = 0, uart_lcr = 0, uart_mcr = 0, uart_scr = 0, uart_input = [], uart_output_buffer = [],
      uart_panic_detected = False, uart_panic_post_count = 0, uart_thr_ipending = True,
      uart_thre_interrupt_count = 0, uart_thr_write_count = 0, uart_stdout = [], uart_stdout_ok = True\<rparr>"

definition uart_check_panic :: "uart \<Rightarrow> bool" where
  "uart_check_panic u = uart_panic_detected u"

definition uart_reset_panic :: "uart \<Rightarrow> uart" where
  "uart_reset_panic u = u\<lparr>uart_panic_detected := False, uart_panic_post_count := 0\<rparr>"

definition uart_inc_panic_post_count :: "(uart, unit, mem_error) comp" where
  "uart_inc_panic_post_count u =
     (if uart_panic_detected u then
        (case add_ck (uart_panic_post_count u) 1 of
           Ok n \<Rightarrow> (Ok (), u\<lparr>uart_panic_post_count := n\<rparr>)
         | Err e \<Rightarrow> (Err e, u)
         | Panic \<Rightarrow> (Panic, u))
      else (Ok (), u))"

definition uart_read8 :: "u64 \<Rightarrow> (uart, u8, mem_error) comp" where
  "uart_read8 offset u =
     (if offset = UART_RHR then
        (case uart_input u of
           ch # rest \<Rightarrow> (Ok ch, u\<lparr>uart_input := rest\<rparr>)
         | [] \<Rightarrow> (Ok 0, u))
      else if offset = UART_IER then (Ok (uart_ier u), u)
      else if offset = UART_ISR then
        (if uart_input u \<noteq> [] \<and> uart_ier u AND 0x01 \<noteq> 0 then (Ok 0x04, u)
         else if uart_thr_ipending u \<and> uart_ier u AND 0x02 \<noteq> 0 then
           (case add_ck (uart_thre_interrupt_count u) 1 of
              Ok n \<Rightarrow> (Ok 0x02, u\<lparr>uart_thr_ipending := False, uart_thre_interrupt_count := n\<rparr>)
            | Err e \<Rightarrow> (Err e, u)
            | Panic \<Rightarrow> (Panic, u\<lparr>uart_thr_ipending := False\<rparr>))
         else (Ok 0x01, u))
      else if offset = UART_LCR then (Ok (uart_lcr u), u)
      else if offset = UART_MCR then (Ok (uart_mcr u), u)
      else if offset = UART_LSR then
        (Ok (if uart_input u \<noteq> [] then LSR_IDLE OR LSR_DR else LSR_IDLE), u)
      else if offset = UART_MSR then (Ok 0x00, u)
      else if offset = UART_SCR then (Ok (uart_scr u), u)
      else (Ok 0, u))"

definition contains :: "u8 list \<Rightarrow> string \<Rightarrow> bool" where
  "contains s pat = list_ex (\<lambda>i. take (length pat) (drop i s) = map of_char pat) [0..<length s + 1]"

text \<open>The part of a THR write that watches the output for a kernel panic.\<close>

definition uart_watch :: "u8 \<Rightarrow> uart \<Rightarrow> uart" where
  "uart_watch value u =
     (if value < 128 \<and> value \<noteq> 0 then
        (let pushed = uart_output_buffer u @ [value];
             buffer = (if length pushed > 2048 then drop 1024 pushed else pushed) in
         u\<lparr>uart_output_buffer := buffer,
           uart_panic_detected := uart_panic_detected u \<or>
             contains buffer ''Kernel panic'' \<or> contains buffer ''kernel panic'' \<or> contains buffer ''not syncing''\<rparr>)
      else u)"

definition uart_write8 :: "u64 \<Rightarrow> u8 \<Rightarrow> (uart, unit, mem_error) comp" where
  "uart_write8 offset value u =
     (if offset = UART_THR then
        (if \<not> uart_stdout_ok u then (Panic, u)
         else
           (let u1 = u\<lparr>uart_stdout := uart_stdout u @ [value]\<rparr> in
            case add_ck (uart_thr_write_count u1) 1 of
              Ok n \<Rightarrow> (Ok (), (uart_watch value (u1\<lparr>uart_thr_write_count := n\<rparr>))\<lparr>uart_thr_ipending := True\<rparr>)
            | Err e \<Rightarrow> (Err e, u1)
            | Panic \<Rightarrow> (Panic, u1)))
      else if offset = UART_IER then
        (Ok (), if uart_ier u AND 0x02 = 0 \<and> value AND 0x02 \<noteq> 0
                then u\<lparr>uart_ier := value, uart_thr_ipending := True\<rparr>
                else u\<lparr>uart_ier := value\<rparr>)
      else if offset = UART_FCR then (Ok (), u)
      else if offset = UART_LCR then (Ok (), u\<lparr>uart_lcr := value\<rparr>)
      else if offset = UART_MCR then (Ok (), u\<lparr>uart_mcr := value\<rparr>)
      else if offset = UART_SCR then (Ok (), u\<lparr>uart_scr := value\<rparr>)
      else (Ok (), u))"

definition uart_has_pending_interrupt :: "uart \<Rightarrow> bool" where
  "uart_has_pending_interrupt u =
     (if uart_ier u AND 0x01 \<noteq> 0 \<and> uart_input u \<noteq> [] then True
      else if uart_ier u AND 0x02 \<noteq> 0 \<and> uart_thr_ipending u then True
      else False)"

text \<open>What happens to the port: register accesses of the guest, and bytes typed by the user.\<close>

datatype uart_op = URead u64 | UWrite u64 u8 | UInput u8

fun uart_step :: "uart_op \<Rightarrow> uart \<Rightarrow> uart" where
  "uart_step (URead offset) u = snd (uart_read8 offset u)"
| "uart_step (UWrite offset v) u = snd (uart_write8 offset v u)"
| "uart_step (UInput ch) u = u\<lparr>uart_input := uart_input u @ [ch]\<rparr>"

abbreviation uart_run :: "uart_op list \<Rightarrow> uart \<Rightarrow> uart" where
  "uart_run ops u \<equiv> fold uart_step ops u"

subsection \<open>Frames\<close>

lemma uart_watch_frame [simp]:
  "uart_ier (uart_watch v u) = uart_ier u" "uart_input (uart_watch v u) = uart_input u"
  "uart_stdout (uart_watch v u) = uart_stdout u" "uart_stdout_ok (uart_watch v u) = uart_stdout_ok u"
  "uart_thr_ipending (uart_watch v u) = uart_thr_ipending u"
  "uart_thr_write_count (uart_watch v u) = uart_thr_write_count u"
  by (simp_all add: uart_watch_def Let_def)

lemma uart_read8_frame [frame_simps]:
  "uart_stdout (snd (uart_read8 offset u)) = uart_stdout u"
  "uart_stdout_ok (snd (uart_read8 offset u)) = uart_stdout_ok u"
  "uart_ier (snd (uart_read8 offset u)) = uart_ier u"
  "uart_output_buffer (snd (uart_read8 offset u)) = uart_output_buffer u"
  "uart_panic_detected (snd (uart_read8 offset u)) = uart_panic_detected u"
  by (auto simp: uart_read8_def split: list.splits result.splits)

lemma uart_write8_frame [frame_simps]:
  "uart_input (snd (uart_write8 offset v u)) = uart_input u"
  "uart_stdout_ok (snd (uart_write8 offset v u)) = uart_stdout_ok u"
  by (auto simp: uart_write8_def Let_def split: result.splits)

lemma uart_write8_stdout:
  "uart_stdout (snd (uart_write8 offset v u)) =
     (if offset = UART_THR \<and> uart_stdout_ok u then uart_stdout u @ [v] else uart_stdout u)"
  by (auto simp: uart_write8_def Let_def split: result.splits)

lemma uart_read8_input:
  "uart_input (snd (uart_read8 offset u)) = (if offset = UART_RHR then tl (uart_input u) else uart_input u)"
  by (auto simp: uart_read8_def split: list.splits result.splits)

lemma uart_ok_panics: "fst (uart_read8 offset u) = Err e \<longleftrightarrow> False" "fst (uart_write8 offset v u) = Err e \<longleftrightarrow> False"
  by (auto simp: uart_read8_def uart_write8_def Let_def split: list.splits result.splits)

subsection \<open>The interrupt line\<close>

text \<open>
  Property C34. The interrupt line and the interrupt status register agree: the line is high
  exactly when reading the status register would report an interrupt, received data before
  an empty transmitter.
\<close>

theorem uart_line_iff_isr:
  "uart_has_pending_interrupt u \<longleftrightarrow> fst (uart_read8 UART_ISR u) \<noteq> Ok 1"
  by (auto simp: uart_has_pending_interrupt_def uart_read8_def split: result.splits)

lemma uart_quiet_step:
  assumes "\<not> uart_thr_ipending u" and "\<And>v. a \<noteq> UWrite UART_THR v" and "\<And>v. a \<noteq> UWrite UART_IER v"
  shows "\<not> uart_thr_ipending (uart_step a u)"
  using assms by (cases a) (auto simp: uart_read8_def uart_write8_def split: list.splits result.splits)

lemma uart_quiet_run:
  assumes "\<not> uart_thr_ipending u" and "\<forall>a \<in> set ops. \<forall>v. a \<noteq> UWrite UART_THR v \<and> a \<noteq> UWrite UART_IER v"
  shows "\<not> uart_thr_ipending (uart_run ops u)"
  using assms by (induction ops arbitrary: u) (auto simp: uart_quiet_step)

lemma uart_isr_ack: "fst (uart_read8 UART_ISR u) = Ok 2 \<Longrightarrow> \<not> uart_thr_ipending (snd (uart_read8 UART_ISR u))"
  by (auto simp: uart_read8_def split: if_splits result.splits)

text \<open>
  Property C33. An acknowledged transmitter interrupt stays acknowledged: once the status
  register has reported it, no register access and no input byte raises it again, until a
  byte is transmitted or the interrupt enable register is written.
\<close>

theorem uart_thre_acknowledged:
  assumes "fst (uart_read8 UART_ISR u) = Ok 2"
    and "\<forall>a \<in> set ops. \<forall>v. a \<noteq> UWrite UART_THR v \<and> a \<noteq> UWrite UART_IER v"
  shows "fst (uart_read8 UART_ISR (uart_run ops (snd (uart_read8 UART_ISR u)))) \<noteq> Ok 2"
  using uart_quiet_run [OF uart_isr_ack [OF assms(1)] assms(2)]
  by (auto simp: uart_read8_def [of _ "uart_run _ _"] split: result.splits)

theorem uart_thre_acknowledged_witness:
  "fst (uart_read8 UART_ISR (uart_run [UInput 65, URead UART_LSR, UWrite UART_LCR 3]
     (snd (uart_read8 UART_ISR (uart_new\<lparr>uart_ier := 2\<rparr>))))) \<noteq> Ok 2"
proof (rule uart_thre_acknowledged)
  show "fst (uart_read8 UART_ISR (uart_new\<lparr>uart_ier := 2\<rparr>)) = Ok 2"
    by (simp add: uart_read8_def uart_new_def add_ck_def)
qed simp

text \<open>
  Property C35. The transmitter never stalls: after every byte written to the transmit
  register, and after every enabling of the transmitter interrupt, the interrupt line is
  high as long as that interrupt is enabled.
\<close>

theorem uart_thre_rearmed:
  "(fst (uart_write8 UART_THR v u) = Ok () \<and> uart_ier u AND 2 \<noteq> 0 \<longrightarrow>
      uart_has_pending_interrupt (snd (uart_write8 UART_THR v u))) \<and>
   (uart_ier u AND 2 = 0 \<and> w AND 2 \<noteq> 0 \<longrightarrow> uart_has_pending_interrupt (snd (uart_write8 UART_IER w u)))"
  by (auto simp: uart_has_pending_interrupt_def uart_write8_def Let_def split: result.splits)

theorem uart_thre_rearmed_witness:
  "uart_has_pending_interrupt (snd (uart_write8 UART_THR 65 (uart_new\<lparr>uart_ier := 2\<rparr>))) \<and>
   uart_has_pending_interrupt (snd (uart_write8 UART_IER 3 uart_new))"
proof
  have "fst (uart_write8 UART_THR 65 (uart_new\<lparr>uart_ier := 2\<rparr>)) = Ok ()"
    and "uart_ier (uart_new\<lparr>uart_ier := 2\<rparr>) AND 2 \<noteq> 0"
    by (simp_all add: uart_write8_def uart_new_def add_ck_def)
  then show "uart_has_pending_interrupt (snd (uart_write8 UART_THR 65 (uart_new\<lparr>uart_ier := 2\<rparr>)))"
    using uart_thre_rearmed [of 65 "uart_new\<lparr>uart_ier := 2\<rparr>"] by blast
  have "uart_ier uart_new AND 2 = 0" and "(3 :: u8) AND 2 \<noteq> 0" by (simp_all add: uart_new_def)
  then show "uart_has_pending_interrupt (snd (uart_write8 UART_IER 3 uart_new))"
    using uart_thre_rearmed [of 65 uart_new 3] by blast
qed

subsection \<open>Data\<close>

text \<open>The bytes the guest takes out of the receive queue, and those it transmits.\<close>

fun uart_received :: "uart_op list \<Rightarrow> uart \<Rightarrow> u8 list" where
  "uart_received [] u = []"
| "uart_received (URead offset # ops) u =
     (if offset = UART_RHR then
        (case uart_read8 offset u of
           (Ok ch, u') \<Rightarrow> (if uart_input u = [] then [] else [ch]) @ uart_received ops u'
         | (r, u') \<Rightarrow> uart_received ops u')
      else uart_received ops (uart_step (URead offset) u))"
| "uart_received (a # ops) u = uart_received ops (uart_step a u)"

fun uart_typed :: "uart_op list \<Rightarrow> u8 list" where
  "uart_typed [] = []"
| "uart_typed (UInput ch # ops) = ch # uart_typed ops"
| "uart_typed (a # ops) = uart_typed ops"

fun uart_transmitted :: "uart_op list \<Rightarrow> u8 list" where
  "uart_transmitted [] = []"
| "uart_transmitted (UWrite offset v # ops) = (if offset = UART_THR then v # uart_transmitted ops else uart_transmitted ops)"
| "uart_transmitted (a # ops) = uart_transmitted ops"

text \<open>
  The serial port loses and reorders nothing: under any interleaving of guest
  accesses and typed bytes, what the guest has received followed by what is still queued is
  what was queued followed by what was typed, and the host's output is extended by exactly
  the transmitted bytes.
\<close>

theorem uart_data_in_order:
  assumes "uart_stdout_ok u"
  shows "uart_received ops u @ uart_input (uart_run ops u) = uart_input u @ uart_typed ops \<and>
    uart_stdout (uart_run ops u) = uart_stdout u @ uart_transmitted ops"
  using assms
proof (induction ops arbitrary: u)
  case Nil
  then show ?case by simp
next
  case (Cons a ops)
  show ?case
  proof (cases a)
    case (URead offset)
    show ?thesis
    proof (cases "offset = UART_RHR")
      case True
      show ?thesis
        using Cons.IH [of "snd (uart_read8 UART_RHR u)"] Cons.prems
        by (cases "uart_input u") (simp_all add: URead True frame_simps uart_read8_def)
    next
      case False
      then show ?thesis
        using Cons.IH [of "snd (uart_read8 offset u)"] Cons.prems
        by (simp add: URead frame_simps uart_read8_input)
    qed
  next
    case (UWrite offset v)
    then show ?thesis
      using Cons.IH [of "snd (uart_write8 offset v u)"] Cons.prems by (simp add: frame_simps uart_write8_stdout)
  next
    case (UInput ch)
    then show ?thesis
      using Cons.IH [of "u\<lparr>uart_input := uart_input u @ [ch]\<rparr>"] Cons.prems by simp
  qed
qed

theorem uart_data_in_order_witness:
  "uart_received [UInput 1, UInput 2, URead UART_RHR, UWrite UART_THR 9] uart_new @ [2] = [1, 2]"
  using uart_data_in_order [of uart_new "[UInput 1, UInput 2, URead UART_RHR, UWrite UART_THR 9]"]
  by (simp add: uart_new_def uart_read8_def)

subsection \<open>Panic detection\<close>

lemma contains_suffix: "contains (pre @ map of_char pat) pat"
  by (auto simp: contains_def list_ex_iff intro: bexI [of _ "length pre"])

definition uart_wf :: "uart \<Rightarrow> bool" where
  "uart_wf u \<longleftrightarrow> length (uart_output_buffer u) \<le> 2048"

lemma uart_new_wf: "uart_wf uart_new"
  by (simp add: uart_wf_def uart_new_def)

lemma uart_watch_wf: "uart_wf u \<Longrightarrow> uart_wf (uart_watch v u)"
  by (auto simp: uart_wf_def uart_watch_def Let_def)

lemma uart_step_wf: "uart_wf u \<Longrightarrow> uart_wf (uart_step a u)"
proof (cases a)
  case (UWrite offset v)
  assume "uart_wf u"
  then have "uart_wf (uart_watch v (u\<lparr>uart_stdout := s, uart_thr_write_count := n\<rparr>))" for s n
    by (intro uart_watch_wf) (simp add: uart_wf_def)
  with \<open>uart_wf u\<close> UWrite show ?thesis
    by (auto simp: uart_wf_def uart_write8_def Let_def split: result.splits)
qed (auto simp: uart_wf_def frame_simps)

lemma uart_watch_suffix:
  assumes "uart_wf u" and "uart_output_buffer u = pre @ bs" and "length bs \<le> 1024" and "0 < v" and "v < 128"
  shows "\<exists>pre'. uart_output_buffer (uart_watch v u) = pre' @ bs @ [v]"
proof (cases "length (uart_output_buffer u @ [v]) > 2048")
  case True
  then have "1024 \<le> length pre" using assms(2,3) by simp
  then show ?thesis using True assms by (auto simp: uart_watch_def Let_def intro: exI [of _ "drop 1024 pre"])
next
  case False
  then show ?thesis using assms by (auto simp: uart_watch_def Let_def)
qed

lemma uart_write_thr:
  assumes "uart_stdout_ok u" and "unat (uart_thr_write_count u) + 1 < 2 ^ 64"
  shows "snd (uart_write8 UART_THR v u) =
    (uart_watch v (u\<lparr>uart_stdout := uart_stdout u @ [v], uart_thr_write_count := uart_thr_write_count u + 1\<rparr>))
      \<lparr>uart_thr_ipending := True\<rparr>"
  using assms by (simp add: uart_write8_def Let_def add_ck_def)

lemma uart_print_suffix:
  assumes "uart_wf u" and "uart_stdout_ok u" and "unat (uart_thr_write_count u) + length bs < 2 ^ 64"
    and "length bs \<le> 1024" and "\<forall>v \<in> set bs. 0 < v \<and> v < 128"
  shows "\<exists>pre. uart_output_buffer (uart_run (map (UWrite UART_THR) bs) u) = pre @ bs \<and>
    uart_stdout_ok (uart_run (map (UWrite UART_THR) bs) u) \<and> uart_wf (uart_run (map (UWrite UART_THR) bs) u) \<and>
    unat (uart_thr_write_count (uart_run (map (UWrite UART_THR) bs) u)) = unat (uart_thr_write_count u) + length bs"
  using assms(3-5)
proof (induction bs rule: rev_induct)
  case Nil
  then show ?case using assms(1,2) by simp
next
  case (snoc v bs)
  let ?u = "uart_run (map (UWrite UART_THR) bs) u"
  from snoc obtain pre where pre: "uart_output_buffer ?u = pre @ bs" and ok: "uart_stdout_ok ?u" and wf: "uart_wf ?u"
    and cnt: "unat (uart_thr_write_count ?u) = unat (uart_thr_write_count u) + length bs" by auto
  let ?w = "?u\<lparr>uart_stdout := uart_stdout ?u @ [v], uart_thr_write_count := uart_thr_write_count ?u + 1\<rparr>"
  have last: "uart_run (map (UWrite UART_THR) (bs @ [v])) u = (uart_watch v ?w)\<lparr>uart_thr_ipending := True\<rparr>"
    using uart_write_thr [OF ok, of v] snoc.prems(1) cnt by simp
  have w: "uart_wf ?w" and wb: "uart_output_buffer ?w = pre @ bs" using wf pre by (simp_all add: uart_wf_def)
  obtain pre' where "uart_output_buffer (uart_watch v ?w) = pre' @ bs @ [v]"
    using uart_watch_suffix [OF w wb, of v] snoc.prems by auto
  moreover have "unat (uart_thr_write_count ?u + 1) = unat (uart_thr_write_count u) + length (bs @ [v])"
    using snoc.prems(1) cnt by (simp add: unat_word_ariths)
  ultimately show ?case
    unfolding last using ok uart_watch_wf [OF w, of v] by (auto simp: uart_wf_def)
qed

lemma uart_watch_detects:
  "0 < v \<Longrightarrow> v < 128 \<Longrightarrow> pat \<in> {''Kernel panic'', ''kernel panic'', ''not syncing''} \<Longrightarrow>
   contains (uart_output_buffer (uart_watch v u)) pat \<Longrightarrow> uart_panic_detected (uart_watch v u)"
  by (auto simp: uart_watch_def Let_def)

text \<open>
  A kernel panic does not go unnoticed: whatever the port has printed before,
  printing one of the three messages byte by byte sets the panic flag, also when the watch
  buffer is cut in the middle of the message.
\<close>

theorem uart_panic_noticed:
  assumes "uart_wf u" and "uart_stdout_ok u" and "unat (uart_thr_write_count u) + 12 < 2 ^ 64"
    and "pat \<in> {''Kernel panic'', ''kernel panic'', ''not syncing''}"
  shows "uart_panic_detected (uart_run (map (UWrite UART_THR \<circ> of_char) pat) u)"
proof -
  define bs :: "u8 list" where "bs = map of_char (butlast pat)"
  define v :: u8 where "v = of_char (last pat)"
  have pat: "map of_char pat = bs @ [v]" and ascii: "\<forall>c \<in> set (bs @ [v]). 0 < c \<and> c < 128"
    and len: "length (bs @ [v]) \<le> 12"
    using assms(4) by (auto simp: bs_def v_def)
  let ?u = "uart_run (map (UWrite UART_THR) bs) u"
  obtain pre where pre: "uart_output_buffer ?u = pre @ bs" and ok: "uart_stdout_ok ?u" and wf: "uart_wf ?u"
    and cnt: "unat (uart_thr_write_count ?u) = unat (uart_thr_write_count u) + length bs"
    using uart_print_suffix [OF assms(1,2), of bs] assms(3) len ascii by auto
  let ?w = "?u\<lparr>uart_stdout := uart_stdout ?u @ [v], uart_thr_write_count := uart_thr_write_count ?u + 1\<rparr>"
  have w: "uart_wf ?w" and wb: "uart_output_buffer ?w = pre @ bs" using wf pre by (simp_all add: uart_wf_def)
  obtain pre' where b: "uart_output_buffer (uart_watch v ?w) = pre' @ bs @ [v]"
    using uart_watch_suffix [OF w wb, of v] len ascii by auto
  have "uart_panic_detected (uart_watch v ?w)"
    using uart_watch_detects [OF _ _ assms(4)] ascii b contains_suffix [of pre' pat] by (simp add: pat)
  moreover have "uart_run (map (UWrite UART_THR \<circ> of_char) pat) u = (uart_watch v ?w)\<lparr>uart_thr_ipending := True\<rparr>"
    using uart_write_thr [OF ok, of v] assms(3) len cnt by (simp add: pat flip: map_map)
  ultimately show ?thesis by simp
qed

theorem uart_panic_noticed_witness:
  "uart_panic_detected (uart_run (map (UWrite UART_THR \<circ> of_char) ''not syncing'') uart_new)"
  by (rule uart_panic_noticed) (simp_all add: uart_wf_def uart_new_def)

end
