(* ===== verification/Flash.thy ===== *)
theory Flash
  imports Prelude
begin

text \<open>
  \<open>src/src/flash.rs\<close>: the parallel flash, a small state machine over a byte array that the
  guest can query but never program. \<open>read\<close> takes \<open>&mut self\<close> and writes nothing, so it is
  a function of the device here. Log output is not modelled.
\<close>

datatype flash_state = ReadArray | CfiQuery | ReadId

record flash =
  flash_data :: "nat \<Rightarrow> u8"
  flash_st :: flash_state
  flash_size :: nat
  flash_sector_size :: nat

definition flash_new :: "nat \<Rightarrow> flash" where
  "flash_new sz = \<lparr>flash_data = (\<lambda>_. 0xFF), flash_st = ReadArray, flash_size = sz, flash_sector_size = 256 * 1024\<rparr>"

definition flash_load :: "u64 \<Rightarrow> u8 list \<Rightarrow> (flash, unit, mem_error) comp" where
  "flash_load offset data f =
     (if unat offset + length data \<ge> 2 ^ 64 then (Panic, f)
      else if unat offset + length data > flash_size f
      then (Err (FlashLoadRange (unat offset) (length data) (flash_size f)), f)
      else (Ok (), f\<lparr>flash_data := blit (flash_data f) (unat offset) data\<rparr>))"

text \<open>
  Reading the array: the loop ors the bytes together, lowest address first. From the ninth
  byte on the shift is by 64 bits or more, which overflows.
\<close>

definition flash_read_data :: "flash \<Rightarrow> nat \<Rightarrow> u8 \<Rightarrow> (u64, mem_error) result" where
  "flash_read_data f addr sz =
     (if addr + unat sz \<ge> 2 ^ 64 then Panic
      else if addr + unat sz > flash_size f then Err FlashReadRange
      else if unat sz > 8 then Panic
      else Ok (fold (\<lambda>i acc. acc OR push_bit (i * 8) (ucast (flash_data f (addr + i)))) [0..<unat sz] 0))"

definition get_cfi_byte :: "nat \<Rightarrow> u8" where
  "get_cfi_byte logical_addr =
     (if logical_addr = 0x10 then of_char CHR ''Q''
      else if logical_addr = 0x11 then of_char CHR ''R''
      else if logical_addr = 0x12 then of_char CHR ''Y''
      else if logical_addr = 0x13 then 0x01
      else if logical_addr = 0x1B then 0x27
      else if logical_addr = 0x1C then 0x36
      else if logical_addr = 0x1F then 0x09
      else if logical_addr = 0x21 then 0x0A
      else if logical_addr = 0x23 then 0x04
      else if logical_addr = 0x25 then 0x04
      else if logical_addr = 0x27 then 0x19
      else if logical_addr = 0x28 then 0x02
      else if logical_addr = 0x2C then 0x01
      else if logical_addr = 0x2D then 0x7F
      else if logical_addr = 0x30 then 0x04
      else 0x00)"

text \<open>On the 32-bit wide bank every table byte appears in all four lanes of a word read.\<close>

definition lanes :: "u64 \<Rightarrow> u8 \<Rightarrow> u64" where
  "lanes v sz = (if sz = 4 then v OR push_bit 8 v OR push_bit 16 v OR push_bit 24 v else v)"

definition read_cfi_query :: "flash \<Rightarrow> nat \<Rightarrow> u8 \<Rightarrow> (u64, mem_error) result" where
  "read_cfi_query f addr sz =
     (let logical_addr = addr div 4 in Ok (lanes (ucast (get_cfi_byte logical_addr)) sz))"

definition get_id_byte :: "nat \<Rightarrow> u8" where
  "get_id_byte logical_addr =
     (if logical_addr = 0 then 0x89
      else if logical_addr = 1 then 0x18
      else if logical_addr = 2 then 0x00
      else 0xFF)"

definition read_id :: "flash \<Rightarrow> nat \<Rightarrow> u8 \<Rightarrow> (u64, mem_error) result" where
  "read_id f addr sz =
     (let logical_addr = addr div 4 in Ok (lanes (ucast (get_id_byte logical_addr)) sz))"

definition flash_read :: "flash \<Rightarrow> u64 \<Rightarrow> u8 \<Rightarrow> (u64, mem_error) result" where
  "flash_read f offset sz =
     (let addr = unat offset in
      case flash_st f of
        ReadArray \<Rightarrow> (if addr \<ge> flash_size f then Ok (- 1) else flash_read_data f addr sz)
      | CfiQuery \<Rightarrow> read_cfi_query f addr sz
      | ReadId \<Rightarrow> read_id f addr sz)"

definition flash_write :: "u64 \<Rightarrow> u64 \<Rightarrow> u8 \<Rightarrow> (flash, unit, mem_error) comp" where
  "flash_write offset value sz f =
     (let cmd = (ucast value :: u8) in
      if cmd = 0xFF \<or> cmd = 0xF0 then (Ok (), f\<lparr>flash_st := ReadArray\<rparr>)
      else if cmd = 0x98 then (Ok (), f\<lparr>flash_st := CfiQuery\<rparr>)
      else if cmd = 0x90 then (Ok (), f\<lparr>flash_st := ReadId\<rparr>)
      else (Ok (), f))"

definition flash_read64 :: "flash \<Rightarrow> u64 \<Rightarrow> (u64, mem_error) result" where
  "flash_read64 f offset = flash_read f offset 8"

definition flash_read32 :: "flash \<Rightarrow> u64 \<Rightarrow> (u32, mem_error) result" where
  "flash_read32 f offset = mapR ucast (flash_read f offset 4)"

definition flash_read16 :: "flash \<Rightarrow> u64 \<Rightarrow> (u16, mem_error) result" where
  "flash_read16 f offset = mapR ucast (flash_read f offset 2)"

definition flash_read8 :: "flash \<Rightarrow> u64 \<Rightarrow> (u8, mem_error) result" where
  "flash_read8 f offset = mapR ucast (flash_read f offset 1)"

definition flash_write64 :: "u64 \<Rightarrow> u64 \<Rightarrow> (flash, unit, mem_error) comp" where
  "flash_write64 offset value = flash_write offset value 8"

definition flash_write32 :: "u64 \<Rightarrow> u32 \<Rightarrow> (flash, unit, mem_error) comp" where
  "flash_write32 offset value = flash_write offset (ucast value) 4"

definition flash_write16 :: "u64 \<Rightarrow> u16 \<Rightarrow> (flash, unit, mem_error) comp" where
  "flash_write16 offset value = flash_write offset (ucast value) 2"

definition flash_write8 :: "u64 \<Rightarrow> u8 \<Rightarrow> (flash, unit, mem_error) comp" where
  "flash_write8 offset value = flash_write offset (ucast value) 1"

subsection \<open>The array\<close>

definition flash_wf :: "flash \<Rightarrow> bool" where
  "flash_wf f \<longleftrightarrow> flash_size f < 2 ^ 63"

lemma flash_write_frame [frame_simps]:
  "flash_data (snd (flash_write offset v sz f)) = flash_data f"
  "flash_size (snd (flash_write offset v sz f)) = flash_size f"
  "flash_wf (snd (flash_write offset v sz f)) = flash_wf f"
  by (simp_all add: flash_write_def flash_wf_def Let_def)

lemma flash_writes_frame [frame_simps]:
  "flash_data (fold (\<lambda>(a, v, n) f. snd (flash_write a v n f)) ws f) = flash_data f"
  "flash_size (fold (\<lambda>(a, v, n) f. snd (flash_write a v n f)) ws f) = flash_size f"
  by (induction ws arbitrary: f) (auto simp: frame_simps)

lemma flash_write_ok: "fst (flash_write offset v sz f) = Ok ()"
  by (simp add: flash_write_def Let_def)

lemma or_bytes_le_word:
  "fold (\<lambda>i acc. acc OR push_bit (i * 8) (ucast (m (a + i)) :: u64)) [0..<n] 0 = le_word (slice m a n)"
proof (rule bit_word_eqI)
  fix k
  assume k: "k < LENGTH(64)"
  have "bit (fold (\<lambda>i acc. acc OR push_bit (i * 8) (ucast (m (a + i)) :: u64)) is acc) k \<longleftrightarrow>
    bit acc k \<or> (\<exists>i \<in> set is. i = k div 8 \<and> bit (m (a + i)) (k mod 8))" for "is" acc
  proof (induction "is" arbitrary: acc)
    case Nil
    then show ?case by simp
  next
    case (Cons i "is")
    have "bit (push_bit (i * 8) (ucast (m (a + i)) :: u64)) k \<longleftrightarrow> i = k div 8 \<and> bit (m (a + i)) (k mod 8)"
    proof (cases "i * 8 \<le> k \<and> k - i * 8 < 8")
      case True
      then have "k div 8 = i" "k mod 8 = k - i * 8"
        by (auto simp: div_nat_eqI mult.commute modulo_nat_def)
      with True k show ?thesis by (simp add: bit_simps)
    next
      case False
      then have "i \<noteq> k div 8" by (auto simp: not_less minus_mult_div_eq_mod [symmetric] mult.commute)
      moreover have "\<not> bit (push_bit (i * 8) (ucast (m (a + i)) :: u64)) k"
        using False by (auto simp: bit_simps dest: bit_imp_le_length)
      ultimately show ?thesis by simp
    qed
    with Cons show ?case by (auto simp: bit_simps)
  qed
  with k show "bit (fold (\<lambda>i acc. acc OR push_bit (i * 8) (ucast (m (a + i)) :: u64)) [0..<n] 0) k \<longleftrightarrow>
      bit (le_word (slice m a n) :: u64) k"
    by (auto simp: bit_le_word)
qed

lemma flash_read_array:
  assumes "flash_wf f" and "flash_st f = ReadArray" and "0 < unat sz" and "unat sz \<le> 8" and "unat a + unat sz \<le> flash_size f"
  shows "flash_read f a sz = Ok (le_word (slice (flash_data f) (unat a) (unat sz)))"
  using assms by (auto simp: flash_read_def flash_read_data_def flash_wf_def or_bytes_le_word)

text \<open>
  Property C37. The flash is read-only: after any sequence of writes of any width to any
  address followed by a reset command, a read of up to eight bytes inside the device
  returns the bytes it held before, little-endian.
\<close>

theorem flash_contents_survive:
  assumes "flash_wf f" and "0 < unat sz" and "unat sz \<le> 8" and "unat a + unat sz \<le> flash_size f"
    and "(ucast cmd :: u8) = 0xFF \<or> (ucast cmd :: u8) = 0xF0"
  shows "flash_read (snd (flash_write b cmd n (fold (\<lambda>(a, v, n) f. snd (flash_write a v n f)) ws f))) a sz =
    Ok (le_word (slice (flash_data f) (unat a) (unat sz)))"
proof -
  let ?f = "snd (flash_write b cmd n (fold (\<lambda>(a, v, n) f. snd (flash_write a v n f)) ws f))"
  have "flash_st ?f = ReadArray" using assms(5) by (auto simp: flash_write_def Let_def)
  moreover have "flash_data ?f = flash_data f" "flash_size ?f = flash_size f"
    by (simp_all only: frame_simps)
  ultimately show ?thesis
    using assms flash_read_array [of ?f sz a] by (simp add: flash_wf_def)
qed

theorem flash_contents_survive_witness:
  "flash_read (snd (flash_write 0 0xFF 1 (fold (\<lambda>(a, v, n) f. snd (flash_write a v n f))
     [(0x154, 0x98, 1), (0, 0x40, 4), (0, 0x12345678, 4)] (flash_new 1024)))) 8 4 =
   Ok (le_word (slice (flash_data (flash_new 1024)) (unat (8 :: u64)) (unat (4 :: u8))))"
  by (rule flash_contents_survive) (simp_all add: flash_wf_def flash_new_def)

subsection \<open>Identification\<close>

lemma flash_command_state:
  "flash_st (snd (flash_write offset v sz f)) =
     (let cmd = (ucast v :: u8) in
      if cmd = 0xFF \<or> cmd = 0xF0 then ReadArray else if cmd = 0x98 then CfiQuery
      else if cmd = 0x90 then ReadId else flash_st f)"
  by (simp add: flash_write_def Let_def)

text \<open>
  Probing finds the device: after a query command at any address, the word
  reads at the scaled addresses of the query table return Q, R, Y in every byte lane and
  the size byte \<open>0x19\<close> (32 MiB), at every width in the low byte; after a read-id command
  they return the manufacturer \<open>0x89\<close> and the device \<open>0x18\<close>.
\<close>

theorem flash_probe:
  "map (flash_read32 (snd (flash_write a 0x98 n f))) [0x40, 0x44, 0x48] =
     [Ok 0x51515151, Ok 0x52525252, Ok 0x59595959] \<and>
   map (flash_read8 (snd (flash_write a 0x98 n f))) [0x40, 0x44, 0x48, 0x9C] = [Ok 0x51, Ok 0x52, Ok 0x59, Ok 0x19] \<and>
   map (flash_read8 (snd (flash_write a 0x90 n f))) [0, 4] = [Ok 0x89, Ok 0x18]"
  by (simp add: flash_read32_def flash_read8_def flash_read_def flash_write_def read_cfi_query_def read_id_def
      get_cfi_byte_def get_id_byte_def lanes_def)

end
