(* ===== verification/Virtq.thy ===== *)
theory Virtq
  imports Prelude Dram Plic
begin

text \<open>
  What the two virtio devices share: the guest memory accessors and the descriptor reader
  (\<open>src/src/virtio.rs\<close> and \<open>src/src/virtio_rng.rs\<close> each have a copy), and the contract of
  a legacy MMIO transport as a locale that both devices interpret. Guest addresses are
  physical, the accessors subtract the base of main memory, and a guest address below the
  base panics as the checked subtraction of the code does.
\<close>

subsection \<open>Guest memory\<close>

definition gm_read_u8 :: "dram \<Rightarrow> u64 \<Rightarrow> u64 \<Rightarrow> (u8, mem_error) result" where
  "gm_read_u8 d addr base = bindR (sub_ck addr base) (dram_read8 d)"

definition gm_write_u8 :: "u64 \<Rightarrow> u8 \<Rightarrow> u64 \<Rightarrow> (dram, unit, mem_error) comp" where
  "gm_write_u8 addr value base = bindS (liftR (sub_ck addr base)) (\<lambda>a. dram_write8 a value)"

definition gm_read_u16 :: "dram \<Rightarrow> u64 \<Rightarrow> u64 \<Rightarrow> (u16, mem_error) result" where
  "gm_read_u16 d addr base = bindR (sub_ck addr base) (dram_read16 d)"

definition gm_write_u16 :: "u64 \<Rightarrow> u16 \<Rightarrow> u64 \<Rightarrow> (dram, unit, mem_error) comp" where
  "gm_write_u16 addr value base = bindS (liftR (sub_ck addr base)) (\<lambda>a. dram_write16 a value)"

definition gm_read_u32 :: "dram \<Rightarrow> u64 \<Rightarrow> u64 \<Rightarrow> (u32, mem_error) result" where
  "gm_read_u32 d addr base = bindR (sub_ck addr base) (dram_read32 d)"

definition gm_write_u32 :: "u64 \<Rightarrow> u32 \<Rightarrow> u64 \<Rightarrow> (dram, unit, mem_error) comp" where
  "gm_write_u32 addr value base = bindS (liftR (sub_ck addr base)) (\<lambda>a. dram_write32 a value)"

definition gm_read_u64 :: "dram \<Rightarrow> u64 \<Rightarrow> u64 \<Rightarrow> (u64, mem_error) result" where
  "gm_read_u64 d addr base = bindR (sub_ck addr base) (dram_read64 d)"

text \<open>The byte loops: \<open>for j\<close> write or read the byte at \<open>addr + j\<close>.\<close>

fun gm_write_bytes :: "u64 \<Rightarrow> nat \<Rightarrow> u8 list \<Rightarrow> u64 \<Rightarrow> (dram, unit, mem_error) comp" where
  "gm_write_bytes addr j [] base d = (Ok (), d)"
| "gm_write_bytes addr j (b # bs) base d =
     bindS (liftR (add_ck addr (of_nat j))) (\<lambda>a.
     bindS (gm_write_u8 a b base) (\<lambda>_.
     gm_write_bytes addr (Suc j) bs base)) d"

fun gm_read_bytes :: "dram \<Rightarrow> u64 \<Rightarrow> nat list \<Rightarrow> u64 \<Rightarrow> (u8 list, mem_error) result" where
  "gm_read_bytes d addr [] base = Ok []"
| "gm_read_bytes d addr (j # js) base =
     bindR (add_ck addr (of_nat j)) (\<lambda>a.
     bindR (gm_read_u8 d a base) (\<lambda>byte.
     mapR (\<lambda>bytes. byte # bytes) (gm_read_bytes d addr js base)))"

subsection \<open>Descriptors\<close>

record virtq_desc =
  desc_addr :: u64
  desc_len :: u32
  desc_flags :: u16
  desc_next :: u16

abbreviation VIRTQ_DESC_F_NEXT :: u16 where "VIRTQ_DESC_F_NEXT \<equiv> 1"
abbreviation VIRTQ_DESC_F_WRITE :: u16 where "VIRTQ_DESC_F_WRITE \<equiv> 2"
abbreviation VRING_AVAIL_F_NO_INTERRUPT :: u16 where "VRING_AVAIL_F_NO_INTERRUPT \<equiv> 1"

definition read_descriptor :: "dram \<Rightarrow> u64 \<Rightarrow> u64 \<Rightarrow> (virtq_desc, mem_error) result" where
  "read_descriptor d addr base =
     bindR (gm_read_u64 d addr base) (\<lambda>addr_val.
     bindR (bindR (add_ck addr 8) (\<lambda>a. gm_read_u32 d a base)) (\<lambda>len.
     bindR (bindR (add_ck addr 12) (\<lambda>a. gm_read_u16 d a base)) (\<lambda>flags.
     bindR (bindR (add_ck addr 14) (\<lambda>a. gm_read_u16 d a base)) (\<lambda>next.
     Ok \<lparr>desc_addr = addr_val, desc_len = len, desc_flags = flags, desc_next = next\<rparr>))))"

subsection \<open>The layout of a queue\<close>

record virtq =
  vq_addr :: u64
  vq_num :: u64
  vq_avail_off :: u64
  vq_used_off :: u64

text \<open>The places of a ring index in the available and in the used ring, as the manual has them.\<close>

definition avail_slot :: "virtq \<Rightarrow> u16 \<Rightarrow> u64" where
  "avail_slot q idx = vq_addr q + vq_avail_off q + 4 + (ucast idx mod vq_num q) * 2"

definition used_slot :: "virtq \<Rightarrow> u16 \<Rightarrow> u64" where
  "used_slot q idx = vq_addr q + vq_used_off q + 4 + (ucast idx mod vq_num q) * 8"

text \<open>
  The device has answered the chain at an index: the driver finds in the used ring the head
  it had published in the available ring, and a length.
\<close>

definition answered :: "virtq \<Rightarrow> u64 \<Rightarrow> u16 \<Rightarrow> dram \<Rightarrow> dram \<Rightarrow> u16 \<Rightarrow> u32 \<Rightarrow> bool" where
  "answered q base idx d d' head len \<longleftrightarrow>
     gm_read_u16 d (avail_slot q idx) base = Ok head \<and>
     gm_read_u32 d' (used_slot q idx) base = Ok (ucast head) \<and>
     gm_read_u32 d' (used_slot q idx + 4) base = Ok len"

subsection \<open>A device at work\<close>

text \<open>
  A device processes its queue on itself, on main memory and, through its interrupt
  callback, on the interrupt controller.
\<close>

record 'd virtio_ctx =
  vc_dev :: 'd
  vc_dram :: dram
  vc_plic :: plic

definition zoom_dram :: "(dram, 'a, mem_error) comp \<Rightarrow> ('d virtio_ctx, 'a, mem_error) comp" where
  "zoom_dram = zoomS vc_dram (\<lambda>d s. s\<lparr>vc_dram := d\<rparr>)"

text \<open>
  The \<open>while\<close> loop over the ring runs \<open>step\<close> for \<open>used_idx\<close> up to \<open>avail_idx\<close>, modulo
  \<open>2 ^ 16\<close>, and leaves \<open>used_idx\<close> behind; the distance between the two indices is its measure.
\<close>

lemma ring_distance_decreases: "a \<noteq> u \<Longrightarrow> unat (a - (u + 1)) < unat (a - u)" for a u :: u16
proof -
  assume "a \<noteq> u"
  then have "a - u \<noteq> 0" by simp
  then have "unat (a - u - 1) < unat (a - u)" by (simp add: unat_minus_one unat_gt_0)
  then show ?thesis by (simp add: diff_diff_eq)
qed

function ring_loop :: "(u16 \<Rightarrow> ('s, unit, mem_error) comp) \<Rightarrow> u16 \<Rightarrow> u16 \<Rightarrow> ('s, u16, mem_error) comp" where
  "ring_loop step avail_idx used_idx s =
     (if avail_idx = used_idx then (Ok used_idx, s)
      else
        (case step used_idx s of
           (Ok _, s') \<Rightarrow> ring_loop step avail_idx (used_idx + 1) s'
         | (Err e, s') \<Rightarrow> (Err e, s')
         | (Panic, s') \<Rightarrow> (Panic, s')))"
  by pat_completeness auto
termination
  by (relation "measure (\<lambda>(step, avail_idx, used_idx, s). unat (avail_idx - used_idx))")
    (auto simp: ring_distance_decreases)

declare ring_loop.simps [simp del]

lemma ring_loop_inv:
  "(\<And>u s. P s \<Longrightarrow> P (snd (step u s))) \<Longrightarrow> P s \<Longrightarrow> P (snd (ring_loop step a u s))"
proof (induction step a u s rule: ring_loop.induct)
  case (1 step a u s)
  show ?case
  proof (cases "a = u")
    case False
    obtain r s1 where st: "step u s = (r, s1)" by fastforce
    then have "P s1" using "1.prems"(1) [OF "1.prems"(2), of u] by simp
    then show ?thesis
      using "1.IH" [OF False st [symmetric]] "1.prems"(1) st False
      by (cases r) (simp_all add: ring_loop.simps [of step a u s])
  next
    case True
    then show ?thesis using "1.prems"(2) by (simp add: ring_loop.simps [of step u u s])
  qed
qed

text \<open>
  \<open>rounds R u s n s'\<close>: from \<open>s\<close> to \<open>s'\<close> in \<open>n\<close> rounds, the round for index \<open>u + k\<close>
  leading from one state to the next as \<open>R\<close> says.
\<close>

inductive rounds :: "(u16 \<Rightarrow> 's \<Rightarrow> 's \<Rightarrow> bool) \<Rightarrow> u16 \<Rightarrow> 's \<Rightarrow> nat \<Rightarrow> 's \<Rightarrow> bool" for R where
  no_round: "rounds R u s 0 s"
| round: "R u s s' \<Longrightarrow> rounds R (u + 1) s' n s'' \<Longrightarrow> rounds R u s (Suc n) s''"

inductive_cases rounds_0E: "rounds R u s 0 s'"
inductive_cases rounds_SucE: "rounds R u s (Suc n) s'"

lemma rounds_1: "rounds R u s (Suc 0) s' \<longleftrightarrow> R u s s'"
  by (auto intro: rounds.intros elim: rounds_SucE rounds_0E)

text \<open>A successful loop has run each pending slot once, in ring order, and stands at \<open>avail_idx\<close>.\<close>

lemma ring_loop_rounds:
  assumes "ring_loop step a u s = (Ok v, s')" and "P s"
    and "\<And>u s s'. P s \<Longrightarrow> step u s = (Ok (), s') \<Longrightarrow> P s' \<and> R u s s'"
  shows "v = a \<and> P s' \<and> rounds R u s (unat (a - u)) s'"
  using assms(1,2)
proof (induction "unat (a - u)" arbitrary: u s)
  case 0
  then have "a = u" by (simp add: unat_eq_0)
  with 0 show ?case by (auto simp: ring_loop.simps [of step u u s] intro: rounds.intros)
next
  case (Suc n)
  then have ne: "a \<noteq> u" by auto
  obtain s1 where st: "step u s = (Ok (), s1)" and rest: "ring_loop step a (u + 1) s1 = (Ok v, s')"
    using Suc.prems(1) ne by (subst (asm) ring_loop.simps) (auto split: prod.splits result.splits)
  have "a - u \<noteq> 0" using ne by simp
  then have n: "n = unat (a - (u + 1))"
    using unat_minus_one [of "a - u"] Suc.hyps(2) by (simp add: diff_diff_eq)
  have P: "P s1" and R: "R u s s1" using assms(3) [OF Suc.prems(2) st] by simp_all
  show ?case
    using Suc.hyps(1) [OF n rest P] R n Suc.hyps(2) rounds.round [of R u s s1] by metis
qed

subsection \<open>Facts about the accessors\<close>

text \<open>The accessors keep the memory's shape, whatever they return.\<close>

lemma gm_write_wf [frame_simps]:
  "dram_wf (snd (gm_write_u8 a v8 base d)) = dram_wf d" "dram_len (snd (gm_write_u8 a v8 base d)) = dram_len d"
  "dram_wf (snd (gm_write_u16 a v16 base d)) = dram_wf d" "dram_len (snd (gm_write_u16 a v16 base d)) = dram_len d"
  "dram_wf (snd (gm_write_u32 a v32 base d)) = dram_wf d" "dram_len (snd (gm_write_u32 a v32 base d)) = dram_len d"
  by (simp_all add: gm_write_u8_def gm_write_u16_def gm_write_u32_def bindS_def sub_ck_def frame_simps)

lemma gm_write_bytes_wf [frame_simps]:
  "dram_wf (snd (gm_write_bytes addr j bs base d)) = dram_wf d"
  "dram_len (snd (gm_write_bytes addr j bs base d)) = dram_len d"
proof -
  have "dram_wf (snd (gm_write_bytes addr j bs base d)) = dram_wf d \<and>
    dram_len (snd (gm_write_bytes addr j bs base d)) = dram_len d"
  proof (induction bs arbitrary: j d)
    case Nil
    then show ?case by simp
  next
    case (Cons b bs)
    obtain r d' where w: "gm_write_u8 (addr + of_nat j) b base d = (r, d')" by fastforce
    then have "dram_wf d' = dram_wf d" "dram_len d' = dram_len d"
      using gm_write_wf(1,2) [of "addr + of_nat j" b base d] by simp_all
    with Cons.IH [of "Suc j" d'] show ?case
      by (cases r) (simp_all add: bindS_def add_ck_def w)
  qed
  then show "dram_wf (snd (gm_write_bytes addr j bs base d)) = dram_wf d"
    and "dram_len (snd (gm_write_bytes addr j bs base d)) = dram_len d" by simp_all
qed

text \<open>\<open>gm_ok d base a n\<close>: the \<open>n\<close> bytes from guest address \<open>a\<close> lie in main memory.\<close>

definition gm_ok :: "dram \<Rightarrow> u64 \<Rightarrow> u64 \<Rightarrow> nat \<Rightarrow> bool" where
  "gm_ok d base a n \<longleftrightarrow> base \<le> a \<and> unat a - unat base + n \<le> dram_len d \<and> unat a + n < 2 ^ 64"

lemma gm_ok_cong: "dram_len d' = dram_len d \<Longrightarrow> gm_ok d' base a n = gm_ok d base a n"
  by (simp add: gm_ok_def)

lemma gm_sub: "base \<le> a \<Longrightarrow> (sub_ck a base :: (u64, mem_error) result) = Ok (a - base) \<and> unat (a - base) = unat a - unat base"
  by (simp add: sub_ck_def unat_sub)

lemma gm_read16_after_write16:
  assumes "dram_wf d" and "fst (gm_write_u16 a v base d) = Ok ()"
  shows "gm_read_u16 (snd (gm_write_u16 a v base d)) a base = Ok v"
proof -
  have le: "base \<le> a" and inm: "unat (a - base) + 2 \<le> dram_len d"
    using assms
    by (auto simp: gm_write_u16_def bindS_def sub_ck_def dram_write16_def add_ck_def unat_word_ariths split: if_splits)
  with assms(1) show ?thesis
    using dram16.rd_same [of d "a - base" v]
    by (simp add: gm_write_u16_def gm_read_u16_def sub_ck_def bindS_def)
qed

text \<open>A word read back after it was written, and a word that a write elsewhere left alone.\<close>

lemma gm_write_u32_Ok:
  assumes "dram_wf d" and "gm_write_u32 a v base d = (Ok (), d')"
  shows "gm_read_u32 d' a base = Ok v" and "dram_wf d'" and "dram_len d' = dram_len d" and "base \<le> a"
    and "unat (a - base) + 4 \<le> dram_len d" and "d' = dram_put d (unat (a - base)) (le_bytes 4 v)"
proof -
  show le: "base \<le> a" and inm: "unat (a - base) + 4 \<le> dram_len d"
    using assms
    by (auto simp: gm_write_u32_def bindS_def sub_ck_def dram_write32_def add_ck_def unat_word_ariths split: if_splits)
  show "dram_wf d'" "dram_len d' = dram_len d"
    using assms gm_write_wf(5,6) [of a v base d] by simp_all
  show "gm_read_u32 d' a base = Ok v"
    using dram32.rd_same [of d "a - base" v] assms le inm
    by (simp add: gm_write_u32_def gm_read_u32_def sub_ck_def bindS_def)
  show "d' = dram_put d (unat (a - base)) (le_bytes 4 v)"
    using dram_write_in(2) [OF assms(1) inm, of v] assms(2) le
    by (simp add: gm_write_u32_def sub_ck_def bindS_def)
qed

text \<open>
  The two words of an entry of the used ring: both are read back, and the rest of memory is
  as it was.
\<close>

definition outside :: "u64 \<Rightarrow> u64 \<Rightarrow> nat \<Rightarrow> u64 \<Rightarrow> nat \<Rightarrow> bool" where
  "outside base a n b m \<longleftrightarrow> unat (a - base) + n \<le> unat (b - base) \<or> unat (b - base) + m \<le> unat (a - base)"

lemma used_entry_written:
  assumes "dram_wf d" and "gm_write_u32 e v base d = (Ok (), d1)" and "gm_write_u32 (e + 4) w base d1 = (Ok (), d2)"
  shows "gm_read_u32 d2 e base = Ok v" and "gm_read_u32 d2 (e + 4) base = Ok w" and "dram_wf d2"
    and "dram_len d2 = dram_len d"
    and "i < unat (e - base) \<or> unat (e - base) + 8 \<le> i \<Longrightarrow> dram_mem d2 i = dram_mem d i"
proof -
  note w1 = gm_write_u32_Ok [OF assms(1,2)]
  note w2 = gm_write_u32_Ok [OF w1(2) assms(3)]
  show "gm_read_u32 d2 (e + 4) base = Ok w" "dram_wf d2" "dram_len d2 = dram_len d"
    using w1 w2 by simp_all
  have len: "dram_len d < 2 ^ 63" using assms(1) by (simp add: dram_wf_def)
  have "e + 4 - base = (e - base) + 4" by simp
  then have four: "unat (e + 4 - base) = unat (e - base) + 4"
    using w1(5) len by (simp only:) (simp add: unat_word_ariths)
  have "snd (dram_write32 (e + 4 - base) w d1) = d2"
    using w2 assms(3) by (simp add: gm_write_u32_def sub_ck_def bindS_def)
  then have "dram_read32 d2 (e - base) = dram_read32 d1 (e - base)"
    using dram32.rd_other [of d1 "e + 4 - base" "e - base" w] w1 w2 four by simp
  then show "gm_read_u32 d2 e base = Ok v"
    using w1(1,4) by (simp add: gm_read_u32_def sub_ck_def)
  show "i < unat (e - base) \<or> unat (e - base) + 8 \<le> i \<Longrightarrow> dram_mem d2 i = dram_mem d i"
    using w1(6) w2(6) four by (auto simp: dram_put_def blit_def)
qed

lemma gm_write_u8_in:
  assumes "dram_wf d" and "gm_ok d base a 1"
  shows "gm_write_u8 a v base d = (Ok (), dram_put d (unat a - unat base) [v])"
proof -
  have le: "base \<le> a" and inm: "unat a - unat base < dram_len d" using assms(2) by (auto simp: gm_ok_def)
  with gm_sub [OF le] dram_write_in(4) [OF assms(1), of "a - base" v] show ?thesis
    by (simp add: gm_write_u8_def bindS_def)
qed

lemma gm_read_u8_in:
  assumes "dram_wf d" and "gm_ok d base a 1"
  shows "gm_read_u8 d a base = Ok (dram_mem d (unat a - unat base))"
proof -
  have le: "base \<le> a" and inm: "unat a - unat base < dram_len d" using assms(2) by (auto simp: gm_ok_def)
  with gm_sub [OF le] dram_read_in(4) [OF assms(1), of "a - base"] show ?thesis
    by (simp add: gm_read_u8_def)
qed

lemma gm_ok_byte:
  assumes "gm_ok d base a n" and "j < n"
  shows "(add_ck a (of_nat j) :: (u64, mem_error) result) = Ok (a + of_nat j)" and "unat (a + of_nat j) = unat a + j"
    and "gm_ok d base (a + of_nat j) 1"
proof -
  have bound: "unat a + n < 2 ^ 64" using assms(1) by (simp add: gm_ok_def)
  then have un: "unat (of_nat j :: u64) = j" using assms(2) by (simp add: unat_of_nat take_bit_eq_mod)
  show "(add_ck a (of_nat j) :: (u64, mem_error) result) = Ok (a + of_nat j)" using bound assms(2) un by (simp add: add_ck_def)
  show sum: "unat (a + of_nat j) = unat a + j" using bound assms(2) un by (simp add: unat_word_ariths)
  have "unat base \<le> unat a" using assms(1) by (simp add: gm_ok_def word_le_nat_alt)
  then show "gm_ok d base (a + of_nat j) 1"
    using assms bound unfolding gm_ok_def word_le_nat_alt sum by linarith
qed

lemma bindS_inv_lift:
  "P s \<Longrightarrow> (\<And>a. r = Ok a \<Longrightarrow> P (snd (f a s))) \<Longrightarrow> P (snd (bindS (liftR r) f s))"
  by (cases r) (simp_all add: bindS_def)

text \<open>A byte loop over a buffer inside memory writes, or reads, exactly that buffer.\<close>

lemma gm_write_bytes_in:
  assumes "dram_wf d" and "gm_ok d base a (j + length bs)"
  shows "gm_write_bytes a j bs base d = (Ok (), dram_put d (unat a - unat base + j) bs)"
  using assms
proof (induction bs arbitrary: j d)
  case Nil
  then show ?case by simp
next
  case (Cons b bs)
  have j: "j < j + length (b # bs)" by simp
  have le: "unat base \<le> unat a" using Cons.prems(2) by (simp add: gm_ok_def word_le_nat_alt)
  let ?d = "dram_put d (unat a - unat base + j) [b]"
  have "gm_write_u8 (a + of_nat j) b base d = (Ok (), ?d)"
    using gm_write_u8_in [OF Cons.prems(1) gm_ok_byte(3) [OF Cons.prems(2) j], of b]
      gm_ok_byte(2) [OF Cons.prems(2) j] le by simp
  moreover have "gm_write_bytes a (Suc j) bs base ?d = (Ok (), dram_put ?d (unat a - unat base + Suc j) bs)"
    using Cons.prems by (intro Cons.IH) (simp_all add: gm_ok_def)
  moreover have "dram_put ?d (unat a - unat base + Suc j) bs = dram_put d (unat a - unat base + j) (b # bs)"
    using dram_put_append [of d "unat a - unat base + j" "[b]" bs] by simp
  ultimately show ?case
    using gm_ok_byte(1) [OF Cons.prems(2) j] by (simp add: bindS_def)
qed

lemma gm_read_bytes_in:
  assumes "dram_wf d" and "gm_ok d base a n" and "\<forall>j \<in> set js. j < n"
  shows "gm_read_bytes d a js base = Ok (map (\<lambda>j. dram_mem d (unat a - unat base + j)) js)"
  using assms(3)
proof (induction js)
  case Nil
  then show ?case by simp
next
  case (Cons j js)
  have j: "j < n" using Cons.prems by simp
  have le: "unat base \<le> unat a" using assms(2) by (simp add: gm_ok_def word_le_nat_alt)
  with Cons gm_read_u8_in [OF assms(1) gm_ok_byte(3) [OF assms(2) j]] gm_ok_byte(1,2) [OF assms(2) j]
  show ?case by simp
qed

subsection \<open>The MMIO transport\<close>

text \<open>
  The register interface a driver relies on when it initialises a device: identification,
  status read-back, the interrupt acknowledgement, the queue set-up, and a reset.
\<close>

locale virtio_transport =
  fixes rd :: "'d \<Rightarrow> u64 \<Rightarrow> u32"
    and wr :: "u64 \<Rightarrow> u32 \<Rightarrow> 'd \<Rightarrow> 'd"
    and queue_num :: "'d \<Rightarrow> u32"
  assumes magic: "rd d 0x000 = 0x74726976"
    and status: "rd (wr 0x070 v d) 0x070 = v"
    and status_kept: "off \<noteq> 0x070 \<Longrightarrow> rd (wr off v d) 0x070 = rd d 0x070"
    and ack: "rd (wr 0x064 v d) 0x060 = rd d 0x060 AND NOT v"
    and pfn: "rd (wr 0x040 v (wr 0x030 0 d)) 0x040 = v"
    and pfn_ready: "rd (wr 0x040 v (wr 0x030 0 d)) 0x044 = of_bool (v \<noteq> 0)"
    and num: "queue_num (wr 0x038 v (wr 0x030 0 d)) = v"
    and num_kept: "off \<noteq> 0x038 \<Longrightarrow> \<not> (off = 0x070 \<and> v = 0) \<Longrightarrow> queue_num (wr off v d) = queue_num d"
    and status_nonzero: "v \<noteq> 0 \<Longrightarrow> off \<in> {0x040, 0x044, 0x060} \<Longrightarrow> rd (wr 0x070 v d) off = rd d off"
    and reset: "rd (wr 0x070 0 d) 0x040 = 0" "rd (wr 0x070 0 d) 0x044 = 0" "rd (wr 0x070 0 d) 0x060 = 0"
      "queue_num (wr 0x070 0 d) = 0"
begin

text \<open>The legacy initialisation of queue 0 leaves the device live and the queue in place.\<close>

definition init_queue :: "u32 \<Rightarrow> u32 \<Rightarrow> 'd \<Rightarrow> 'd" where
  "init_queue n p d =
     wr 0x070 7 (wr 0x040 p (wr 0x030 0 (wr 0x038 n (wr 0x030 0 (wr 0x070 3 (wr 0x070 1 (wr 0x070 0 d)))))))"

lemma init_queue_live:
  "rd (init_queue n p d) 0x040 = p" "rd (init_queue n p d) 0x044 = of_bool (p \<noteq> 0)"
  "rd (init_queue n p d) 0x070 = 7" "queue_num (init_queue n p d) = n"
  by (simp_all add: init_queue_def status status_nonzero pfn pfn_ready num num_kept)

lemma ack_all: "rd (wr 0x064 (rd d 0x060) d) 0x060 = 0"
  by (simp add: ack)

lemma reset_dead: "rd (wr 0x070 0 d) 0x044 = 0 \<and> rd (wr 0x070 0 d) 0x060 = 0"
  by (simp add: reset)

end

end
