(* ===== verification/VirtioBlk.thy ===== *)
theory VirtioBlk
  imports Prelude Dram Plic Virtq
begin

text \<open>
  \<open>src/src/virtio.rs\<close>: the block device, its registers and the processing of its queue.
  The device works on itself, main memory and, through the interrupt callback, the
  interrupt controller; a \<open>virtio_ctx\<close> holds the three. The disk image is a file: its bytes,
  its position, and what the host answers to the next operations. One-element arrays are
  their element.
\<close>

subsection \<open>The disk image\<close>

text \<open>
  \<open>disk_write_limit = Some k\<close>: the host fails a write after \<open>k\<close> bytes. \<open>None\<close> is a host
  that accepts everything.
\<close>

record disk =
  disk_bytes :: "u8 list"
  disk_pos :: nat
  disk_meta_ok :: bool
  disk_seek_ok :: bool
  disk_read_ok :: bool
  disk_sync_ok :: bool
  disk_write_limit :: "nat option"

definition disk_seek :: "u64 \<Rightarrow> disk \<Rightarrow> bool \<times> disk" where
  "disk_seek offset f = (if disk_seek_ok f then (True, f\<lparr>disk_pos := unat offset\<rparr>) else (False, f))"

text \<open>\<open>read_exact\<close> fails at the end of the file, what it then read is not used.\<close>

definition disk_read_exact :: "nat \<Rightarrow> disk \<Rightarrow> u8 list option \<times> disk" where
  "disk_read_exact n f =
     (if \<not> disk_read_ok f then (None, f)
      else if disk_pos f + n \<le> length (disk_bytes f)
      then (Some (take n (drop (disk_pos f) (disk_bytes f))), f\<lparr>disk_pos := disk_pos f + n\<rparr>)
      else (None, f\<lparr>disk_pos := max (disk_pos f) (length (disk_bytes f))\<rparr>))"

text \<open>A write past the end extends the file, a gap before it reads as zero.\<close>

definition overwrite :: "nat \<Rightarrow> u8 list \<Rightarrow> u8 list \<Rightarrow> u8 list" where
  "overwrite p bs fs =
     (if bs = [] then fs
      else take p fs @ replicate (p - length fs) 0 @ bs @ drop (p + length bs) fs)"

definition disk_write_all :: "u8 list \<Rightarrow> disk \<Rightarrow> bool \<times> disk" where
  "disk_write_all bs f =
     (case disk_write_limit f of
        None \<Rightarrow> (True, f\<lparr>disk_bytes := overwrite (disk_pos f) bs (disk_bytes f), disk_pos := disk_pos f + length bs\<rparr>)
      | Some k \<Rightarrow>
          if length bs \<le> k
          then (True, f\<lparr>disk_bytes := overwrite (disk_pos f) bs (disk_bytes f), disk_pos := disk_pos f + length bs\<rparr>)
          else (False, f\<lparr>disk_bytes := overwrite (disk_pos f) (take k bs) (disk_bytes f), disk_pos := disk_pos f + k\<rparr>))"

subsection \<open>The device\<close>

abbreviation SECTOR_SIZE :: u64 where "SECTOR_SIZE \<equiv> 512"
abbreviation VIRTIO_BLK_T_IN :: u32 where "VIRTIO_BLK_T_IN \<equiv> 0"
abbreviation VIRTIO_BLK_T_OUT :: u32 where "VIRTIO_BLK_T_OUT \<equiv> 1"
abbreviation VIRTIO_BLK_T_FLUSH :: u32 where "VIRTIO_BLK_T_FLUSH \<equiv> 4"
abbreviation VIRTIO_BLK_T_GET_ID :: u32 where "VIRTIO_BLK_T_GET_ID \<equiv> 8"

record blk_req_header =
  hdr_req_type :: u32
  hdr_reserved :: u32
  hdr_sector :: u64

record data_buffer =
  buf_addr :: u64
  buf_len :: u32

record vblk =
  vb_disk :: disk
  vb_status :: u32
  vb_queue_sel :: u32
  vb_queue_align :: u32
  vb_queue_num :: u32
  vb_queue_pfn :: u32
  vb_queue_ready :: bool
  vb_driver_features :: u64
  vb_device_features_sel :: u32
  vb_driver_features_sel :: u32
  vb_interrupt_status :: u32
  vb_capacity :: u64
  vb_callback :: "u32 option"

definition vblk_new :: "disk \<Rightarrow> (vblk, unit) result" where
  "vblk_new f =
     (if \<not> disk_meta_ok f then Err ()
      else Ok \<lparr>vb_disk = f, vb_status = 0, vb_queue_sel = 0, vb_queue_align = 4096, vb_queue_num = 0, vb_queue_pfn = 0,
        vb_queue_ready = False, vb_driver_features = 0, vb_device_features_sel = 0, vb_driver_features_sel = 0,
        vb_interrupt_status = 0, vb_capacity = of_nat (length (disk_bytes f)) div SECTOR_SIZE, vb_callback = None\<rparr>)"

text \<open>The callback the bus installs raises one line of the interrupt controller.\<close>

definition vblk_set_interrupt_callback :: "u32 \<Rightarrow> vblk \<Rightarrow> vblk" where
  "vblk_set_interrupt_callback irq vb = vb\<lparr>vb_callback := Some irq\<rparr>"

type_synonym vblk_ctx = "vblk virtio_ctx"

definition vblk_trigger_interrupt :: "vblk_ctx \<Rightarrow> vblk_ctx" where
  "vblk_trigger_interrupt s =
     (let s1 = s\<lparr>vc_dev := (vc_dev s)\<lparr>vb_interrupt_status := vb_interrupt_status (vc_dev s) OR 1\<rparr>\<rparr> in
      case vb_callback (vc_dev s1) of
        Some irq \<Rightarrow> s1\<lparr>vc_plic := plic_set_pending irq (vc_plic s1)\<rparr>
      | None \<Rightarrow> s1)"

definition vblk_features :: u64 where
  "vblk_features = push_bit 1 1 OR push_bit 2 1 OR push_bit 6 1 OR push_bit 9 1"

text \<open>No register access fails, and no register read has an effect.\<close>

definition vblk_read32 :: "vblk \<Rightarrow> u64 \<Rightarrow> (u32, mem_error) result" where
  "vblk_read32 vb offset = Ok
     (if offset = 0x000 then 0x74726976
      else if offset = 0x004 then 1
      else if offset = 0x008 then 2
      else if offset = 0x00c then 0x554d4551
      else if offset = 0x010 then (if vb_device_features_sel vb = 0 then ucast vblk_features else 0)
      else if offset = 0x03c then vb_queue_align vb
      else if offset = 0x034 then 256
      else if offset = 0x040 then (if vb_queue_sel vb = 0 then vb_queue_pfn vb else 0)
      else if offset = 0x044 then (if vb_queue_sel vb = 0 then (if vb_queue_ready vb then 1 else 0) else 0)
      else if offset = 0x060 then vb_interrupt_status vb
      else if offset = 0x070 then vb_status vb
      else if offset = 0x0fc then 0
      else if offset = 0x100 then ucast (vb_capacity vb)
      else if offset = 0x104 then ucast (drop_bit 32 (vb_capacity vb))
      else if offset = 0x108 then 0x20000
      else if offset = 0x10c then 128
      else if offset = 0x114 then ucast SECTOR_SIZE
      else 0)"

definition vblk_reset :: "vblk \<Rightarrow> vblk" where
  "vblk_reset vb = vb\<lparr>vb_queue_num := 0, vb_queue_pfn := 0, vb_queue_ready := False, vb_queue_sel := 0,
     vb_interrupt_status := 0, vb_driver_features := 0, vb_device_features_sel := 0,
     vb_driver_features_sel := 0, vb_queue_align := 4096\<rparr>"

definition vblk_write32 :: "u64 \<Rightarrow> u32 \<Rightarrow> (vblk, unit, mem_error) comp" where
  "vblk_write32 offset value vb = (Ok (),
     (if offset = 0x014 then vb\<lparr>vb_device_features_sel := value\<rparr>
      else if offset = 0x020 then
        vb\<lparr>vb_driver_features :=
          (if vb_driver_features_sel vb = 0
           then (vb_driver_features vb AND 0xFFFFFFFF00000000) OR ucast value
           else (vb_driver_features vb AND 0x00000000FFFFFFFF) OR push_bit 32 (ucast value))\<rparr>
      else if offset = 0x024 then vb\<lparr>vb_driver_features_sel := value\<rparr>
      else if offset = 0x028 then vb
      else if offset = 0x030 then vb\<lparr>vb_queue_sel := value\<rparr>
      else if offset = 0x038 then (if vb_queue_sel vb = 0 then vb\<lparr>vb_queue_num := value\<rparr> else vb)
      else if offset = 0x03c then vb\<lparr>vb_queue_align := value\<rparr>
      else if offset = 0x040 then
        (if vb_queue_sel vb = 0 then vb\<lparr>vb_queue_pfn := value, vb_queue_ready := (value \<noteq> 0)\<rparr> else vb)
      else if offset = 0x044 then (if vb_queue_sel vb = 0 then vb\<lparr>vb_queue_ready := (value \<noteq> 0)\<rparr> else vb)
      else if offset = 0x050 then vb
      else if offset = 0x064 then vb\<lparr>vb_interrupt_status := vb_interrupt_status vb AND NOT value\<rparr>
      else if offset = 0x070 then (if value = 0 then vblk_reset vb else vb)\<lparr>vb_status := value\<rparr>
      else vb))"

subsection \<open>Requests\<close>

definition read_request_header :: "dram \<Rightarrow> u64 \<Rightarrow> u64 \<Rightarrow> (blk_req_header, mem_error) result" where
  "read_request_header d addr base =
     bindR (gm_read_u32 d addr base) (\<lambda>req_type.
     bindR (bindR (add_ck addr 4) (\<lambda>a. gm_read_u32 d a base)) (\<lambda>reserved.
     bindR (bindR (add_ck addr 8) (\<lambda>a. gm_read_u64 d a base)) (\<lambda>sector.
     Ok \<lparr>hdr_req_type = req_type, hdr_reserved = reserved, hdr_sector = sector\<rparr>)))"

text \<open>
  \<open>buffers.iter().map(|b| b.len as u64).sum()\<close>: a chain has at most 254 data buffers of
  less than \<open>2 ^ 32\<close> bytes, so this sum cannot overflow.
\<close>

definition total_len :: "data_buffer list \<Rightarrow> u64" where
  "total_len bufs = sum_list (map (\<lambda>b. ucast (buf_len b)) bufs)"

text \<open>The same sum over \<open>u32\<close>, which can.\<close>

fun sum_u32 :: "u32 \<Rightarrow> u32 list \<Rightarrow> (u32, mem_error) result" where
  "sum_u32 acc [] = Ok acc"
| "sum_u32 acc (v # vs) = bindR (add_ck acc v) (\<lambda>acc'. sum_u32 acc' vs)"

definition set_disk :: "disk \<Rightarrow> vblk_ctx \<Rightarrow> vblk_ctx" where
  "set_disk f s = s\<lparr>vc_dev := (vc_dev s)\<lparr>vb_disk := f\<rparr>\<rparr>"

text \<open>The two file accesses of a request: seek, then transfer. A failure is not an error but a status byte.\<close>

definition image_read :: "u64 \<Rightarrow> nat \<Rightarrow> vblk_ctx \<Rightarrow> u8 list option \<times> vblk_ctx" where
  "image_read offset n s =
     (case disk_seek offset (vb_disk (vc_dev s)) of
        (False, f) \<Rightarrow> (None, set_disk f s)
      | (True, f) \<Rightarrow> (case disk_read_exact n f of (r, f') \<Rightarrow> (r, set_disk f' s)))"

definition image_write :: "u64 \<Rightarrow> u8 list \<Rightarrow> vblk_ctx \<Rightarrow> bool \<times> vblk_ctx" where
  "image_write offset bs s =
     (case disk_seek offset (vb_disk (vc_dev s)) of
        (False, f) \<Rightarrow> (False, set_disk f s)
      | (True, f) \<Rightarrow> (case disk_write_all bs f of (ok, f') \<Rightarrow> (ok, set_disk f' s)))"

text \<open>Scattering the disk bytes over the buffers; \<open>2\<close> is \<open>VIRTIO_BLK_S_IOERR\<close>.\<close>

fun scatter :: "data_buffer list \<Rightarrow> nat \<Rightarrow> u8 list \<Rightarrow> u64 \<Rightarrow> (dram, u8, mem_error) comp" where
  "scatter [] disk_offset disk_buffer base d = (Ok 0, d)"
| "scatter (buf # bufs) disk_offset disk_buffer base d =
     (let buf_length = unat (buf_len buf); end_off = disk_offset + buf_length in
      if end_off > length disk_buffer then (Ok 2, d)
      else bindS (gm_write_bytes (buf_addr buf) 0 (take buf_length (drop disk_offset disk_buffer)) base)
             (\<lambda>_. scatter bufs end_off disk_buffer base) d)"

definition handle_read_request_sg ::
  "u64 \<Rightarrow> data_buffer list \<Rightarrow> u64 \<Rightarrow> (vblk_ctx, u8, mem_error) comp" where
  "handle_read_request_sg sector bufs base s =
     (let total = total_len bufs;
          sectors_needed = (total + SECTOR_SIZE - 1) div SECTOR_SIZE in
      bindS (liftR (add_ck sector sectors_needed)) (\<lambda>last s.
        if last > vb_capacity (vc_dev s) then (Ok 2, s)
        else bindS (liftR (mul_ck sector SECTOR_SIZE)) (\<lambda>offset s.
          case image_read offset (unat total) s of
            (None, s') \<Rightarrow> (Ok 2, s')
          | (Some disk_buffer, s') \<Rightarrow> zoom_dram (scatter bufs 0 disk_buffer base) s') s) s)"

text \<open>Gathering the buffers' bytes, in order.\<close>

fun gather :: "dram \<Rightarrow> data_buffer list \<Rightarrow> u64 \<Rightarrow> (u8 list, mem_error) result" where
  "gather d [] base = Ok []"
| "gather d (buf # bufs) base =
     bindR (gm_read_bytes d (buf_addr buf) [0..<unat (buf_len buf)] base) (\<lambda>bytes.
     mapR (\<lambda>rest. bytes @ rest) (gather d bufs base))"

definition handle_write_request_sg ::
  "u64 \<Rightarrow> data_buffer list \<Rightarrow> u64 \<Rightarrow> (vblk_ctx, u8, mem_error) comp" where
  "handle_write_request_sg sector bufs base s =
     (let total = total_len bufs;
          sectors_needed = (total + SECTOR_SIZE - 1) div SECTOR_SIZE in
      bindS (liftR (add_ck sector sectors_needed)) (\<lambda>last s.
        if last > vb_capacity (vc_dev s) then (Ok 2, s)
        else bindS (liftR (gather (vc_dram s) bufs base)) (\<lambda>disk_buffer.
          bindS (liftR (mul_ck sector SECTOR_SIZE)) (\<lambda>offset s.
            case image_write offset disk_buffer s of
              (ok, s') \<Rightarrow> (Ok (if ok then 0 else 2), s'))) s) s)"

definition handle_flush_request :: "(vblk_ctx, u8, mem_error) comp" where
  "handle_flush_request s = (Ok (if disk_sync_ok (vb_disk (vc_dev s)) then 0 else 2), s)"

definition DEVICE_SERIAL :: "u8 list" where
  "DEVICE_SERIAL = map of_char ''MYSIM-VIRTIO-BLK''"

definition handle_get_id_request :: "u64 \<Rightarrow> u32 \<Rightarrow> u64 \<Rightarrow> (vblk_ctx, u8, mem_error) comp" where
  "handle_get_id_request buffer_addr len base =
     (let write_len = min (unat len) (length DEVICE_SERIAL) in
      bindS (zoom_dram (gm_write_bytes buffer_addr 0 (take write_len DEVICE_SERIAL) base)) (\<lambda>_.
      bindS (zoom_dram (gm_write_bytes buffer_addr write_len (replicate (unat len - write_len) 0) base)) (\<lambda>_.
      returnS 0)))"

subsection \<open>The queue\<close>

abbreviation MAX_CHAIN_LEN :: nat where "MAX_CHAIN_LEN \<equiv> 256"

function read_chain :: "dram \<Rightarrow> u64 \<Rightarrow> u64 \<Rightarrow> virtq_desc list \<Rightarrow> u16 \<Rightarrow> (virtq_desc list, mem_error) result" where
  "read_chain d queue_addr base desc_chain current_idx =
     (if length desc_chain \<ge> MAX_CHAIN_LEN then Err DescriptorChainTooLong
      else bindR (read_descriptor d (queue_addr + ucast current_idx * 16) base) (\<lambda>desc.
        if desc_flags desc AND VIRTQ_DESC_F_NEXT = 0 then Ok (desc_chain @ [desc])
        else read_chain d queue_addr base (desc_chain @ [desc]) (desc_next desc)))"
  by pat_completeness auto
termination
  by (relation "measure (\<lambda>(d, q, b, chain, i). MAX_CHAIN_LEN - length chain)") auto

declare read_chain.simps [simp del]

text \<open>
  The layout of the queue, computed once: \<open>queue_pfn < 2 ^ 32\<close> and \<open>queue_num < 2 ^ 32\<close>
  keep every sum far below \<open>2 ^ 64\<close>; an alignment of 0 divides by zero.
\<close>

definition vblk_layout :: "vblk \<Rightarrow> (virtq, mem_error) result" where
  "vblk_layout vb =
     (let queue_addr = push_bit 12 (ucast (vb_queue_pfn vb));
          queue_num = ucast (vb_queue_num vb);
          align = ucast (vb_queue_align vb);
          avail_ring_offset = queue_num * 16;
          avail_ring_len = 4 + 2 * queue_num + 2;
          avail_ring_end = avail_ring_offset + avail_ring_len in
      bindR (div_ck (avail_ring_end + align - 1) align) (\<lambda>q.
      Ok \<lparr>vq_addr = queue_addr, vq_num = queue_num, vq_avail_off = avail_ring_offset, vq_used_off = q * align\<rparr>))"

text \<open>The dispatch on the request type: status byte and length for the used ring.\<close>

definition vblk_dispatch ::
  "blk_req_header \<Rightarrow> data_buffer list \<Rightarrow> u32 \<Rightarrow> u64 \<Rightarrow> (vblk_ctx, u8 \<times> u32, mem_error) comp" where
  "vblk_dispatch header bufs total_data_len base =
     (if hdr_req_type header = VIRTIO_BLK_T_IN then
        bindS (handle_read_request_sg (hdr_sector header) bufs base) (\<lambda>s.
        bindS (liftR (add_ck total_data_len 1)) (\<lambda>n. returnS (s, n)))
      else if hdr_req_type header = VIRTIO_BLK_T_OUT then
        bindS (handle_write_request_sg (hdr_sector header) bufs base) (\<lambda>s. returnS (s, 1))
      else if hdr_req_type header = VIRTIO_BLK_T_FLUSH then
        bindS handle_flush_request (\<lambda>s. returnS (s, 1))
      else if hdr_req_type header = VIRTIO_BLK_T_GET_ID then
        (case bufs of
           b # _ \<Rightarrow>
             bindS (handle_get_id_request (buf_addr b) (buf_len b) base) (\<lambda>s.
             bindS (liftR (add_ck (buf_len b) 1)) (\<lambda>n. returnS (s, n)))
         | [] \<Rightarrow> returnS (2, 1))
      else returnS (2, 1))"

text \<open>One round of the \<open>while\<close> loop.\<close>

definition vblk_request :: "virtq \<Rightarrow> u64 \<Rightarrow> u16 \<Rightarrow> (vblk_ctx, unit, mem_error) comp" where
  "vblk_request q base used_idx s =
     bindS (liftR (mod_ck (ucast used_idx) (vq_num q))) (\<lambda>slot s.
     bindS (liftR (gm_read_u16 (vc_dram s) (vq_addr q + vq_avail_off q + 4 + slot * 2) base)) (\<lambda>head_desc_idx s.
     bindS (liftR (read_chain (vc_dram s) (vq_addr q) base [] head_desc_idx)) (\<lambda>desc_chain s.
       if length desc_chain < 2 then (Err DescriptorChainTooShort, s)
       else
         bindS (liftR (read_request_header (vc_dram s) (desc_addr (hd desc_chain)) base)) (\<lambda>header.
         (let bufs = map (\<lambda>d. \<lparr>buf_addr = desc_addr d, buf_len = desc_len d\<rparr>) (butlast (tl desc_chain)) in
          bindS (liftR (sum_u32 0 (map buf_len bufs))) (\<lambda>total_data_len.
          bindS (vblk_dispatch header bufs total_data_len base) (\<lambda>(status, used_len).
          bindS (zoom_dram (gm_write_u8 (desc_addr (last desc_chain)) status base)) (\<lambda>_.
          bindS (zoom_dram (gm_write_u32 (vq_addr q + vq_used_off q + 4 + slot * 8) (ucast head_desc_idx) base)) (\<lambda>_.
          zoom_dram (gm_write_u32 (vq_addr q + vq_used_off q + 4 + slot * 8 + 4) used_len base))))))) s) s) s) s"

text \<open>The loop moves \<open>used_idx\<close> on, and the used index is written back if it has moved.\<close>

definition vblk_process_queue :: "u64 \<Rightarrow> (vblk_ctx, unit, mem_error) comp" where
  "vblk_process_queue base s =
     (if vb_queue_pfn (vc_dev s) = 0 then (Ok (), s)
      else
        bindS (liftR (vblk_layout (vc_dev s))) (\<lambda>q s.
        (let avail_flags_addr = vq_addr q + vq_avail_off q;
             avail_idx_addr = vq_addr q + vq_avail_off q + 2;
             used_idx_addr = vq_addr q + vq_used_off q + 2 in
         bindS (liftR (gm_read_u16 (vc_dram s) avail_flags_addr base)) (\<lambda>avail_flags s.
         bindS (liftR (gm_read_u16 (vc_dram s) avail_idx_addr base)) (\<lambda>avail_idx s.
         bindS (liftR (gm_read_u16 (vc_dram s) used_idx_addr base)) (\<lambda>used_idx s.
           if avail_idx = used_idx then (Ok (), s)
           else
             bindS (ring_loop (vblk_request q base) avail_idx used_idx) (\<lambda>end_used_idx.
             bindS (if end_used_idx \<noteq> used_idx then zoom_dram (gm_write_u16 used_idx_addr end_used_idx base)
                    else returnS ()) (\<lambda>_ s.
             (Ok (), if avail_flags AND VRING_AVAIL_F_NO_INTERRUPT = 0 then vblk_trigger_interrupt s else s))) s) s) s) s)) s)"

subsection \<open>The transport contract\<close>

abbreviation vblk_reg :: "vblk \<Rightarrow> u64 \<Rightarrow> u32" where
  "vblk_reg vb offset \<equiv> (case vblk_read32 vb offset of Ok v \<Rightarrow> v | _ \<Rightarrow> 0)"

abbreviation vblk_set :: "u64 \<Rightarrow> u32 \<Rightarrow> vblk \<Rightarrow> vblk" where
  "vblk_set offset v vb \<equiv> snd (vblk_write32 offset v vb)"

interpretation blk_regs: virtio_transport vblk_reg vblk_set vb_queue_num
  by unfold_locales (auto simp: vblk_read32_def vblk_write32_def vblk_reset_def)

text \<open>
  Bringing the block device up: whatever state it was in, the legacy driver's
  register sequence (reset, acknowledge, driver, queue 0 of \<open>n\<close> entries at page \<open>p\<close>, driver
  ok) leaves the device with status 7, queue size \<open>n\<close>, page \<open>p\<close>, and ready exactly when
  the page is not 0.
\<close>

theorem vblk_driver_init:
  "let vb' = fold (\<lambda>(off, v) vb. vblk_set off v vb)
       [(0x070, 0), (0x070, 1), (0x070, 3), (0x030, 0), (0x038, n), (0x030, 0), (0x040, p), (0x070, 7)] vb
   in vblk_reg vb' 0x070 = 7 \<and> vblk_reg vb' 0x040 = p \<and> vblk_reg vb' 0x044 = of_bool (p \<noteq> 0) \<and>
      vb_queue_num vb' = n"
  using blk_regs.init_queue_live [of n p vb]
  by (simp add: blk_regs.init_queue_def)

subsection \<open>Lengths\<close>

lemma lens_bound: "sum_list (map (\<lambda>b. unat (buf_len b)) bs) \<le> length bs * (2 ^ 32 - 1)"
proof (induction bs)
  case (Cons b bs)
  have "unat (buf_len b) \<le> 2 ^ 32 - 1" using unsigned_less [of "buf_len b", where 'a = nat] by simp
  with Cons show ?case by simp
qed simp

lemma sum_lens_unat:
  assumes "length bufs < 2 ^ 31"
  shows "unat (total_len bufs) = sum_list (map (\<lambda>b. unat (buf_len b)) bufs)"
proof -
  have "unat (total_len bs) = sum_list (map (\<lambda>b. unat (buf_len b)) bs)" if "length bs < 2 ^ 31" for bs
    using that
  proof (induction bs)
    case Nil
    then show ?case by (simp add: total_len_def)
  next
    case (Cons b bs)
    have tl: "total_len (b # bs) = ucast (buf_len b) + total_len bs" by (simp add: total_len_def)
    have u: "unat (ucast (buf_len b) :: u64) = unat (buf_len b)" 
      using unsigned_less [of "buf_len b", where 'a = nat] by (simp add: unsigned_ucast_eq take_bit_nat_eq_self)
    have IH: "unat (total_len bs) = sum_list (map (\<lambda>b. unat (buf_len b)) bs)"
      using Cons.prems by (intro Cons.IH) simp
    have "unat (buf_len b) < 2 ^ 32" using unsigned_less [of "buf_len b", where 'a = nat] by simp
    moreover have "length bs * (2 ^ 32 - 1) \<le> 2 ^ 31 * (2 ^ 32 - 1)" using Cons.prems by simp
    ultimately have "unat (ucast (buf_len b) :: u64) + unat (total_len bs) < 2 ^ LENGTH(64)"
      unfolding u IH using lens_bound [of bs] by simp
    then show ?case unfolding tl by (simp add: unat_add_small u IH)
  qed
  with assms show ?thesis by blast
qed

lemma total_len_small: "length bufs < 2 ^ 31 \<Longrightarrow> unat (total_len bufs) < 2 ^ 63"
  using sum_lens_unat [of bufs] lens_bound [of bufs] mult_le_mono1 [of "length bufs" "2 ^ 31 - 1" "2 ^ 32 - 1"] by simp

lemma gm_read_bytes_length: "gm_read_bytes d a js base = Ok bs \<Longrightarrow> length bs = length js"
  by (induction js arbitrary: bs) (auto simp: bindR_Ok_iff mapR_Ok_iff)

lemma gather_length: "gather d bufs base = Ok bs \<Longrightarrow> length bs = sum_list (map (\<lambda>b. unat (buf_len b)) bufs)"
  by (induction bufs arbitrary: bs) (auto simp: bindR_Ok_iff mapR_Ok_iff dest: gm_read_bytes_length)

lemma read_chain_length:
  "read_chain d q base c i = Ok chain \<Longrightarrow> length c \<le> MAX_CHAIN_LEN \<Longrightarrow> length chain \<le> MAX_CHAIN_LEN"
proof (induction d q base c i arbitrary: chain rule: read_chain.induct)
  case (1 d q base c i)
  from "1.prems"(1) obtain desc where "length c < MAX_CHAIN_LEN"
    and r: "read_descriptor d (q + ucast i * 16) base = Ok desc"
    and rest: "(if desc_flags desc AND VIRTQ_DESC_F_NEXT = 0 then Ok (c @ [desc])
      else read_chain d q base (c @ [desc]) (desc_next desc)) = Ok chain"
    by (subst (asm) read_chain.simps) (auto simp: bindR_Ok_iff split: if_splits)
  then show ?case using "1.IH" [of desc chain] by (auto split: if_splits)
qed

lemma length_overwrite: "p + length bs \<le> length fs \<Longrightarrow> length (overwrite p bs fs) = length fs"
  by (simp add: overwrite_def)

subsection \<open>What a request may change\<close>

text \<open>
  The invariant of the queue processing: well-formed memory of length \<open>l\<close> and interrupt
  controller, an image of \<open>n\<close> bytes whose whole sectors are the capacity, the same
  callback \<open>c\<close>.
\<close>

definition vblk_inv :: "nat \<Rightarrow> nat \<Rightarrow> u32 option \<Rightarrow> vblk_ctx \<Rightarrow> bool" where
  "vblk_inv n l c s \<longleftrightarrow> dram_wf (vc_dram s) \<and> dram_len (vc_dram s) = l \<and>
     length (disk_bytes (vb_disk (vc_dev s))) = n \<and> n < 2 ^ 63 \<and> unat (vb_capacity (vc_dev s)) = n div 512 \<and>
     vb_callback (vc_dev s) = c \<and> plic_wf (vc_plic s)"

lemma vblk_inv_zoom:
  assumes "vblk_inv n l c s"
    and "dram_wf (snd (m (vc_dram s))) = dram_wf (vc_dram s)" "dram_len (snd (m (vc_dram s))) = dram_len (vc_dram s)"
  shows "vblk_inv n l c (snd (zoom_dram m s))"
  using assms by (simp add: zoom_dram_def vblk_inv_def)

lemmas vblk_bind_lift = bindS_inv_lift [where P = "vblk_inv n l c" for n l c]
lemmas vblk_bind = bindS_inv [where P = "vblk_inv n l c" for n l c]

lemma image_read_cases:
  "image_read offset n s = (r, s') \<Longrightarrow> \<exists>f. s' = set_disk f s \<and> disk_bytes f = disk_bytes (vb_disk (vc_dev s))"
  by (auto simp: image_read_def disk_seek_def disk_read_exact_def split: if_splits)

lemma image_write_cases:
  "image_write offset bs s = (r, s') \<Longrightarrow> unat offset + length bs \<le> length (disk_bytes (vb_disk (vc_dev s))) \<Longrightarrow>
   \<exists>f. s' = set_disk f s \<and> length (disk_bytes f) = length (disk_bytes (vb_disk (vc_dev s)))"
  by (auto simp: image_write_def disk_seek_def disk_write_all_def length_overwrite split: if_splits option.splits)

lemma vblk_inv_disk:
  "vblk_inv n l c s \<Longrightarrow> length (disk_bytes f) = length (disk_bytes (vb_disk (vc_dev s))) \<Longrightarrow> vblk_inv n l c (set_disk f s)"
  by (simp add: vblk_inv_def set_disk_def)

lemma scatter_frame:
  "dram_wf (snd (scatter bufs off bytes base d)) = dram_wf d \<and> dram_len (snd (scatter bufs off bytes base d)) = dram_len d"
proof (induction bufs arbitrary: off d)
  case Nil
  then show ?case by simp
next
  case (Cons b bufs)
  let ?w = "gm_write_bytes (buf_addr b) 0 (take (unat (buf_len b)) (drop off bytes)) base"
  obtain r d' where w: "?w d = (r, d')" by fastforce
  then have "dram_wf d' = dram_wf d \<and> dram_len d' = dram_len d"
    using gm_write_bytes_wf [of "buf_addr b" 0 "take (unat (buf_len b)) (drop off bytes)" base d] by simp
  with Cons.IH [of "off + unat (buf_len b)" d'] w show ?case
    by (cases r) (simp_all add: Let_def bindS_def)
qed

lemma handle_read_inv:
  assumes "vblk_inv n l c s"
  shows "vblk_inv n l c (snd (handle_read_request_sg sector bufs base s))"
proof -
  have fetch: "vblk_inv n l c (snd (case image_read offset k s of (None, s') \<Rightarrow> (Ok 2, s')
      | (Some disk_buffer, s') \<Rightarrow> zoom_dram (scatter bufs 0 disk_buffer base) s'))" for offset k
  proof (cases "image_read offset k s")
    case (Pair r s')
    with image_read_cases [OF Pair] assms have "vblk_inv n l c s'" by (auto intro: vblk_inv_disk)
    with Pair show ?thesis by (cases r) (auto intro: vblk_inv_zoom simp: scatter_frame)
  qed
  show ?thesis
    unfolding handle_read_request_sg_def Let_def
    by (auto intro!: vblk_bind_lift assms fetch)
qed

text \<open>The capacity check keeps a transfer inside the image.\<close>

lemma sector_bound:
  assumes "add_ck sector ((t + SECTOR_SIZE - 1) div SECTOR_SIZE) = Ok lst" and "\<not> cap < lst"
    and "unat cap = n div 512" and "unat t < 2 ^ 63" and "mul_ck sector SECTOR_SIZE = Ok offset"
  shows "unat offset + unat t \<le> n \<and> unat offset = unat sector * 512"
proof -
  have off: "unat offset = unat sector * 512"
    using assms(5) by (auto simp: mul_ck_def unat_word_ariths split: if_splits)
  have "unat (511 + t) = unat t + 511" using assms(4) unat_add_small [of 511 t] by simp
  then have "unat ((t + SECTOR_SIZE - 1) div SECTOR_SIZE) = (unat t + 511) div 512"
    unfolding unat_div by simp
  with add_ck_Ok [OF assms(1)] have "unat lst = unat sector + (unat t + 511) div 512" by simp
  moreover have "unat lst \<le> n div 512" using assms(2,3) by (simp add: word_less_nat_alt)
  ultimately show ?thesis using off by linarith
qed

lemma handle_write_inv:
  assumes "vblk_inv n l c s" and "length bufs < 2 ^ 31"
  shows "vblk_inv n l c (snd (handle_write_request_sg sector bufs base s))"
proof -
  have store: "vblk_inv n l c (snd (case image_write offset bytes s of (ok, s') \<Rightarrow> (Ok (if ok then 0 else 2), s')))"
    if ck: "add_ck sector ((total_len bufs + SECTOR_SIZE - 1) div SECTOR_SIZE) = Ok lst" "\<not> vb_capacity (vc_dev s) < lst"
      "mul_ck sector SECTOR_SIZE = Ok offset" and g: "gather (vc_dram s) bufs base = Ok bytes"
    for lst bytes offset
  proof (cases "image_write offset bytes s")
    case (Pair r s')
    have "unat offset + length bytes \<le> n"
      using sector_bound [OF ck(1,2) _ total_len_small [OF assms(2)] ck(3), of n] assms(1) gather_length [OF g]
      by (simp add: vblk_inv_def sum_lens_unat [OF assms(2)])
    with image_write_cases [OF Pair] assms(1) have "vblk_inv n l c s'"
      by (auto simp: vblk_inv_def [of _ _ _ s] intro!: vblk_inv_disk)
    with Pair show ?thesis by simp
  qed
  show ?thesis
    unfolding handle_write_request_sg_def Let_def
    by (auto simp: not_less [symmetric] simp del: not_less intro!: vblk_bind_lift assms store)
qed

lemma vblk_dispatch_inv:
  assumes "vblk_inv n l c s" and "length bufs < 2 ^ 31"
  shows "vblk_inv n l c (snd (vblk_dispatch header bufs t base s))"
proof -
  have id: "vblk_inv n l c (snd (handle_get_id_request a len base s))" for a len
    unfolding handle_get_id_request_def Let_def
    by (intro vblk_bind vblk_inv_zoom assms(1)) (simp_all add: frame_simps)
  show ?thesis
    unfolding vblk_dispatch_def
    using handle_read_inv [OF assms(1)] handle_write_inv [OF assms] id assms(1)
    by (auto intro!: vblk_bind vblk_bind_lift simp: handle_flush_request_def split: list.split)
qed

lemma vblk_request_inv:
  assumes "vblk_inv n l c s"
  shows "vblk_inv n l c (snd (vblk_request q base used_idx s))"
proof -
  have buffers: "length (map (\<lambda>d. \<lparr>buf_addr = desc_addr d, buf_len = desc_len d\<rparr>) (butlast (tl chain))) < 2 ^ 31"
    if "read_chain (vc_dram s) (vq_addr q) base [] i = Ok chain" for i chain
    using read_chain_length [OF that] by simp
  show ?thesis
    unfolding vblk_request_def Let_def
    by (auto intro!: vblk_bind vblk_bind_lift vblk_inv_zoom vblk_dispatch_inv assms buffers simp: frame_simps simp del: length_map length_butlast length_tl)
qed

lemma vblk_loop_inv: "vblk_inv n l c s \<Longrightarrow> vblk_inv n l c (snd (ring_loop (vblk_request q base) a u s))"
  by (rule ring_loop_inv) (rule vblk_request_inv)

lemma vblk_trigger_inv: "vblk_inv n l c (vblk_trigger_interrupt s) = vblk_inv n l c s"
  by (simp add: vblk_trigger_interrupt_def vblk_inv_def Let_def frame_simps split: option.split)

lemma vblk_process_inv:
  assumes "vblk_inv n l c s"
  shows "vblk_inv n l c (snd (vblk_process_queue base s))"
  unfolding vblk_process_queue_def Let_def
  by (auto intro!: vblk_bind vblk_bind_lift vblk_inv_zoom vblk_loop_inv assms simp: frame_simps vblk_trigger_inv)

definition vblk_wf :: "vblk_ctx \<Rightarrow> bool" where
  "vblk_wf s \<longleftrightarrow> vblk_inv (length (disk_bytes (vb_disk (vc_dev s)))) (dram_len (vc_dram s)) (vb_callback (vc_dev s)) s"

text \<open>A freshly built device over a memory is well formed, also with the callback installed.\<close>

lemma vblk_new_wf:
  assumes "vblk_new f = Ok vb" and "length (disk_bytes f) < 2 ^ 63" and "dram_wf d" and "plic_wf p"
  shows "vblk_wf \<lparr>vc_dev = vblk_set_interrupt_callback irq vb, vc_dram = d, vc_plic = p\<rparr>"
  using assms
  by (auto simp: vblk_new_def vblk_wf_def vblk_inv_def vblk_set_interrupt_callback_def unat_div unat_of_nat
      take_bit_nat_eq_self split: if_splits)

definition vblk_example :: "u8 list \<Rightarrow> vblk_ctx" where
  "vblk_example bs =
     \<lparr>vc_dev = vblk_set_interrupt_callback 2 (case vblk_new \<lparr>disk_bytes = bs, disk_pos = 0, disk_meta_ok = True,
        disk_seek_ok = True, disk_read_ok = True, disk_sync_ok = True, disk_write_limit = None\<rparr> of Ok vb \<Rightarrow> vb),
      vc_dram = dram_new le_byteorder 65536, vc_plic = plic_new\<rparr>"

lemma vblk_example_wf: "length bs < 2 ^ 63 \<Longrightarrow> vblk_wf (vblk_example bs)"
  unfolding vblk_example_def
  by (rule vblk_new_wf) (auto simp: vblk_new_def plic_new_wf intro!: dram_new_wf le_instance.little_endian_axioms)

text \<open>
  Property C27. No guest request, however malformed, changes the size of the disk image or
  the capacity the device reports, on success, on an error, or on a panic.
\<close>

theorem vblk_image_size_kept:
  assumes "vblk_wf s"
  shows "length (disk_bytes (vb_disk (vc_dev (snd (vblk_process_queue base s))))) = length (disk_bytes (vb_disk (vc_dev s))) \<and>
    vb_capacity (vc_dev (snd (vblk_process_queue base s))) = vb_capacity (vc_dev s)"
  using vblk_process_inv [OF assms [unfolded vblk_wf_def], of base] assms
  by (auto simp: vblk_inv_def vblk_wf_def word_unat_eq_iff)

theorem vblk_image_size_kept_witness:
  "length (disk_bytes (vb_disk (vc_dev (snd (vblk_process_queue 0 (vblk_example (replicate 1024 7))))))) = 1024"
  using vblk_image_size_kept [OF vblk_example_wf, of "replicate 1024 7" 0]
  by (simp add: vblk_example_def vblk_set_interrupt_callback_def vblk_new_def)

subsection \<open>Draining the queue\<close>

lemma vblk_trigger_dram: "vc_dram (vblk_trigger_interrupt s) = vc_dram s"
  by (simp add: vblk_trigger_interrupt_def Let_def split: option.split)

lemma vblk_trigger_raises:
  "bit (vb_interrupt_status (vc_dev (vblk_trigger_interrupt s))) 0 \<and>
   (\<forall>irq. vb_callback (vc_dev s) = Some irq \<and> 0 < irq \<and> irq \<le> 1023 \<longrightarrow>
      irq_pending (vc_plic (vblk_trigger_interrupt s)) (unat irq))"
  by (auto simp: vblk_trigger_interrupt_def Let_def bit_simps plic_set_pending_line split: option.split)

text \<open>The status of a request, and the length reported for it.\<close>

lemma scatter_status: "scatter bufs off bytes base d = (Ok st, d') \<Longrightarrow> st \<in> {0, 2}"
  by (induction bufs off bytes base d rule: scatter.induct)
    (auto simp: Let_def bindS_def split: if_splits prod.splits result.splits)

lemma handle_read_status: "handle_read_request_sg sector bufs base s = (Ok st, s') \<Longrightarrow> st \<in> {0, 2}"
  by (auto simp: handle_read_request_sg_def Let_def bindS_def zoom_dram_def zoomS_def
      split: if_splits prod.splits result.splits option.splits dest: scatter_status)

lemma handle_write_status: "handle_write_request_sg sector bufs base s = (Ok st, s') \<Longrightarrow> st \<in> {0, 2}"
  by (auto simp: handle_write_request_sg_def Let_def bindS_def split: if_splits prod.splits result.splits)

definition reported_len :: "u32 \<Rightarrow> nat list \<Rightarrow> nat" where
  "reported_len req_type lens =
     1 + (if req_type = VIRTIO_BLK_T_IN then sum_list lens
          else if req_type = VIRTIO_BLK_T_GET_ID \<and> lens \<noteq> [] then hd lens else 0)"

lemma sum_u32_sum: "sum_u32 acc vs = Ok t \<Longrightarrow> unat t = unat acc + sum_list (map unat vs)"
  by (induction acc vs rule: sum_u32.induct) (auto simp: bindR_Ok_iff add_ck_def unat_word_ariths split: if_splits)

lemma vblk_dispatch_result:
  assumes "vblk_dispatch header bufs t base s = (Ok (st, len), s')"
    and "sum_u32 0 (map buf_len bufs) = Ok t"
  shows "st \<in> {0, 2}" and "unat len = reported_len (hdr_req_type header) (map (\<lambda>b. unat (buf_len b)) bufs)"
    and "hdr_req_type header \<notin> {VIRTIO_BLK_T_IN, VIRTIO_BLK_T_OUT, VIRTIO_BLK_T_FLUSH, VIRTIO_BLK_T_GET_ID} \<Longrightarrow> st = 2"
proof -
  have t: "unat t = sum_list (map (\<lambda>b. unat (buf_len b)) bufs)"
    using sum_u32_sum [OF assms(2)] by (simp add: comp_def)
  have id: "x = 0" if "handle_get_id_request a n base u = (Ok x, u')" for a n u x u'
    using that by (auto simp: handle_get_id_request_def Let_def bindS_def returnS_def split: prod.splits result.splits)
  let ?lens = "map (\<lambda>b. unat (buf_len b)) bufs"
  have "st \<in> {0, 2} \<and> unat len = reported_len (hdr_req_type header) ?lens"
  proof (cases "hdr_req_type header \<in> {VIRTIO_BLK_T_IN, VIRTIO_BLK_T_GET_ID}")
    case False
    then show ?thesis
      using assms(1) handle_write_status
      by (auto simp: vblk_dispatch_def bindS_def returnS_def handle_flush_request_def reported_len_def
          split: if_splits prod.splits result.splits)
  next
    case True
    then consider "hdr_req_type header = VIRTIO_BLK_T_IN" | "hdr_req_type header = VIRTIO_BLK_T_GET_ID" by blast
    then show ?thesis
    proof cases
      case 1
      then show ?thesis
        using assms(1) handle_read_status t
        by (auto simp: vblk_dispatch_def bindS_def returnS_def reported_len_def add_ck_def unat_word_ariths
            split: if_splits prod.splits result.splits)
    next
      case 2
      then show ?thesis
        using assms(1) id
        by (cases bufs) (auto simp: vblk_dispatch_def bindS_def returnS_def reported_len_def add_ck_def unat_word_ariths
            split: if_splits prod.splits result.splits)
    qed
  qed
  then show "st \<in> {0, 2}" "unat len = reported_len (hdr_req_type header) ?lens" by blast+
  show "st = 2"
    if "hdr_req_type header \<notin> {VIRTIO_BLK_T_IN, VIRTIO_BLK_T_OUT, VIRTIO_BLK_T_FLUSH, VIRTIO_BLK_T_GET_ID}"
    using assms(1) that by (auto simp: vblk_dispatch_def returnS_def split: if_splits)
qed

text \<open>
  What serving the request at a ring index means for the driver: its chain is answered with
  the length of the request, and the status byte, where it does not lie in the used entry
  itself, says done or failed, and failed for a request of an unknown type.
\<close>

definition vblk_served :: "virtq \<Rightarrow> u64 \<Rightarrow> u16 \<Rightarrow> vblk_ctx \<Rightarrow> vblk_ctx \<Rightarrow> bool" where
  "vblk_served q base idx s s' \<longleftrightarrow>
     (\<exists>head chain header len st.
        answered q base idx (vc_dram s) (vc_dram s') head len \<and>
        read_chain (vc_dram s) (vq_addr q) base [] head = Ok chain \<and> 2 \<le> length chain \<and>
        read_request_header (vc_dram s) (desc_addr (hd chain)) base = Ok header \<and>
        unat len = reported_len (hdr_req_type header) (map (\<lambda>d. unat (desc_len d)) (butlast (tl chain))) \<and>
        st \<in> {0, 2} \<and> (hdr_req_type header \<notin> {0, 1, 4, 8} \<longrightarrow> st = 2) \<and>
        (outside base (desc_addr (last chain)) 1 (used_slot q idx) 8 \<longrightarrow>
           gm_read_u8 (vc_dram s') (desc_addr (last chain)) base = Ok st))"

lemma gm_write_u8_Ok:
  assumes "dram_wf d" and "gm_write_u8 a v base d = (Ok (), d')"
  shows "base \<le> a" and "unat (a - base) < dram_len d" and "d' = dram_put d (unat (a - base)) [v]"
    and "dram_wf d'" and "dram_len d' = dram_len d"
proof -
  show le: "base \<le> a" and inm: "unat (a - base) < dram_len d"
    using assms by (auto simp: gm_write_u8_def bindS_def sub_ck_def dram_write8_def split: if_splits)
  show "d' = dram_put d (unat (a - base)) [v]"
    using dram_write_in(4) [OF assms(1) inm, of v] assms(2) le
    by (simp add: gm_write_u8_def sub_ck_def bindS_def)
  show "dram_wf d'" "dram_len d' = dram_len d"
    using assms gm_write_wf(1,2) [of a v base d] by simp_all
qed

lemma vblk_request_served:
  assumes "vblk_inv n l c s" and "vblk_request q base idx s = (Ok (), s')"
  shows "vblk_served q base idx s s'"
proof -
  obtain slot head chain header t where
    slot: "(mod_ck (ucast idx) (vq_num q) :: (u64, mem_error) result) = Ok slot"
    and head: "gm_read_u16 (vc_dram s) (vq_addr q + vq_avail_off q + 4 + slot * 2) base = Ok head"
    and chain: "read_chain (vc_dram s) (vq_addr q) base [] head = Ok chain" "\<not> length chain < 2"
    and header: "read_request_header (vc_dram s) (desc_addr (hd chain)) base = Ok header"
    and t: "sum_u32 0 (map buf_len (map (\<lambda>d. \<lparr>buf_addr = desc_addr d, buf_len = desc_len d\<rparr>) (butlast (tl chain)))) = Ok t"
    using assms(2) by (auto simp: vblk_request_def bindS_def Let_def split: result.splits if_splits)
  let ?bufs = "map (\<lambda>d. \<lparr>buf_addr = desc_addr d, buf_len = desc_len d\<rparr>) (butlast (tl chain))"
  have slots: "vq_addr q + vq_avail_off q + 4 + slot * 2 = avail_slot q idx"
    "vq_addr q + vq_used_off q + 4 + slot * 8 = used_slot q idx"
    using slot by (auto simp: mod_ck_def avail_slot_def used_slot_def split: if_splits)
  obtain st len s1 d1 d2 d3 where dis: "vblk_dispatch header ?bufs t base s = (Ok (st, len), s1)"
    and w1: "gm_write_u8 (desc_addr (last chain)) st base (vc_dram s1) = (Ok (), d1)"
    and w2: "gm_write_u32 (used_slot q idx) (ucast head) base d1 = (Ok (), d2)"
    and w3: "gm_write_u32 (used_slot q idx + 4) len base d2 = (Ok (), d3)" and s': "s' = s1\<lparr>vc_dram := d3\<rparr>"
    using assms(2) slot head chain header t
    by (auto simp: vblk_request_def bindS_def Let_def zoom_dram_def zoomS_def slots split: result.splits prod.splits)
  have "length ?bufs < 2 ^ 31" using read_chain_length [OF chain(1)] by simp
  then have wf: "dram_wf (vc_dram s1)"
    using vblk_dispatch_inv [OF assms(1), of ?bufs header t base] dis by (simp add: vblk_inv_def)
  note u8 = gm_write_u8_Ok [OF wf w1]
  note used = used_entry_written [OF u8(4) w2 w3]
  have "gm_read_u8 d3 (desc_addr (last chain)) base = Ok st"
    if "outside base (desc_addr (last chain)) 1 (used_slot q idx) 8"
  proof -
    have "dram_mem d3 (unat (desc_addr (last chain) - base)) = st"
      using used(5) [of "unat (desc_addr (last chain) - base)"] that u8(3)
      by (auto simp: outside_def dram_put_def blit_def)
    then show ?thesis
      using u8 used(3,4) dram_read_in(4) [of d3] by (simp add: gm_read_u8_def sub_ck_def)
  qed
  moreover have "unat len = reported_len (hdr_req_type header) (map (\<lambda>d. unat (desc_len d)) (butlast (tl chain)))"
    using vblk_dispatch_result(2) [OF dis t] by (simp add: comp_def)
  ultimately show ?thesis
    unfolding vblk_served_def answered_def
    using head chain header used(1,2) vblk_dispatch_result(1,3) [OF dis t] by (auto simp: slots s')
qed

text \<open>
  Property C25. The block device answers every published request, in ring order. When
  processing succeeds on a queue in place, the requests from the used index to the available
  index were served one after the other, each as \<open>vblk_served\<close> says; memory is then that
  after the last of them with the used index moved to the available index, and if anything
  was pending and the driver has not suppressed interrupts, the interrupt status bit and the
  device's line at the interrupt controller are raised.
\<close>

theorem vblk_queue_drained:
  assumes "vblk_wf s" and "vb_queue_pfn (vc_dev s) \<noteq> 0" and "vblk_process_queue base s = (Ok (), s')"
  shows "\<exists>q a u fl s1. vblk_layout (vc_dev s) = Ok q \<and>
    gm_read_u16 (vc_dram s) (vq_addr q + vq_avail_off q) base = Ok fl \<and>
    gm_read_u16 (vc_dram s) (vq_addr q + vq_avail_off q + 2) base = Ok a \<and>
    gm_read_u16 (vc_dram s) (vq_addr q + vq_used_off q + 2) base = Ok u \<and>
    rounds (vblk_served q base) u s (unat (a - u)) s1 \<and>
    vc_dram s' = (if a = u then vc_dram s1
                  else snd (gm_write_u16 (vq_addr q + vq_used_off q + 2) a base (vc_dram s1))) \<and>
    gm_read_u16 (vc_dram s') (vq_addr q + vq_used_off q + 2) base = Ok a \<and>
    (a \<noteq> u \<and> fl AND VRING_AVAIL_F_NO_INTERRUPT = 0 \<longrightarrow>
       bit (vb_interrupt_status (vc_dev s')) 0 \<and>
       (\<forall>irq. vb_callback (vc_dev s) = Some irq \<and> 0 < irq \<and> irq \<le> 1023 \<longrightarrow> irq_pending (vc_plic s') (unat irq)))"
proof -
  obtain q fl a u where q: "vblk_layout (vc_dev s) = Ok q"
    and fl: "gm_read_u16 (vc_dram s) (vq_addr q + vq_avail_off q) base = Ok fl"
    and a: "gm_read_u16 (vc_dram s) (vq_addr q + vq_avail_off q + 2) base = Ok a"
    and u: "gm_read_u16 (vc_dram s) (vq_addr q + vq_used_off q + 2) base = Ok u"
    using assms(2,3) by (auto simp: vblk_process_queue_def bindS_def Let_def split: result.splits)
  let ?used = "vq_addr q + vq_used_off q + 2"
  show ?thesis
  proof (cases "a = u")
    case True
    then have "s' = s" using assms(2,3) q fl a u by (auto simp: vblk_process_queue_def bindS_def Let_def)
    then show ?thesis using True q fl a u by (auto intro: rounds.no_round)
  next
    case False
    let ?I = "vblk_inv (length (disk_bytes (vb_disk (vc_dev s)))) (dram_len (vc_dram s)) (vb_callback (vc_dev s))"
    obtain v s1 where loop: "ring_loop (vblk_request q base) a u s = (Ok v, s1)"
      using assms(2,3) q fl a u False
      by (auto simp: vblk_process_queue_def bindS_def Let_def split: result.splits prod.splits)
    have ran: "v = a \<and> ?I s1 \<and> rounds (vblk_served q base) u s (unat (a - u)) s1"
      using assms(1) by (intro ring_loop_rounds [OF loop])
        (auto simp: vblk_wf_def intro: vblk_request_served, metis snd_conv vblk_request_inv)
    then obtain d where w: "gm_write_u16 ?used a base (vc_dram s1) = (Ok (), d)"
      and s': "s' = (if fl AND VRING_AVAIL_F_NO_INTERRUPT = 0 then vblk_trigger_interrupt (s1\<lparr>vc_dram := d\<rparr>) else s1\<lparr>vc_dram := d\<rparr>)"
      using assms(2,3) q fl a u False loop
      by (auto simp: vblk_process_queue_def bindS_def Let_def zoom_dram_def zoomS_def split: result.splits prod.splits)
    have "gm_read_u16 d ?used base = Ok a"
      using gm_read16_after_write16 [of "vc_dram s1" ?used a base] w ran by (simp add: vblk_inv_def)
    moreover have "vb_callback (vc_dev s1) = vb_callback (vc_dev s)" using ran by (simp add: vblk_inv_def)
    ultimately show ?thesis
      using q fl a u False ran w vblk_trigger_raises [of "s1\<lparr>vc_dram := d\<rparr>"] by (auto simp: s' vblk_trigger_dram)
  qed
qed

text \<open>
  A queue of two entries at page 1 with one flush request: header at \<open>0x3000\<close>, status byte
  at \<open>0x3100\<close>, the available ring at \<open>0x1020\<close>, the used ring at \<open>0x2000\<close>.
\<close>

definition vblk_flush_example :: vblk_ctx where
  "vblk_flush_example = (vblk_example [])
     \<lparr>vc_dev := (vc_dev (vblk_example []))\<lparr>vb_queue_num := 2, vb_queue_pfn := 1\<rparr>,
      vc_dram := (dram_new le_byteorder 16384)\<lparr>dram_mem := (\<lambda>_. 0)
        (0x1001 := 0x30, 0x1008 := 16, 0x100C := 1, 0x100E := 1,
         0x1011 := 0x31, 0x1018 := 1, 0x101C := 2, 0x1022 := 1, 0x3000 := 4)\<rparr>\<rparr>"

lemmas vblk_flush_ctx =
  vblk_flush_example_def vblk_example_def vblk_set_interrupt_callback_def vblk_new_def dram_new_def le_byteorder_def

lemmas vblk_reads =
  gm_read_u16_def gm_read_u32_def gm_read_u64_def dram_read16_def dram_read32_def dram_read64_def
  sub_ck_def add_ck_def slice_def upt_rec

lemmas vblk_writes =
  zoom_dram_def zoomS_def gm_write_u8_def gm_write_u16_def gm_write_u32_def sub_ck_def add_ck_def bindS_def
  dram_write8_def dram_write16_def dram_write32_def

lemma vblk_flush_runs: "fst (vblk_process_queue 0 vblk_flush_example) = Ok ()"
  apply (simp add: vblk_process_queue_def vblk_layout_def vblk_flush_ctx div_ck_def bindS_def vblk_reads Let_def)
  apply (simp add: ring_loop.simps vblk_request_def mod_ck_def bindS_def Let_def vblk_reads)
  apply (simp add: read_chain.simps read_descriptor_def vblk_reads)
  apply (simp add: read_request_header_def vblk_dispatch_def handle_flush_request_def vblk_reads bindS_def)
  apply (simp add: vblk_writes)
  apply (simp add: ring_loop.simps)
  apply (simp add: vblk_writes)
  done

lemma vblk_flush_wf: "vblk_wf vblk_flush_example"
  using vblk_example_wf [of "[]"] dram_new_wf [of 16384 le_byteorder] le_instance.little_endian_axioms
  by (simp add: vblk_wf_def vblk_inv_def vblk_flush_example_def dram_wf_def dram_new_def)

theorem vblk_queue_drained_witness:
  "(\<exists>s1. vblk_served \<lparr>vq_addr = 0x1000, vq_num = 2, vq_avail_off = 32, vq_used_off = 4096\<rparr> 0 0 vblk_flush_example s1 \<and>
     vc_dram (snd (vblk_process_queue 0 vblk_flush_example)) = snd (gm_write_u16 0x2002 1 0 (vc_dram s1))) \<and>
   gm_read_u16 (vc_dram (snd (vblk_process_queue 0 vblk_flush_example))) 0x2002 0 = Ok 1 \<and>
   irq_pending (vc_plic (snd (vblk_process_queue 0 vblk_flush_example))) 2"
proof -
  have pfn: "vb_queue_pfn (vc_dev vblk_flush_example) \<noteq> 0" and cb: "vb_callback (vc_dev vblk_flush_example) = Some 2"
    by (simp_all add: vblk_flush_ctx)
  have run: "vblk_process_queue 0 vblk_flush_example = (Ok (), snd (vblk_process_queue 0 vblk_flush_example))"
    using vblk_flush_runs by (metis prod.collapse)
  have lay: "vblk_layout (vc_dev vblk_flush_example) =
      Ok \<lparr>vq_addr = 0x1000, vq_num = 2, vq_avail_off = 32, vq_used_off = 4096\<rparr>"
    by (simp add: vblk_layout_def vblk_flush_ctx div_ck_def)
  have rd: "gm_read_u16 (vc_dram vblk_flush_example) 0x1020 0 = Ok 0"
      "gm_read_u16 (vc_dram vblk_flush_example) 0x1022 0 = Ok 1"
      "gm_read_u16 (vc_dram vblk_flush_example) 0x2002 0 = Ok 0"
    by (simp_all add: vblk_flush_ctx vblk_reads)
  show ?thesis
    using vblk_queue_drained [OF vblk_flush_wf pfn run] by (auto simp add: lay rd cb rounds_1)
qed

subsection \<open>Reading back what was written\<close>

abbreviation buf_start :: "u64 \<Rightarrow> data_buffer \<Rightarrow> nat" where
  "buf_start base b \<equiv> unat (buf_addr b) - unat base"

abbreviation buf_length :: "data_buffer \<Rightarrow> nat" where
  "buf_length b \<equiv> unat (buf_len b)"

text \<open>Buffers that lie in main memory and do not overlap.\<close>

definition bufs_ok :: "dram \<Rightarrow> u64 \<Rightarrow> data_buffer list \<Rightarrow> bool" where
  "bufs_ok d base bufs \<longleftrightarrow> (\<forall>b \<in> set bufs. gm_ok d base (buf_addr b) (buf_length b))"

definition bufs_disjoint :: "u64 \<Rightarrow> data_buffer list \<Rightarrow> bool" where
  "bufs_disjoint base = sorted_wrt (\<lambda>b b'. buf_start base b + buf_length b \<le> buf_start base b' \<or>
     buf_start base b' + buf_length b' \<le> buf_start base b)"

definition bufs_contents :: "u64 \<Rightarrow> data_buffer list \<Rightarrow> (nat \<Rightarrow> u8) \<Rightarrow> u8 list" where
  "bufs_contents base bufs m = concat (map (\<lambda>b. slice m (buf_start base b) (buf_length b)) bufs)"

lemma slice_alt: "slice m a n = map (\<lambda>j. m (a + j)) [0..<n]"
  by (rule nth_equalityI) simp_all

lemma gather_in:
  assumes "dram_wf d" and "bufs_ok d base bufs"
  shows "gather d bufs base = Ok (bufs_contents base bufs (dram_mem d))"
  using assms(2)
proof (induction bufs)
  case Nil
  then show ?case by (simp add: bufs_contents_def)
next
  case (Cons b bufs)
  have "gm_read_bytes d (buf_addr b) [0..<buf_length b] base = Ok (slice (dram_mem d) (buf_start base b) (buf_length b))"
    using gm_read_bytes_in [OF assms(1), of base "buf_addr b" "buf_length b" "[0..<buf_length b]"] Cons.prems
    by (simp add: bufs_ok_def slice_alt)
  with Cons show ?case by (simp add: bufs_contents_def bufs_ok_def)
qed

lemma bufs_contents_cong:
  "(\<And>b i. b \<in> set bufs \<Longrightarrow> buf_start base b \<le> i \<Longrightarrow> i < buf_start base b + buf_length b \<Longrightarrow> m i = m' i) \<Longrightarrow>
   bufs_contents base bufs m = bufs_contents base bufs m'"
  unfolding bufs_contents_def by (intro arg_cong [where f = concat] map_cong refl slice_cong) auto

lemma scatter_in:
  assumes "dram_wf d" and "bufs_ok d base bufs" and "bufs_disjoint base bufs"
    and "off + sum_list (map buf_length bufs) \<le> length bytes"
  shows "\<exists>d'. scatter bufs off bytes base d = (Ok 0, d') \<and> dram_wf d' \<and> dram_len d' = dram_len d \<and>
    bufs_contents base bufs (dram_mem d') = take (sum_list (map buf_length bufs)) (drop off bytes) \<and>
    (\<forall>i. (\<forall>b \<in> set bufs. i < buf_start base b \<or> buf_start base b + buf_length b \<le> i) \<longrightarrow> dram_mem d' i = dram_mem d i)"
  using assms
proof (induction bufs arbitrary: off d)
  case Nil
  then show ?case by (simp add: bufs_contents_def)
next
  case (Cons b bufs)
  define bs where "bs = take (buf_length b) (drop off bytes)"
  define d1 where "d1 = dram_put d (buf_start base b) bs"
  have len: "length bs = buf_length b" using Cons.prems(4) by (simp add: bs_def)
  have w: "gm_write_bytes (buf_addr b) 0 bs base d = (Ok (), d1)"
    using gm_write_bytes_in [of d base "buf_addr b" 0 bs] Cons.prems(1,2) by (simp add: len d1_def bufs_ok_def)
  have d1: "dram_wf d1" "dram_len d1 = dram_len d" using Cons.prems(1) by (simp_all add: d1_def)
  have ok1: "bufs_ok d1 base bufs" using Cons.prems(2) d1 by (simp add: bufs_ok_def gm_ok_def)
  from Cons.IH [OF d1(1) ok1, of "off + buf_length b"] Cons.prems(3,4)
  obtain d' where sc: "scatter bufs (off + buf_length b) bytes base d1 = (Ok 0, d')"
    and wf: "dram_wf d'" "dram_len d' = dram_len d1"
    and cont: "bufs_contents base bufs (dram_mem d') = take (sum_list (map buf_length bufs)) (drop (off + buf_length b) bytes)"
    and fr: "\<And>i. \<forall>b \<in> set bufs. i < buf_start base b \<or> buf_start base b + buf_length b \<le> i \<Longrightarrow> dram_mem d' i = dram_mem d1 i"
    by (auto simp: bufs_disjoint_def add.assoc)
  have "slice (dram_mem d') (buf_start base b) (buf_length b) = slice (dram_mem d1) (buf_start base b) (buf_length b)"
    using Cons.prems(3) by (intro slice_cong fr) (fastforce simp: bufs_disjoint_def)
  also have "\<dots> = bs" by (simp add: d1_def len)
  finally have here: "slice (dram_mem d') (buf_start base b) (buf_length b) = bs" .
  have "bufs_contents base (b # bufs) (dram_mem d') = take (sum_list (map buf_length (b # bufs))) (drop off bytes)"
    using here cont by (simp add: bufs_contents_def bs_def take_add add.commute)
  moreover have "dram_mem d' i = dram_mem d i"
    if "\<forall>b \<in> set (b # bufs). i < buf_start base b \<or> buf_start base b + buf_length b \<le> i" for i
    using that fr [of i] len by (auto simp: d1_def blit_def)
  ultimately show ?case
    using w sc wf d1(2) Cons.prems(4) by (simp add: Let_def bindS_def bs_def [symmetric])
qed

lemma overwrite_back: "p + length bs \<le> length fs \<Longrightarrow> take (length bs) (drop p (overwrite p bs fs)) = bs"
  by (simp add: overwrite_def)

text \<open>What a successful write request has done.\<close>

lemma handle_write_ok:
  assumes "handle_write_request_sg sector bufs base s = (Ok 0, s1)" and "vblk_wf s" and "length bufs < 2 ^ 31"
  obtains lst offset bytes where
    "(add_ck sector ((total_len bufs + SECTOR_SIZE - 1) div SECTOR_SIZE) :: (u64, mem_error) result) = Ok lst"
    "\<not> vb_capacity (vc_dev s) < lst" "(mul_ck sector SECTOR_SIZE :: (u64, mem_error) result) = Ok offset"
    "gather (vc_dram s) bufs base = Ok bytes" "disk_seek_ok (vb_disk (vc_dev s))"
    "unat offset + length bytes \<le> length (disk_bytes (vb_disk (vc_dev s)))" "length bytes = unat (total_len bufs)"
    "s1 = set_disk ((vb_disk (vc_dev s))\<lparr>disk_bytes := overwrite (unat offset) bytes (disk_bytes (vb_disk (vc_dev s))),
       disk_pos := unat offset + length bytes\<rparr>) s"
proof -
  obtain lst offset bytes f where
    ck: "(add_ck sector ((total_len bufs + SECTOR_SIZE - 1) div SECTOR_SIZE) :: (u64, mem_error) result) = Ok lst"
      "\<not> vb_capacity (vc_dev s) < lst" "(mul_ck sector SECTOR_SIZE :: (u64, mem_error) result) = Ok offset"
    and g: "gather (vc_dram s) bufs base = Ok bytes" and w: "image_write offset bytes s = (True, s1)"
    using assms(1)
    by (auto simp: handle_write_request_sg_def Let_def bindS_def split: result.splits if_splits prod.splits)
  have len: "length bytes = unat (total_len bufs)"
    using gather_length [OF g] by (simp add: sum_lens_unat [OF assms(3)])
  have "unat offset + length bytes \<le> length (disk_bytes (vb_disk (vc_dev s)))"
    using sector_bound [OF ck(1,2) _ total_len_small [OF assms(3)] ck(3), of "length (disk_bytes (vb_disk (vc_dev s)))"]
      assms(2) len by (simp add: vblk_wf_def vblk_inv_def)
  moreover have "disk_seek_ok (vb_disk (vc_dev s))" and
    "s1 = set_disk ((vb_disk (vc_dev s))\<lparr>disk_bytes := overwrite (unat offset) bytes (disk_bytes (vb_disk (vc_dev s))),
       disk_pos := unat offset + length bytes\<rparr>) s"
    using w by (auto simp: image_write_def disk_seek_def disk_write_all_def split: if_splits option.splits)
  ultimately show thesis using that ck g len by blast
qed

text \<open>
  Property C26. The disk is a disk: a write request that reports success, followed by a read
  request of the same sectors and length into any non-overlapping buffers in memory,
  reports success and leaves in those buffers, in order, the bytes gathered by the write.
\<close>

theorem vblk_write_then_read:
  assumes "vblk_wf s" and "length bufs < 2 ^ 31" and "length bufs' < 2 ^ 31"
    and "handle_write_request_sg sector bufs base s = (Ok 0, s1)"
    and "total_len bufs' = total_len bufs"
    and "bufs_ok (vc_dram s) base bufs" and "bufs_ok (vc_dram s) base bufs'" and "bufs_disjoint base bufs'"
    and "disk_read_ok (vb_disk (vc_dev s))"
  shows "\<exists>s2. handle_read_request_sg sector bufs' base s1 = (Ok 0, s2) \<and>
    bufs_contents base bufs' (dram_mem (vc_dram s2)) = bufs_contents base bufs (dram_mem (vc_dram s))"
proof -
  have wf: "dram_wf (vc_dram s)" using assms(1) by (simp add: vblk_wf_def vblk_inv_def)
  obtain lst offset bytes where
    ck: "(add_ck sector ((total_len bufs + SECTOR_SIZE - 1) div SECTOR_SIZE) :: (u64, mem_error) result) = Ok lst"
      "\<not> vb_capacity (vc_dev s) < lst" "(mul_ck sector SECTOR_SIZE :: (u64, mem_error) result) = Ok offset"
    and g: "gather (vc_dram s) bufs base = Ok bytes" and sk: "disk_seek_ok (vb_disk (vc_dev s))"
    and bound: "unat offset + length bytes \<le> length (disk_bytes (vb_disk (vc_dev s)))"
    and len: "length bytes = unat (total_len bufs)"
    and s1: "s1 = set_disk ((vb_disk (vc_dev s))\<lparr>disk_bytes := overwrite (unat offset) bytes (disk_bytes (vb_disk (vc_dev s))),
       disk_pos := unat offset + length bytes\<rparr>) s"
    using handle_write_ok [OF assms(4,1,2)] .
  have bytes: "bytes = bufs_contents base bufs (dram_mem (vc_dram s))"
    using g gather_in [OF wf assms(6)] by simp
  let ?f = "(vb_disk (vc_dev s1))\<lparr>disk_pos := unat offset + length bytes\<rparr>"
  have rd: "image_read offset (unat (total_len bufs)) s1 = (Some bytes, set_disk ?f s1)"
    using bound sk assms(9) overwrite_back [OF bound]
    by (simp add: image_read_def disk_seek_def disk_read_exact_def s1 set_disk_def len [symmetric] length_overwrite)
  have sum': "sum_list (map buf_length bufs') = length bytes"
    using sum_lens_unat [OF assms(3)] assms(5) len by simp
  obtain d' where sc: "scatter bufs' 0 bytes base (vc_dram s) = (Ok 0, d')"
    and cont: "bufs_contents base bufs' (dram_mem d') = bytes"
    using scatter_in [OF wf assms(7,8), of 0 bytes] sum' by auto
  have same: "vc_dram (set_disk ?f s1) = vc_dram s" "vb_capacity (vc_dev s1) = vb_capacity (vc_dev s)"
    by (simp_all add: s1 set_disk_def)
  have "handle_read_request_sg sector bufs' base s1 = (Ok 0, (set_disk ?f s1)\<lparr>vc_dram := d'\<rparr>)"
    using ck rd sc same by (simp add: handle_read_request_sg_def Let_def bindS_def assms(5) zoom_dram_def zoomS_def)
  then show ?thesis using cont bytes by auto
qed

theorem vblk_write_then_read_witness:
  "\<exists>s1 s2. handle_write_request_sg 1 [\<lparr>buf_addr = 0x100, buf_len = 3\<rparr>] 0 (vblk_example (replicate 1024 7)) = (Ok 0, s1) \<and>
    handle_read_request_sg 1 [\<lparr>buf_addr = 0x300, buf_len = 2\<rparr>, \<lparr>buf_addr = 0x200, buf_len = 1\<rparr>] 0 s1 = (Ok 0, s2) \<and>
    bufs_contents 0 [\<lparr>buf_addr = 0x300, buf_len = 2\<rparr>, \<lparr>buf_addr = 0x200, buf_len = 1\<rparr>] (dram_mem (vc_dram s2)) = [0, 0, 0]"
proof -
  let ?s = "vblk_example (replicate 1024 7)"
  let ?w = "[\<lparr>buf_addr = 0x100, buf_len = 3\<rparr>]"
  let ?r = "[\<lparr>buf_addr = 0x300, buf_len = 2\<rparr>, \<lparr>buf_addr = 0x200, buf_len = 1\<rparr>]"
  have wf: "vblk_wf ?s" by (rule vblk_example_wf) simp
  have flds: "dram_wf (vc_dram ?s)" "dram_len (vc_dram ?s) = 65536" "dram_mem (vc_dram ?s) = (\<lambda>_. 0)"
    using wf by (simp_all add: vblk_wf_def vblk_inv_def vblk_example_def dram_new_def)
  have ok: "bufs_ok (vc_dram ?s) 0 ?w" "bufs_ok (vc_dram ?s) 0 ?r" by (simp_all add: bufs_ok_def gm_ok_def flds)
  have tot: "total_len ?r = total_len ?w" by (simp add: total_len_def)
  have g: "gather (vc_dram ?s) ?w 0 = Ok [0, 0, 0]"
    using gather_in [OF flds(1) ok(1)] by (simp add: bufs_contents_def slice_def flds upt_rec)
  obtain s1 where w: "handle_write_request_sg 1 ?w 0 ?s = (Ok 0, s1)"
    using g by (auto simp: handle_write_request_sg_def Let_def total_len_def bindS_def add_ck_def mul_ck_def
      image_write_def disk_seek_def disk_write_all_def vblk_example_def vblk_new_def vblk_set_interrupt_callback_def)
  have rok: "disk_read_ok (vb_disk (vc_dev ?s))"
    by (simp add: vblk_example_def vblk_new_def vblk_set_interrupt_callback_def)
  have "\<exists>s2. handle_read_request_sg 1 ?r 0 s1 = (Ok 0, s2) \<and>
      bufs_contents 0 ?r (dram_mem (vc_dram s2)) = bufs_contents 0 ?w (dram_mem (vc_dram ?s))"
    by (rule vblk_write_then_read [OF wf _ _ w tot ok _ rok]) (simp_all add: bufs_disjoint_def)
  moreover have "bufs_contents 0 ?w (dram_mem (vc_dram ?s)) = [0, 0, 0]"
    by (simp add: bufs_contents_def slice_def flds upt_rec)
  ultimately show ?thesis using w by auto
qed

text \<open>
  Property C40. A driver can stop the emulator: with a queue in place and the queue alignment
  register set to 0, the next notification divides by zero.
\<close>

theorem vblk_zero_align_panics:
  "vb_queue_pfn (vc_dev s) \<noteq> 0 \<Longrightarrow>
   fst (vblk_process_queue base (s\<lparr>vc_dev := vblk_set 0x03c 0 (vc_dev s)\<rparr>)) = Panic"
  by (simp add: vblk_process_queue_def vblk_write32_def vblk_layout_def div_ck_def bindS_def)

theorem vblk_zero_align_panics_witness:
  "fst (vblk_process_queue 0 (vblk_flush_example\<lparr>vc_dev := vblk_set 0x03c 0 (vc_dev vblk_flush_example)\<rparr>)) = Panic"
  by (rule vblk_zero_align_panics) (simp add: vblk_flush_ctx)

end
