(* ===== verification/VirtioRng.thy ===== *)
theory VirtioRng
  imports Prelude Dram Plic Virtq
begin

text \<open>
  \<open>src/src/virtio_rng.rs\<close>: the random number device. \<open>vr_source\<close> is what
  \<open>/dev/urandom\<close> will deliver (\<open>None\<close> when it could not be opened), \<open>vr_clock\<close> the next
  answers of the system clock in nanoseconds, which seed the fallback generator.
\<close>

record vrng =
  vr_status :: u32
  vr_queue_sel :: u32
  vr_queue_num :: u32
  vr_queue_pfn :: u32
  vr_queue_ready :: bool
  vr_driver_features :: u64
  vr_device_features_sel :: u32
  vr_driver_features_sel :: u32
  vr_interrupt_status :: u32
  vr_source :: "u8 list option"
  vr_clock :: "nat \<Rightarrow> u64"
  vr_callback :: "u32 option"

definition vrng_new :: "u8 list option \<Rightarrow> (nat \<Rightarrow> u64) \<Rightarrow> vrng" where
  "vrng_new src clock =
     \<lparr>vr_status = 0, vr_queue_sel = 0, vr_queue_num = 0, vr_queue_pfn = 0, vr_queue_ready = False,
      vr_driver_features = 0, vr_device_features_sel = 0, vr_driver_features_sel = 0, vr_interrupt_status = 0,
      vr_source = src, vr_clock = clock, vr_callback = None\<rparr>"

definition vrng_set_interrupt_callback :: "u32 \<Rightarrow> vrng \<Rightarrow> vrng" where
  "vrng_set_interrupt_callback irq vr = vr\<lparr>vr_callback := Some irq\<rparr>"

type_synonym vrng_ctx = "vrng virtio_ctx"

definition vrng_trigger_interrupt :: "vrng_ctx \<Rightarrow> vrng_ctx" where
  "vrng_trigger_interrupt s =
     (let s1 = s\<lparr>vc_dev := (vc_dev s)\<lparr>vr_interrupt_status := vr_interrupt_status (vc_dev s) OR 1\<rparr>\<rparr> in
      case vr_callback (vc_dev s1) of
        Some irq \<Rightarrow> s1\<lparr>vc_plic := plic_set_pending irq (vc_plic s1)\<rparr>
      | None \<Rightarrow> s1)"

subsection \<open>Random bytes\<close>

definition xorshift :: "u64 \<Rightarrow> u64" where
  "xorshift s0 =
     (let s1 = s0 XOR push_bit 13 s0; s2 = s1 XOR drop_bit 7 s1 in s2 XOR push_bit 17 s2)"

fun xorshift_bytes :: "nat \<Rightarrow> u64 \<Rightarrow> u8 list" where
  "xorshift_bytes 0 st = []"
| "xorshift_bytes (Suc n) st = (let st' = xorshift st in ucast st' # xorshift_bytes n st')"

text \<open>A source that runs dry is used up by the failed \<open>read_exact\<close>.\<close>

definition generate_random_bytes :: "nat \<Rightarrow> vrng \<Rightarrow> u8 list \<times> vrng" where
  "generate_random_bytes count vr =
     (case vr_source vr of
        Some bs \<Rightarrow>
          if count \<le> length bs then (take count bs, vr\<lparr>vr_source := Some (drop count bs)\<rparr>)
          else (xorshift_bytes count (vr_clock vr 0),
                vr\<lparr>vr_source := Some [], vr_clock := (\<lambda>i. vr_clock vr (Suc i))\<rparr>)
      | None \<Rightarrow> (xorshift_bytes count (vr_clock vr 0), vr\<lparr>vr_clock := (\<lambda>i. vr_clock vr (Suc i))\<rparr>))"

subsection \<open>Registers\<close>

definition vrng_read32 :: "vrng \<Rightarrow> u64 \<Rightarrow> (u32, mem_error) result" where
  "vrng_read32 vr offset = Ok
     (if offset = 0x000 then 0x74726976
      else if offset = 0x004 then 1
      else if offset = 0x008 then 4
      else if offset = 0x00c then 0x554d4551
      else if offset = 0x010 then 0
      else if offset = 0x034 then 64
      else if offset = 0x040 then (if vr_queue_sel vr = 0 then vr_queue_pfn vr else 0)
      else if offset = 0x044 then (if vr_queue_sel vr = 0 then (if vr_queue_ready vr then 1 else 0) else 0)
      else if offset = 0x060 then vr_interrupt_status vr
      else if offset = 0x070 then vr_status vr
      else if offset = 0x0fc then 0
      else 0)"

definition vrng_reset :: "vrng \<Rightarrow> vrng" where
  "vrng_reset vr = vr\<lparr>vr_queue_num := 0, vr_queue_pfn := 0, vr_queue_ready := False, vr_queue_sel := 0,
     vr_interrupt_status := 0, vr_driver_features := 0, vr_device_features_sel := 0, vr_driver_features_sel := 0\<rparr>"

definition vrng_write32 :: "u64 \<Rightarrow> u32 \<Rightarrow> (vrng, unit, mem_error) comp" where
  "vrng_write32 offset value vr = (Ok (),
     (if offset = 0x014 then vr\<lparr>vr_device_features_sel := value\<rparr>
      else if offset = 0x020 then
        vr\<lparr>vr_driver_features :=
          (if vr_driver_features_sel vr = 0
           then (vr_driver_features vr AND 0xFFFFFFFF00000000) OR ucast value
           else (vr_driver_features vr AND 0x00000000FFFFFFFF) OR push_bit 32 (ucast value))\<rparr>
      else if offset = 0x024 then vr\<lparr>vr_driver_features_sel := value\<rparr>
      else if offset = 0x028 then vr
      else if offset = 0x030 then vr\<lparr>vr_queue_sel := value\<rparr>
      else if offset = 0x038 then (if vr_queue_sel vr = 0 then vr\<lparr>vr_queue_num := value\<rparr> else vr)
      else if offset = 0x03c then vr
      else if offset = 0x040 then
        (if vr_queue_sel vr = 0 then vr\<lparr>vr_queue_pfn := value, vr_queue_ready := (value \<noteq> 0)\<rparr> else vr)
      else if offset = 0x044 then (if vr_queue_sel vr = 0 then vr\<lparr>vr_queue_ready := (value \<noteq> 0)\<rparr> else vr)
      else if offset = 0x050 then vr
      else if offset = 0x064 then vr\<lparr>vr_interrupt_status := vr_interrupt_status vr AND NOT value\<rparr>
      else if offset = 0x070 then (if value = 0 then vrng_reset vr else vr)\<lparr>vr_status := value\<rparr>
      else vr))"

subsection \<open>The queue\<close>

text \<open>Filling one device-writable buffer.\<close>

definition rng_fill :: "virtq_desc \<Rightarrow> u64 \<Rightarrow> (vrng_ctx, unit, mem_error) comp" where
  "rng_fill desc base s =
     (case generate_random_bytes (unat (desc_len desc)) (vc_dev s) of
        (random_bytes, vr) \<Rightarrow>
          zoom_dram (gm_write_bytes (desc_addr desc) 0 random_bytes base) (s\<lparr>vc_dev := vr\<rparr>))"

text \<open>The walk over one chain returns the number of bytes written; at 64 descriptors it just stops.\<close>

abbreviation RNG_MAX_CHAIN_LEN :: nat where "RNG_MAX_CHAIN_LEN \<equiv> 64"

function rng_chain :: "u64 \<Rightarrow> u64 \<Rightarrow> nat \<Rightarrow> u16 \<Rightarrow> u32 \<Rightarrow> (vrng_ctx, u32, mem_error) comp" where
  "rng_chain queue_addr base chain_len current_idx total_written s =
     (if chain_len \<ge> RNG_MAX_CHAIN_LEN then (Ok total_written, s)
      else
        (case read_descriptor (vc_dram s) (queue_addr + ucast current_idx * 16) base of
           Err e \<Rightarrow> (Err e, s)
         | Panic \<Rightarrow> (Panic, s)
         | Ok desc \<Rightarrow>
             (case (if desc_flags desc AND VIRTQ_DESC_F_WRITE \<noteq> 0
                    then bindS (rng_fill desc base) (\<lambda>_. liftR (add_ck total_written (desc_len desc))) s
                    else (Ok total_written, s)) of
                (Err e, s') \<Rightarrow> (Err e, s')
              | (Panic, s') \<Rightarrow> (Panic, s')
              | (Ok written, s') \<Rightarrow>
                  if desc_flags desc AND VIRTQ_DESC_F_NEXT = 0 then (Ok written, s')
                  else rng_chain queue_addr base (chain_len + 1) (desc_next desc) written s')))"
  by pat_completeness auto
termination
  by (relation "measure (\<lambda>(q, b, chain_len, i, t, s). RNG_MAX_CHAIN_LEN - chain_len)") auto

declare rng_chain.simps [simp del]

definition vrng_request :: "u64 \<Rightarrow> u64 \<Rightarrow> u64 \<Rightarrow> u64 \<Rightarrow> u64 \<Rightarrow> u16 \<Rightarrow> (vrng_ctx, unit, mem_error) comp" where
  "vrng_request queue_addr queue_num avail_ring_offset used_ring_offset base used_idx s =
     bindS (liftR (mod_ck (ucast used_idx) queue_num)) (\<lambda>slot s.
     bindS (liftR (gm_read_u16 (vc_dram s) (queue_addr + avail_ring_offset + 4 + slot * 2) base)) (\<lambda>head_desc_idx.
     bindS (rng_chain queue_addr base 0 head_desc_idx 0) (\<lambda>total_written.
     bindS (zoom_dram (gm_write_u32 (queue_addr + used_ring_offset + 4 + slot * 8) (ucast head_desc_idx) base)) (\<lambda>_.
     zoom_dram (gm_write_u32 (queue_addr + used_ring_offset + 4 + slot * 8 + 4) total_written base)))) s) s"

text \<open>
  The sums of the layout are over \<open>usize\<close> and stay below \<open>2 ^ 37\<close>.
\<close>

definition vrng_process_queue :: "u64 \<Rightarrow> (vrng_ctx, unit, mem_error) comp" where
  "vrng_process_queue base s =
     (if vr_queue_pfn (vc_dev s) = 0 then (Ok (), s)
      else
        (let queue_addr = push_bit 12 (ucast (vr_queue_pfn (vc_dev s)));
             queue_num = ucast (vr_queue_num (vc_dev s)) :: u64 in
         if queue_num = 0 then (Ok (), s)
         else
           (let avail_ring_offset = queue_num * 16;
                avail_flags_addr = queue_addr + avail_ring_offset;
                avail_idx_addr = queue_addr + avail_ring_offset + 2;
                used_ring_offset = ((avail_ring_offset + 4 + 2 * queue_num + 2 + 4095) div 4096) * 4096;
                used_idx_addr = queue_addr + used_ring_offset + 2 in
            bindS (liftR (gm_read_u16 (vc_dram s) avail_flags_addr base)) (\<lambda>avail_flags s.
            bindS (liftR (gm_read_u16 (vc_dram s) avail_idx_addr base)) (\<lambda>avail_idx s.
            bindS (liftR (gm_read_u16 (vc_dram s) used_idx_addr base)) (\<lambda>used_idx s.
              if avail_idx = used_idx then (Ok (), s)
              else
                bindS (ring_loop (vrng_request queue_addr queue_num avail_ring_offset used_ring_offset base)
                         avail_idx used_idx) (\<lambda>end_used_idx.
                bindS (if end_used_idx \<noteq> used_idx then zoom_dram (gm_write_u16 used_idx_addr end_used_idx base)
                       else returnS ()) (\<lambda>_ s.
                (Ok (), if avail_flags AND VRING_AVAIL_F_NO_INTERRUPT = 0 then vrng_trigger_interrupt s else s))) s)
              s) s) s)))"

subsection \<open>The transport contract\<close>

abbreviation vrng_reg :: "vrng \<Rightarrow> u64 \<Rightarrow> u32" where
  "vrng_reg vr offset \<equiv> (case vrng_read32 vr offset of Ok v \<Rightarrow> v | _ \<Rightarrow> 0)"

abbreviation vrng_set :: "u64 \<Rightarrow> u32 \<Rightarrow> vrng \<Rightarrow> vrng" where
  "vrng_set offset v vr \<equiv> snd (vrng_write32 offset v vr)"

interpretation rng_regs: virtio_transport vrng_reg vrng_set vr_queue_num
  by unfold_locales (auto simp: vrng_read32_def vrng_write32_def vrng_reset_def)

subsection \<open>What a request may change\<close>

lemma xorshift_bytes_length [simp]: "length (xorshift_bytes n st) = n"
  by (induction n arbitrary: st) (simp_all add: Let_def)

lemma generate_length: "length (fst (generate_random_bytes n vr)) = n"
  by (simp add: generate_random_bytes_def split: option.split)

definition vrng_regs :: "vrng \<Rightarrow> vrng" where
  "vrng_regs vr = vr\<lparr>vr_source := None, vr_clock := (\<lambda>_. 0)\<rparr>"

lemma vrng_regs_callback: "vrng_regs vr = vrng_regs vr' \<Longrightarrow> vr_callback vr = vr_callback vr'"
  by (drule arg_cong [of _ _ vr_callback]) (simp add: vrng_regs_def)

text \<open>Memory keeps its shape, the device its queue, its registers and its callback.\<close>

definition vrng_kept :: "vrng_ctx \<Rightarrow> vrng_ctx \<Rightarrow> bool" where
  "vrng_kept s0 s \<longleftrightarrow> dram_wf (vc_dram s) = dram_wf (vc_dram s0) \<and> dram_len (vc_dram s) = dram_len (vc_dram s0) \<and>
     vrng_regs (vc_dev s) = vrng_regs (vc_dev s0) \<and> vc_plic s = vc_plic s0"

lemma vrng_kept_refl: "vrng_kept s s"
  by (simp add: vrng_kept_def)

lemmas vrng_bind = bindS_inv [where P = "vrng_kept s0" for s0]
lemmas vrng_bind_lift = bindS_inv_lift [where P = "vrng_kept s0" for s0]

lemma vrng_kept_zoom:
  assumes "vrng_kept s0 s"
    and "dram_wf (snd (m (vc_dram s))) = dram_wf (vc_dram s)" "dram_len (snd (m (vc_dram s))) = dram_len (vc_dram s)"
  shows "vrng_kept s0 (snd (zoom_dram m s))"
  using assms by (simp add: zoom_dram_def vrng_kept_def)

lemma rng_fill_kept: "vrng_kept s0 s \<Longrightarrow> vrng_kept s0 (snd (rng_fill desc base s))"
proof -
  assume kept: "vrng_kept s0 s"
  obtain bs vr where g: "generate_random_bytes (unat (desc_len desc)) (vc_dev s) = (bs, vr)" by fastforce
  then have "vrng_regs vr = vrng_regs (vc_dev s)"
    by (auto simp: generate_random_bytes_def vrng_regs_def split: option.splits if_splits)
  with kept have "vrng_kept s0 (s\<lparr>vc_dev := vr\<rparr>)" by (simp add: vrng_kept_def)
  then show ?thesis by (simp add: rng_fill_def g vrng_kept_zoom frame_simps)
qed

lemma rng_chain_kept: "vrng_kept s0 s \<Longrightarrow> vrng_kept s0 (snd (rng_chain q base n i t s))"
proof (induction q base n i t s rule: rng_chain.induct)
  case (1 q base n i t s)
  show ?case
  proof (cases "n \<ge> RNG_MAX_CHAIN_LEN")
    case True
    with "1.prems" show ?thesis by (simp add: rng_chain.simps [of q base n])
  next
    case False
    show ?thesis
    proof (cases "read_descriptor (vc_dram s) (q + ucast i * 16) base")
      case (Ok desc)
      let ?fill = "if desc_flags desc AND VIRTQ_DESC_F_WRITE \<noteq> 0
        then bindS (rng_fill desc base) (\<lambda>_. liftR (add_ck t (desc_len desc))) s else (Ok t, s)"
      obtain r s1 where f: "?fill = (r, s1)" by fastforce
      have "vrng_kept s0 (snd ?fill)"
        using "1.prems" by (auto intro!: vrng_bind rng_fill_kept)
      then have k1: "vrng_kept s0 s1" by (simp add: f)
      show ?thesis
        using "1.IH" [OF False Ok f [symmetric] _ _ k1] k1 False
        by (cases r) (simp_all add: rng_chain.simps [of q base n] Ok f)
    qed (simp_all add: rng_chain.simps [of q base n] False "1.prems")
  qed
qed

lemma vrng_request_kept: "vrng_kept s0 s \<Longrightarrow> vrng_kept s0 (snd (vrng_request q n a u base i s))"
  unfolding vrng_request_def
  by (auto intro!: vrng_bind vrng_bind_lift vrng_kept_zoom rng_chain_kept simp: frame_simps)

lemma vrng_loop_kept: "vrng_kept s0 s \<Longrightarrow> vrng_kept s0 (snd (ring_loop (vrng_request q n a u base) ai ui s))"
  by (rule ring_loop_inv) (rule vrng_request_kept)

lemma vrng_trigger_raises:
  "bit (vr_interrupt_status (vc_dev (vrng_trigger_interrupt s))) 0 \<and>
   (\<forall>irq. vr_callback (vc_dev s) = Some irq \<and> 0 < irq \<and> irq \<le> 1023 \<longrightarrow>
      irq_pending (vc_plic (vrng_trigger_interrupt s)) (unat irq)) \<and>
   vc_dram (vrng_trigger_interrupt s) = vc_dram s"
  by (auto simp: vrng_trigger_interrupt_def Let_def bit_simps plic_set_pending_line split: option.split)

text \<open>The invariant the bus needs: well-formed memory and controller, the callback in place.\<close>

definition vrng_inv :: "nat \<Rightarrow> u32 option \<Rightarrow> vrng_ctx \<Rightarrow> bool" where
  "vrng_inv l c s \<longleftrightarrow> dram_wf (vc_dram s) \<and> dram_len (vc_dram s) = l \<and> vr_callback (vc_dev s) = c \<and> plic_wf (vc_plic s)"

lemma vrng_inv_kept: "vrng_inv l c s \<Longrightarrow> vrng_kept s s' \<Longrightarrow> vrng_inv l c s'"
  by (auto simp: vrng_inv_def vrng_kept_def dest: vrng_regs_callback)

lemma vrng_trigger_inv: "vrng_inv l c (vrng_trigger_interrupt s) = vrng_inv l c s"
  by (simp add: vrng_trigger_interrupt_def vrng_inv_def Let_def frame_simps split: option.split)

lemmas vrng_inv_bind = bindS_inv [where P = "vrng_inv l c" for l c]
lemmas vrng_inv_bind_lift = bindS_inv_lift [where P = "vrng_inv l c" for l c]

lemma vrng_loop_inv:
  "vrng_inv l c s \<Longrightarrow> vrng_inv l c (snd (ring_loop (vrng_request q n a u base) ai ui s))"
  by (rule vrng_inv_kept [OF _ vrng_loop_kept [OF vrng_kept_refl]])

lemma vrng_inv_zoom:
  assumes "vrng_inv l c s"
    and "dram_wf (snd (m (vc_dram s))) = dram_wf (vc_dram s)" "dram_len (snd (m (vc_dram s))) = dram_len (vc_dram s)"
  shows "vrng_inv l c (snd (zoom_dram m s))"
  using assms by (simp add: zoom_dram_def vrng_inv_def)

lemma vrng_process_inv: "vrng_inv l c s \<Longrightarrow> vrng_inv l c (snd (vrng_process_queue base s))"
  unfolding vrng_process_queue_def Let_def
  by (auto intro!: vrng_inv_bind vrng_inv_bind_lift vrng_loop_inv vrng_inv_zoom simp: frame_simps vrng_trigger_inv)

subsection \<open>Serving a request\<close>

text \<open>What a chain takes from the random source is what it reports as written.\<close>

lemma generate_source:
  "generate_random_bytes n vr = (bs, vr') \<Longrightarrow> vr_source vr' = map_option (drop n) (vr_source vr)"
  by (auto simp: generate_random_bytes_def split: option.splits if_splits)

lemma rng_chain_source:
  "rng_chain q base n i t s = (Ok t', s') \<Longrightarrow>
   unat t \<le> unat t' \<and> vr_source (vc_dev s') = map_option (drop (unat t' - unat t)) (vr_source (vc_dev s))"
proof (induction q base n i t s rule: rng_chain.induct)
  case (1 q base n i t s)
  show ?case
  proof (cases "n \<ge> RNG_MAX_CHAIN_LEN")
    case True
    with "1.prems" show ?thesis by (simp add: rng_chain.simps [of q base n] option.map_ident)
  next
    case False
    let ?fill = "\<lambda>desc. if desc_flags desc AND VIRTQ_DESC_F_WRITE \<noteq> 0
      then bindS (rng_fill desc base) (\<lambda>_. liftR (add_ck t (desc_len desc))) s else (Ok t, s)"
    obtain desc w s1 where desc: "read_descriptor (vc_dram s) (q + ucast i * 16) base = Ok desc"
      and f: "?fill desc = (Ok w, s1)"
      and rest: "if desc_flags desc AND VIRTQ_DESC_F_NEXT = 0 then t' = w \<and> s' = s1
        else rng_chain q base (n + 1) (desc_next desc) w s1 = (Ok t', s')"
      using "1.prems" False by (subst (asm) rng_chain.simps) (auto split: result.splits prod.splits if_splits)
    have filled: "unat t \<le> unat w \<and> vr_source (vc_dev s1) = map_option (drop (unat w - unat t)) (vr_source (vc_dev s))"
    proof (cases "desc_flags desc AND VIRTQ_DESC_F_WRITE = 0")
      case True
      then show ?thesis using f by (auto simp: option.map_ident)
    next
      case filling: False
      obtain bs vr where g: "generate_random_bytes (unat (desc_len desc)) (vc_dev s) = (bs, vr)" by fastforce
      show ?thesis
        using f filling generate_source [OF g]
        by (auto simp: rng_fill_def g bindS_def zoom_dram_def zoomS_def add_ck_def unat_word_ariths
            split: prod.splits result.splits if_splits)
    qed
    show ?thesis
    proof (cases "desc_flags desc AND VIRTQ_DESC_F_NEXT = 0")
      case True
      then show ?thesis using filled rest by simp
    next
      case more: False
      then show ?thesis
        using "1.IH" [OF False desc f [symmetric] refl] filled rest
        by (auto simp: option.map_comp comp_def)
    qed
  qed
qed

text \<open>A request of one writable buffer, the one that drivers make.\<close>

lemma rng_chain_single:
  assumes "read_descriptor (vc_dram s) (q + ucast i * 16) base = Ok desc"
    and "desc_flags desc AND VIRTQ_DESC_F_WRITE \<noteq> 0" and "desc_flags desc AND VIRTQ_DESC_F_NEXT = 0"
    and "gm_ok (vc_dram s) base (desc_addr desc) (unat (desc_len desc))" and "dram_wf (vc_dram s)"
    and "rng_chain q base 0 i 0 s = (Ok t', s')"
  shows "t' = desc_len desc" and "vc_dram s' = dram_put (vc_dram s) (unat (desc_addr desc) - unat base)
    (fst (generate_random_bytes (unat (desc_len desc)) (vc_dev s)))"
proof -
  obtain bs vr where g: "generate_random_bytes (unat (desc_len desc)) (vc_dev s) = (bs, vr)" by fastforce
  have "length bs = unat (desc_len desc)" using generate_length [of "unat (desc_len desc)" "vc_dev s"] g by simp
  then have w: "gm_write_bytes (desc_addr desc) 0 bs base (vc_dram s) =
      (Ok (), dram_put (vc_dram s) (unat (desc_addr desc) - unat base) bs)"
    using gm_write_bytes_in [OF assms(5), of base "desc_addr desc" 0 bs] assms(4) by simp
  show "t' = desc_len desc" "vc_dram s' = dram_put (vc_dram s) (unat (desc_addr desc) - unat base)
      (fst (generate_random_bytes (unat (desc_len desc)) (vc_dev s)))"
    using assms(1-3,6) w
    by (auto simp: rng_chain.simps [of q base 0 i 0 s] rng_fill_def g bindS_def zoom_dram_def zoomS_def add_ck_def
        split: if_splits)
qed

text \<open>
  What serving the chain at a ring index means for the driver: the chain is answered with
  the number of bytes that were taken from the random source, and a single writable buffer
  in memory, where it does not overlap the used entry itself, holds the random bytes.
\<close>

definition vrng_served :: "virtq \<Rightarrow> u64 \<Rightarrow> u16 \<Rightarrow> vrng_ctx \<Rightarrow> vrng_ctx \<Rightarrow> bool" where
  "vrng_served q base idx s s' \<longleftrightarrow>
     (\<exists>head len. answered q base idx (vc_dram s) (vc_dram s') head len \<and>
        vr_source (vc_dev s') = map_option (drop (unat len)) (vr_source (vc_dev s)) \<and>
        (\<forall>desc. read_descriptor (vc_dram s) (vq_addr q + ucast head * 16) base = Ok desc \<and>
           desc_flags desc AND VIRTQ_DESC_F_WRITE \<noteq> 0 \<and> desc_flags desc AND VIRTQ_DESC_F_NEXT = 0 \<and>
           gm_ok (vc_dram s) base (desc_addr desc) (unat (desc_len desc)) \<and>
           outside base (desc_addr desc) (unat (desc_len desc)) (used_slot q idx) 8 \<longrightarrow>
           len = desc_len desc \<and>
           slice (dram_mem (vc_dram s')) (unat (desc_addr desc - base)) (unat len) =
             fst (generate_random_bytes (unat len) (vc_dev s))))"

lemma vrng_request_served:
  assumes "dram_wf (vc_dram s)"
    and "vrng_request (vq_addr q) (vq_num q) (vq_avail_off q) (vq_used_off q) base idx s = (Ok (), s')"
  shows "vrng_served q base idx s s'" and "dram_wf (vc_dram s')"
proof -
  obtain slot head len s1 d1 d2 where
    slot: "(mod_ck (ucast idx) (vq_num q) :: (u64, mem_error) result) = Ok slot"
    and head: "gm_read_u16 (vc_dram s) (vq_addr q + vq_avail_off q + 4 + slot * 2) base = Ok head"
    and chain: "rng_chain (vq_addr q) base 0 head 0 s = (Ok len, s1)"
    and w1: "gm_write_u32 (vq_addr q + vq_used_off q + 4 + slot * 8) (ucast head) base (vc_dram s1) = (Ok (), d1)"
    and w2: "gm_write_u32 (vq_addr q + vq_used_off q + 4 + slot * 8 + 4) len base d1 = (Ok (), d2)"
    and s': "s' = s1\<lparr>vc_dram := d2\<rparr>"
    using assms(2)
    by (auto simp: vrng_request_def bindS_def zoom_dram_def zoomS_def split: result.splits prod.splits)
  have slots: "vq_addr q + vq_avail_off q + 4 + slot * 2 = avail_slot q idx"
    "vq_addr q + vq_used_off q + 4 + slot * 8 = used_slot q idx"
    using slot by (auto simp: mod_ck_def avail_slot_def used_slot_def split: if_splits)
  have wf: "dram_wf (vc_dram s1)"
    using rng_chain_kept [OF vrng_kept_refl, of s "vq_addr q" base 0 head 0] chain assms(1) by (simp add: vrng_kept_def)
  note used = used_entry_written [OF wf w1 w2]
  show "dram_wf (vc_dram s')" using used(3) by (simp add: s')
  have "len = desc_len desc \<and> slice (dram_mem d2) (unat (desc_addr desc - base)) (unat len) =
      fst (generate_random_bytes (unat len) (vc_dev s))"
    if "read_descriptor (vc_dram s) (vq_addr q + ucast head * 16) base = Ok desc"
      "desc_flags desc AND VIRTQ_DESC_F_WRITE \<noteq> 0" "desc_flags desc AND VIRTQ_DESC_F_NEXT = 0"
      "gm_ok (vc_dram s) base (desc_addr desc) (unat (desc_len desc))"
      "outside base (desc_addr desc) (unat (desc_len desc)) (used_slot q idx) 8" for desc
  proof -
    note single = rng_chain_single [OF that(1-4) assms(1) chain]
    have at: "unat (desc_addr desc) - unat base = unat (desc_addr desc - base)"
      using that(4) by (simp add: gm_ok_def unat_sub)
    let ?bs = "fst (generate_random_bytes (unat (desc_len desc)) (vc_dev s))"
    have "slice (dram_mem d2) (unat (desc_addr desc - base)) (length ?bs) =
        slice (dram_mem (vc_dram s1)) (unat (desc_addr desc - base)) (length ?bs)"
      using that(5) by (intro slice_cong used(5)) (auto simp: outside_def slots generate_length)
    then show ?thesis
      using single by (simp add: at dram_put_def generate_length)
  qed
  then show "vrng_served q base idx s s'"
    unfolding vrng_served_def answered_def
    using head used(1,2) rng_chain_source [OF chain] by (auto simp: slots s')
qed

text \<open>The layout of the queue at a page of \<open>n\<close> entries, with the used ring on the next page boundary.\<close>

definition rng_queue :: "vrng \<Rightarrow> virtq" where
  "rng_queue vr =
     (let n = ucast (vr_queue_num vr) in
      \<lparr>vq_addr = push_bit 12 (ucast (vr_queue_pfn vr)), vq_num = n, vq_avail_off = n * 16,
       vq_used_off = ((n * 16 + 4 + 2 * n + 2 + 4095) div 4096) * 4096\<rparr>)"

text \<open>
  Property C28. The random number device answers every published chain, in ring order. When
  processing succeeds on a queue in place, the chains from the used index to the available
  index were served one after the other, each as \<open>vrng_served\<close> says; memory is then that
  after the last of them with the used index moved to the available index, and if anything
  was pending and interrupts are not suppressed, the interrupt status bit and the device's
  line at the interrupt controller are raised.
\<close>

theorem vrng_queue_drained:
  assumes "dram_wf (vc_dram s)" and "vr_queue_pfn (vc_dev s) \<noteq> 0" and "vr_queue_num (vc_dev s) \<noteq> 0"
    and "vrng_process_queue base s = (Ok (), s')"
  shows "let q = rng_queue (vc_dev s); used = vq_addr q + vq_used_off q + 2 in
    \<exists>fl a u s1. gm_read_u16 (vc_dram s) (vq_addr q + vq_avail_off q) base = Ok fl \<and>
      gm_read_u16 (vc_dram s) (vq_addr q + vq_avail_off q + 2) base = Ok a \<and>
      gm_read_u16 (vc_dram s) used base = Ok u \<and>
      rounds (vrng_served q base) u s (unat (a - u)) s1 \<and>
      vc_dram s' = (if a = u then vc_dram s1 else snd (gm_write_u16 used a base (vc_dram s1))) \<and>
      gm_read_u16 (vc_dram s') used base = Ok a \<and>
      (a \<noteq> u \<and> fl AND VRING_AVAIL_F_NO_INTERRUPT = 0 \<longrightarrow>
         bit (vr_interrupt_status (vc_dev s')) 0 \<and>
         (\<forall>irq. vr_callback (vc_dev s) = Some irq \<and> 0 < irq \<and> irq \<le> 1023 \<longrightarrow> irq_pending (vc_plic s') (unat irq)))"
proof -
  define q where "q = rng_queue (vc_dev s)"
  let ?used = "vq_addr q + vq_used_off q + 2"
  let ?req = "vrng_request (vq_addr q) (vq_num q) (vq_avail_off q) (vq_used_off q) base"
  have q: "push_bit 12 (ucast (vr_queue_pfn (vc_dev s))) = vq_addr q" "ucast (vr_queue_num (vc_dev s)) = vq_num q"
      "vq_num q * 16 = vq_avail_off q" "((vq_avail_off q + 4 + 2 * vq_num q + 2 + 4095) div 4096) * 4096 = vq_used_off q"
    by (simp_all add: q_def rng_queue_def Let_def)
  have n0: "vq_num q \<noteq> 0"
    using assms(3) unsigned_less [of "vr_queue_num (vc_dev s)", where 'a = nat]
    by (simp add: q(2) [symmetric] word_unat_eq_iff unsigned_ucast_eq take_bit_nat_eq_self)
  note run = assms(4) [unfolded vrng_process_queue_def Let_def q]
  obtain fl a u where fl: "gm_read_u16 (vc_dram s) (vq_addr q + vq_avail_off q) base = Ok fl"
    and a: "gm_read_u16 (vc_dram s) (vq_addr q + vq_avail_off q + 2) base = Ok a"
    and u: "gm_read_u16 (vc_dram s) ?used base = Ok u"
    using run assms(2) n0 by (auto simp: bindS_def split: result.splits)
  show ?thesis
  proof (cases "a = u")
    case True
    then have "s' = s" using run assms(2) n0 fl a u by (auto simp: bindS_def)
    then show ?thesis
      using True fl a u by (auto simp: Let_def q_def [symmetric] intro: rounds.no_round)
  next
    case False
    obtain v s1 where loop: "ring_loop ?req a u s = (Ok v, s1)"
      using run assms(2) n0 fl a u False by (auto simp: bindS_def split: result.splits prod.splits)
    have ran: "v = a \<and> dram_wf (vc_dram s1) \<and> rounds (vrng_served q base) u s (unat (a - u)) s1"
      using assms(1) by (intro ring_loop_rounds [OF loop]) (auto intro: vrng_request_served)
    then obtain d where w: "gm_write_u16 ?used a base (vc_dram s1) = (Ok (), d)"
      and s': "s' = (if fl AND VRING_AVAIL_F_NO_INTERRUPT = 0 then vrng_trigger_interrupt (s1\<lparr>vc_dram := d\<rparr>) else s1\<lparr>vc_dram := d\<rparr>)"
      using run assms(2) n0 fl a u False loop
      by (auto simp: bindS_def zoom_dram_def zoomS_def split: result.splits prod.splits)
    have "gm_read_u16 d ?used base = Ok a"
      using gm_read16_after_write16 [of "vc_dram s1" ?used a base] w ran by simp
    moreover have "vr_callback (vc_dev s1) = vr_callback (vc_dev s)"
      using vrng_loop_kept [OF vrng_kept_refl [of s], of "vq_addr q" "vq_num q" "vq_avail_off q" "vq_used_off q" base a u] loop
      by (auto simp: vrng_kept_def intro: vrng_regs_callback)
    ultimately show ?thesis
      using fl a u False ran w vrng_trigger_raises [of "s1\<lparr>vc_dram := d\<rparr>"]
      by (auto simp: Let_def s' q_def [symmetric])
  qed
qed

text \<open>A queue of one entry at page 1: one writable buffer of two bytes at \<open>0x3000\<close>.\<close>

definition vrng_example :: vrng_ctx where
  "vrng_example =
     \<lparr>vc_dev = (vrng_set_interrupt_callback 7 (vrng_new (Some [0xAA, 0xBB, 0xCC]) (\<lambda>_. 1)))
        \<lparr>vr_queue_num := 1, vr_queue_pfn := 1\<rparr>,
      vc_dram = (dram_new le_byteorder 16384)\<lparr>dram_mem := (\<lambda>_. 0)
        (0x1001 := 0x30, 0x1008 := 2, 0x100C := 2, 0x1012 := 1)\<rparr>,
      vc_plic = plic_new\<rparr>"

lemmas vrng_example_ctx =
  vrng_example_def vrng_set_interrupt_callback_def vrng_new_def dram_new_def le_byteorder_def

lemmas vrng_reads =
  gm_read_u16_def gm_read_u32_def gm_read_u64_def dram_read16_def dram_read32_def dram_read64_def
  sub_ck_def add_ck_def slice_def upt_rec

lemma vrng_example_runs: "fst (vrng_process_queue 0 vrng_example) = Ok ()"
  apply (simp add: vrng_process_queue_def vrng_example_ctx bindS_def vrng_reads Let_def)
  apply (simp add: ring_loop.simps vrng_request_def mod_ck_def bindS_def Let_def vrng_reads)
  apply (simp add: rng_chain.simps read_descriptor_def vrng_reads)
  apply (simp add: rng_fill_def generate_random_bytes_def zoom_dram_def zoomS_def bindS_def add_ck_def)
  apply (simp add: zoom_dram_def zoomS_def gm_write_u8_def gm_write_u32_def sub_ck_def add_ck_def bindS_def dram_write8_def dram_write32_def)
  apply (simp add: ring_loop.simps)
  apply (simp add: zoom_dram_def zoomS_def gm_write_u16_def sub_ck_def add_ck_def bindS_def dram_write16_def)
  done

theorem vrng_queue_drained_witness:
  "(\<exists>s1. vrng_served \<lparr>vq_addr = 0x1000, vq_num = 1, vq_avail_off = 16, vq_used_off = 4096\<rparr> 0 0 vrng_example s1 \<and>
     vc_dram (snd (vrng_process_queue 0 vrng_example)) = snd (gm_write_u16 0x2002 1 0 (vc_dram s1))) \<and>
   gm_read_u16 (vc_dram (snd (vrng_process_queue 0 vrng_example))) 0x2002 0 = Ok 1 \<and>
   irq_pending (vc_plic (snd (vrng_process_queue 0 vrng_example))) 7"
proof -
  have wf: "dram_wf (vc_dram vrng_example)"
    using dram_new_wf [of 16384 le_byteorder] le_instance.little_endian_axioms
    by (simp add: vrng_example_def dram_wf_def dram_new_def)
  have cfg: "vr_queue_pfn (vc_dev vrng_example) = 1" "vr_queue_num (vc_dev vrng_example) = 1"
      "vr_callback (vc_dev vrng_example) = Some 7"
    by (simp_all add: vrng_example_ctx)
  then have live: "vr_queue_pfn (vc_dev vrng_example) \<noteq> 0" "vr_queue_num (vc_dev vrng_example) \<noteq> 0" by simp_all
  have run: "vrng_process_queue 0 vrng_example = (Ok (), snd (vrng_process_queue 0 vrng_example))"
    using vrng_example_runs by (metis prod.collapse)
  have rd: "gm_read_u16 (vc_dram vrng_example) 0x1010 0 = Ok 0"
      "gm_read_u16 (vc_dram vrng_example) 0x1012 0 = Ok 1"
      "gm_read_u16 (vc_dram vrng_example) 0x2002 0 = Ok 0"
    by (simp_all add: vrng_example_ctx vrng_reads)
  show ?thesis
    using vrng_queue_drained [OF wf live run] by (auto simp: cfg rd Let_def rng_queue_def rounds_1)
qed

text \<open>
  Random requests are answered in full: a descriptor's request for \<open>n\<close> bytes
  gets exactly \<open>n\<close>, the first \<open>n\<close> of the source when it has them, and the generator's
  output from the next clock value otherwise.
\<close>

theorem generate_random_bytes_full:
  "length (fst (generate_random_bytes n vr)) = n \<and>
   (if \<exists>bs. vr_source vr = Some bs \<and> n \<le> length bs
    then Some (fst (generate_random_bytes n vr) @ the (vr_source (snd (generate_random_bytes n vr)))) = vr_source vr
    else fst (generate_random_bytes n vr) = xorshift_bytes n (vr_clock vr 0))"
  by (auto simp: generate_random_bytes_def split: option.split)

end
