(* ===== verification/Bus.thy ===== *)
theory Bus
  imports Prelude Dram Mrom Plic Uart Flash Virtq VirtioBlk VirtioRng
begin

text \<open>
  \<open>src/src/bus.rs\<close>: the system bus. It owns the memories and devices, decodes every access,
  keeps the timer registers, and drives the level-triggered line of the serial port. The
  address match of each access is the chain of ranges of the source, in its order.
  \<open>bus_now_secs\<close> is the host clock the real-time clock reads. The interrupt controller's
  lock is not modelled: an access of the bus is one step, and the only other thread that takes
  the lock, the serial input of \<open>src/src/main.rs\<close>, is a step of its own in \<open>Machine\<close>.
\<close>

abbreviation DRAM_BASE :: u64 where "DRAM_BASE \<equiv> 0x80000000"
abbreviation DRAM_SIZE :: u64 where "DRAM_SIZE \<equiv> 0x80000000"
abbreviation CLINT_BASE :: u64 where "CLINT_BASE \<equiv> 0x02000000"
abbreviation PLIC_BASE :: u64 where "PLIC_BASE \<equiv> 0x0c000000"
abbreviation UART_BASE :: u64 where "UART_BASE \<equiv> 0x10000000"
abbreviation VIRTIO_BASE :: u64 where "VIRTIO_BASE \<equiv> 0x10001000"
abbreviation VIRTIO_BLK_BASE :: u64 where "VIRTIO_BLK_BASE \<equiv> 0x10002000"
abbreviation VIRTIO_RNG_BASE :: u64 where "VIRTIO_RNG_BASE \<equiv> 0x10007000"
abbreviation RTC_BASE :: u64 where "RTC_BASE \<equiv> 0x00101000"
abbreviation TEST_BASE :: u64 where "TEST_BASE \<equiv> 0x00100000"
abbreviation FW_CFG_BASE :: u64 where "FW_CFG_BASE \<equiv> 0x10100000"
abbreviation FLASH_BASE :: u64 where "FLASH_BASE \<equiv> 0x20000000"
abbreviation FLASH_BANK1_BASE :: u64 where "FLASH_BANK1_BASE \<equiv> 0x22000000"
abbreviation PCI_BASE :: u64 where "PCI_BASE \<equiv> 0x30000000"
abbreviation MROM_BASE :: u64 where "MROM_BASE \<equiv> 0x00001000"
abbreviation CLINT_MSIP_OFFSET :: u64 where "CLINT_MSIP_OFFSET \<equiv> 0x0000"
abbreviation CLINT_MTIME_OFFSET :: u64 where "CLINT_MTIME_OFFSET \<equiv> 0xBFF8"
abbreviation CLINT_MTIMECMP_OFFSET :: u64 where "CLINT_MTIMECMP_OFFSET \<equiv> 0x4000"
abbreviation UART_IRQ :: u32 where "UART_IRQ \<equiv> 10"
abbreviation VIRTIO_BLK_IRQ :: u32 where "VIRTIO_BLK_IRQ \<equiv> 2"
abbreviation VIRTIO_RNG_IRQ :: u32 where "VIRTIO_RNG_IRQ \<equiv> 7"

record bus =
  bus_mrom :: mrom
  bus_dram :: dram
  bus_uart :: uart
  bus_flash :: flash
  bus_plic :: plic
  bus_virtio_block :: "vblk option"
  bus_virtio_rng :: vrng
  bus_mtime :: u64
  bus_mtimecmp :: u64
  bus_stimecmp :: u64
  bus_msip :: u64
  bus_now_secs :: u64

definition bus_new :: "mrom \<Rightarrow> dram \<Rightarrow> flash \<Rightarrow> disk option \<Rightarrow> u8 list option \<Rightarrow> (nat \<Rightarrow> u64) \<Rightarrow> u64 \<Rightarrow> bus" where
  "bus_new rom d fl drive_image urandom clock now =
     \<lparr>bus_mrom = rom, bus_dram = d, bus_uart = uart_new, bus_flash = fl, bus_plic = plic_new,
      bus_virtio_block =
        (case drive_image of
           None \<Rightarrow> None
         | Some file \<Rightarrow>
             (case vblk_new file of
                Ok vb \<Rightarrow> Some (vblk_set_interrupt_callback VIRTIO_BLK_IRQ vb)
              | _ \<Rightarrow> None)),
      bus_virtio_rng = vrng_set_interrupt_callback VIRTIO_RNG_IRQ (vrng_new urandom clock),
      bus_mtime = 0, bus_mtimecmp = 10000, bus_stimecmp = - 1, bus_msip = 0, bus_now_secs = now\<rparr>"

definition bus_tick_timer_by :: "u64 \<Rightarrow> bus \<Rightarrow> bus" where
  "bus_tick_timer_by delta s = s\<lparr>bus_mtime := bus_mtime s + delta\<rparr>"

definition bus_tick_timer :: "bus \<Rightarrow> bus" where
  "bus_tick_timer = bus_tick_timer_by 1"

definition process_virtio_block_queue :: "(bus, unit, mem_error) comp" where
  "process_virtio_block_queue s =
     (case bus_virtio_block s of
        None \<Rightarrow> (Ok (), s)
      | Some vb \<Rightarrow>
          (case vblk_process_queue DRAM_BASE \<lparr>vc_dev = vb, vc_dram = bus_dram s, vc_plic = bus_plic s\<rparr> of
             (r, c) \<Rightarrow> (r, s\<lparr>bus_virtio_block := Some (vc_dev c), bus_dram := vc_dram c, bus_plic := vc_plic c\<rparr>)))"

definition process_virtio_rng_queue :: "(bus, unit, mem_error) comp" where
  "process_virtio_rng_queue s =
     (case vrng_process_queue DRAM_BASE \<lparr>vc_dev = bus_virtio_rng s, vc_dram = bus_dram s, vc_plic = bus_plic s\<rparr> of
        (r, c) \<Rightarrow> (r, s\<lparr>bus_virtio_rng := vc_dev c, bus_dram := vc_dram c, bus_plic := vc_plic c\<rparr>))"

definition update_uart_irq :: "bus \<Rightarrow> bus" where
  "update_uart_irq s =
     s\<lparr>bus_plic := (if uart_has_pending_interrupt (bus_uart s)
                    then plic_set_pending UART_IRQ (bus_plic s)
                    else plic_clear_pending UART_IRQ (bus_plic s))\<rparr>"

text \<open>An access to the serial port is followed by the update of its line, unless it panicked.\<close>

definition bus_uart_access :: "(uart, 'a, mem_error) comp \<Rightarrow> (bus, 'a, mem_error) comp" where
  "bus_uart_access m s =
     (case m (bus_uart s) of
        (Panic, u) \<Rightarrow> (Panic, s\<lparr>bus_uart := u\<rparr>)
      | (r, u) \<Rightarrow> (r, update_uart_irq (s\<lparr>bus_uart := u\<rparr>)))"

definition in_dram :: "u64 \<Rightarrow> bool" where
  "in_dram a \<longleftrightarrow> a \<ge> DRAM_BASE \<and> a < DRAM_BASE + DRAM_SIZE"

subsection \<open>64-bit accesses\<close>

definition bus_read64 :: "u64 \<Rightarrow> (bus, u64, mem_error) comp" where
  "bus_read64 addr s =
     (if in_range MROM_BASE 0x0000FFFF addr then (mrom_read64 (bus_mrom s) (addr - MROM_BASE), s)
      else if in_dram addr then (dram_read64 (bus_dram s) (addr - DRAM_BASE), s)
      else if in_range CLINT_BASE 0x020FFFFF addr then
        (let offset = addr - CLINT_BASE in
         if offset = CLINT_MSIP_OFFSET then (Ok (bus_msip s), s)
         else if offset = CLINT_MTIME_OFFSET then (Ok (bus_mtime s), s)
         else if offset = CLINT_MTIMECMP_OFFSET then (Ok (bus_mtimecmp s), s)
         else (Ok 0, s))
      else if in_range PLIC_BASE 0x0C5FFFFF addr then (Ok 0, s)
      else if in_range UART_BASE 0x100000FF addr then
        mapS ucast (bus_uart_access (uart_read8 (addr - UART_BASE))) s
      else if in_range VIRTIO_BASE 0x10001FFF addr then (Ok 0, s)
      else if in_range VIRTIO_BLK_BASE 0x10002FFF addr then
        (let offset = addr - VIRTIO_BLK_BASE in
         case bus_virtio_block s of
           Some vb \<Rightarrow>
             (if offset = 0x100 then
                (bindR (unwrap_orR 0 (vblk_read32 vb 0x100)) (\<lambda>lo.
                 bindR (unwrap_orR 0 (vblk_read32 vb 0x104)) (\<lambda>hi.
                 Ok (ucast lo OR push_bit 32 (ucast hi)))), s)
              else (Ok 0, s))
         | None \<Rightarrow> (Ok 0, s))
      else if in_range 0x10003000 0x10006FFF addr then (Ok 0, s)
      else if in_range VIRTIO_RNG_BASE 0x10007FFF addr then (Ok 0, s)
      else if in_range 0x10008000 0x10008FFF addr then (Ok 0, s)
      else if in_range RTC_BASE 0x00101FFF addr then (Ok 0, s)
      else if in_range TEST_BASE 0x00100FFF addr then (Ok 0, s)
      else if in_range FW_CFG_BASE 0x10100017 addr then (Ok 0, s)
      else if in_range FLASH_BASE 0x21FFFFFF addr then (flash_read64 (bus_flash s) (addr - FLASH_BASE), s)
      else if in_range FLASH_BANK1_BASE 0x23FFFFFF addr then (Ok 0xFFFFFFFFFFFFFFFF, s)
      else if in_range PCI_BASE 0x3FFFFFFF addr then (Ok 0, s)
      else (Err BusReadRange, s))"

abbreviation zoom_bus_dram :: "(dram, 'a, mem_error) comp \<Rightarrow> (bus, 'a, mem_error) comp" where
  "zoom_bus_dram \<equiv> zoomS bus_dram (\<lambda>d s. s\<lparr>bus_dram := d\<rparr>)"

abbreviation zoom_bus_flash :: "(flash, 'a, mem_error) comp \<Rightarrow> (bus, 'a, mem_error) comp" where
  "zoom_bus_flash \<equiv> zoomS bus_flash (\<lambda>f s. s\<lparr>bus_flash := f\<rparr>)"

abbreviation zoom_bus_plic :: "(plic, 'a, mem_error) comp \<Rightarrow> (bus, 'a, mem_error) comp" where
  "zoom_bus_plic \<equiv> zoomS bus_plic (\<lambda>p s. s\<lparr>bus_plic := p\<rparr>)"

definition bus_write64 :: "u64 \<Rightarrow> u64 \<Rightarrow> (bus, unit, mem_error) comp" where
  "bus_write64 addr value s =
     (if in_dram addr then zoom_bus_dram (dram_write64 (addr - DRAM_BASE) value) s
      else if in_range CLINT_BASE 0x020FFFFF addr then
        (let offset = addr - CLINT_BASE in
         if offset = CLINT_MSIP_OFFSET then (Ok (), s\<lparr>bus_msip := value AND 1\<rparr>)
         else if offset = CLINT_MTIMECMP_OFFSET then (Ok (), s\<lparr>bus_mtimecmp := value\<rparr>)
         else (Ok (), s))
      else if in_range PLIC_BASE 0x0C5FFFFF addr then (Ok (), s)
      else if in_range UART_BASE 0x100000FF addr then
        bus_uart_access (uart_write8 (addr - UART_BASE) (ucast value)) s
      else if in_range VIRTIO_BASE 0x10001FFF addr then (Ok (), s)
      else if in_range VIRTIO_BLK_BASE 0x10002FFF addr then (Ok (), s)
      else if in_range 0x10003000 0x10006FFF addr then (Ok (), s)
      else if in_range VIRTIO_RNG_BASE 0x10007FFF addr then (Ok (), s)
      else if in_range 0x10008000 0x10008FFF addr then (Ok (), s)
      else if in_range TEST_BASE 0x00100FFF addr then (Ok (), s)
      else if in_range FLASH_BASE 0x21FFFFFF addr then zoom_bus_flash (flash_write64 (addr - FLASH_BASE) value) s
      else if in_range FLASH_BANK1_BASE 0x23FFFFFF addr then (Ok (), s)
      else if in_range PCI_BASE 0x3FFFFFFF addr then (Ok (), s)
      else (Err BusWriteRange, s))"

subsection \<open>32-bit accesses\<close>

definition bus_read32 :: "u64 \<Rightarrow> (bus, u32, mem_error) comp" where
  "bus_read32 addr s =
     (if in_range MROM_BASE 0x0000FFFF addr then (mrom_read32 (bus_mrom s) (addr - MROM_BASE), s)
      else if in_dram addr then (dram_read32 (bus_dram s) (addr - DRAM_BASE), s)
      else if in_range CLINT_BASE 0x020FFFFF addr then
        (let offset = addr - CLINT_BASE in
         if offset = CLINT_MSIP_OFFSET then (Ok (ucast (bus_msip s)), s)
         else if offset = CLINT_MTIME_OFFSET then (Ok (ucast (bus_mtime s)), s)
         else if offset = CLINT_MTIME_OFFSET + 4 then (Ok (ucast (drop_bit 32 (bus_mtime s))), s)
         else if offset = CLINT_MTIMECMP_OFFSET then (Ok (ucast (bus_mtimecmp s)), s)
         else if offset = CLINT_MTIMECMP_OFFSET + 4 then (Ok (ucast (drop_bit 32 (bus_mtimecmp s))), s)
         else (Ok 0, s))
      else if in_range PLIC_BASE 0x0C5FFFFF addr then zoom_bus_plic (plic_read32 (addr - PLIC_BASE)) s
      else if in_range UART_BASE 0x100000FF addr then
        mapS ucast (bus_uart_access (uart_read8 (addr - UART_BASE))) s
      else if in_range VIRTIO_BASE 0x10001FFF addr then (Ok 0, s)
      else if in_range VIRTIO_BLK_BASE 0x10002FFF addr then
        (case bus_virtio_block s of
           Some vb \<Rightarrow> (unwrap_orR 0 (vblk_read32 vb (addr - VIRTIO_BLK_BASE)), s)
         | None \<Rightarrow> (Ok 0, s))
      else if in_range 0x10003000 0x10006FFF addr then (Ok 0, s)
      else if in_range VIRTIO_RNG_BASE 0x10007FFF addr then
        (vrng_read32 (bus_virtio_rng s) (addr - VIRTIO_RNG_BASE), s)
      else if in_range 0x10008000 0x10008FFF addr then (Ok 0, s)
      else if in_range FLASH_BASE 0x21FFFFFF addr then (flash_read32 (bus_flash s) (addr - FLASH_BASE), s)
      else if in_range FLASH_BANK1_BASE 0x23FFFFFF addr then (Ok 0xFFFFFFFF, s)
      else if in_range RTC_BASE 0x00101FFF addr then
        (let offset = addr - RTC_BASE in
         if offset = 0x00 then (Ok (ucast (bus_now_secs s)), s)
         else if offset = 0x04 then (Ok (ucast (drop_bit 32 (bus_now_secs s))), s)
         else (Ok 0, s))
      else if in_range FW_CFG_BASE 0x10100017 addr then (Ok 0, s)
      else if in_range TEST_BASE 0x00100FFF addr then (Ok 0, s)
      else if in_range PCI_BASE 0x3FFFFFFF addr then (Ok 0, s)
      else (Err BusReadRange, s))"

text \<open>
  A register write to a virtio device: the write, the queue when it is a notification of
  queue 0, and for an acknowledgement the interrupt line set to what is left of the status.
\<close>

definition bus_write_blk :: "u64 \<Rightarrow> u32 \<Rightarrow> (bus, unit, mem_error) comp" where
  "bus_write_blk offset value =
     bindS (\<lambda>s. case bus_virtio_block s of
              None \<Rightarrow> (Ok (), s)
            | Some vb \<Rightarrow> (case vblk_write32 offset value vb of (r, vb') \<Rightarrow> (r, s\<lparr>bus_virtio_block := Some vb'\<rparr>))) (\<lambda>_.
     bindS (\<lambda>s. if offset = 0x50 \<and> value = 0 then process_virtio_block_queue s else (Ok (), s)) (\<lambda>_ s.
     if offset = 0x64 then
       (case bus_virtio_block s of
          None \<Rightarrow> (Ok (), s)
        | Some vb \<Rightarrow>
            bindS (liftR (unwrap_orR 0 (vblk_read32 vb 0x60))) (\<lambda>irq_status s.
              (Ok (), s\<lparr>bus_plic := (if irq_status = 0 then plic_clear_pending VIRTIO_BLK_IRQ (bus_plic s)
                                     else plic_set_pending VIRTIO_BLK_IRQ (bus_plic s))\<rparr>)) s)
     else (Ok (), s)))"

definition bus_write_rng :: "u64 \<Rightarrow> u32 \<Rightarrow> (bus, unit, mem_error) comp" where
  "bus_write_rng offset value =
     bindS (zoomS bus_virtio_rng (\<lambda>vr s. s\<lparr>bus_virtio_rng := vr\<rparr>) (vrng_write32 offset value)) (\<lambda>_.
     bindS (\<lambda>s. if offset = 0x50 \<and> value = 0 then process_virtio_rng_queue s else (Ok (), s)) (\<lambda>_ s.
     if offset = 0x64 then
       bindS (liftR (unwrap_orR 0 (vrng_read32 (bus_virtio_rng s) 0x60))) (\<lambda>irq_status s.
         (Ok (), s\<lparr>bus_plic := (if irq_status = 0 then plic_clear_pending VIRTIO_RNG_IRQ (bus_plic s)
                                else plic_set_pending VIRTIO_RNG_IRQ (bus_plic s))\<rparr>)) s
     else (Ok (), s)))"

definition bus_write32 :: "u64 \<Rightarrow> u32 \<Rightarrow> (bus, unit, mem_error) comp" where
  "bus_write32 addr value s =
     (if in_dram addr then zoom_bus_dram (dram_write32 (addr - DRAM_BASE) value) s
      else if in_range CLINT_BASE 0x020FFFFF addr then
        (let offset = addr - CLINT_BASE in
         if offset = CLINT_MSIP_OFFSET then (Ok (), s\<lparr>bus_msip := ucast (value AND 1)\<rparr>)
         else if offset = CLINT_MTIMECMP_OFFSET then
           (Ok (), s\<lparr>bus_mtimecmp := (bus_mtimecmp s AND 0xFFFFFFFF00000000) OR ucast value\<rparr>)
         else if offset = CLINT_MTIMECMP_OFFSET + 4 then
           (Ok (), s\<lparr>bus_mtimecmp := (bus_mtimecmp s AND 0x00000000FFFFFFFF) OR push_bit 32 (ucast value)\<rparr>)
         else (Ok (), s))
      else if in_range PLIC_BASE 0x0C5FFFFF addr then
        (case zoom_bus_plic (plic_write32 (addr - PLIC_BASE) value) s of
           (Panic, s') \<Rightarrow> (Panic, s')
         | (r, s') \<Rightarrow> (r, update_uart_irq s'))
      else if in_range UART_BASE 0x100000FF addr then
        bus_uart_access (uart_write8 (addr - UART_BASE) (ucast value)) s
      else if in_range VIRTIO_BASE 0x10001FFF addr then (Ok (), s)
      else if in_range VIRTIO_BLK_BASE 0x10002FFF addr then bus_write_blk (addr - VIRTIO_BLK_BASE) value s
      else if in_range 0x10003000 0x10006FFF addr then (Ok (), s)
      else if in_range VIRTIO_RNG_BASE 0x10007FFF addr then bus_write_rng (addr - VIRTIO_RNG_BASE) value s
      else if in_range 0x10008000 0x10008FFF addr then (Ok (), s)
      else if in_range FLASH_BASE 0x21FFFFFF addr then zoom_bus_flash (flash_write32 (addr - FLASH_BASE) value) s
      else if in_range FLASH_BANK1_BASE 0x23FFFFFF addr then (Ok (), s)
      else if in_range FW_CFG_BASE 0x10100017 addr then (Ok (), s)
      else if in_range PCI_BASE 0x3FFFFFFF addr then (Ok (), s)
      else (Ok (), s))"

subsection \<open>16-bit accesses\<close>

definition bus_read16 :: "u64 \<Rightarrow> (bus, u16, mem_error) comp" where
  "bus_read16 addr s =
     (if in_range MROM_BASE 0x0000FFFF addr then (mrom_read16 (bus_mrom s) (addr - MROM_BASE), s)
      else if in_dram addr then (dram_read16 (bus_dram s) (addr - DRAM_BASE), s)
      else if in_range PLIC_BASE 0x0C5FFFFF addr then (Ok 0, s)
      else if in_range VIRTIO_BASE 0x10001FFF addr then (Ok 0, s)
      else if in_range VIRTIO_BLK_BASE 0x10002FFF addr then (Ok 0, s)
      else if in_range 0x10003000 0x10006FFF addr then (Ok 0, s)
      else if in_range VIRTIO_RNG_BASE 0x10007FFF addr then (Ok 0, s)
      else if in_range 0x10008000 0x10008FFF addr then (Ok 0, s)
      else if in_range PCI_BASE 0x3FFFFFFF addr then (Ok 0, s)
      else if in_range FLASH_BASE 0x21FFFFFF addr then (flash_read16 (bus_flash s) (addr - FLASH_BASE), s)
      else if in_range FLASH_BANK1_BASE 0x23FFFFFF addr then (Ok 0xFFFF, s)
      else if in_range FW_CFG_BASE 0x10100017 addr then (Ok 0, s)
      else (Err BusReadRange, s))"

definition bus_write16 :: "u64 \<Rightarrow> u16 \<Rightarrow> (bus, unit, mem_error) comp" where
  "bus_write16 addr value s =
     (if in_dram addr then zoom_bus_dram (dram_write16 (addr - DRAM_BASE) value) s
      else if in_range PLIC_BASE 0x0C5FFFFF addr then (Ok (), s)
      else if in_range VIRTIO_BASE 0x10001FFF addr then (Ok (), s)
      else if in_range VIRTIO_BLK_BASE 0x10002FFF addr then (Ok (), s)
      else if in_range 0x10003000 0x10006FFF addr then (Ok (), s)
      else if in_range VIRTIO_RNG_BASE 0x10007FFF addr then (Ok (), s)
      else if in_range 0x10008000 0x10008FFF addr then (Ok (), s)
      else if in_range PCI_BASE 0x3FFFFFFF addr then (Ok (), s)
      else if in_range FLASH_BASE 0x21FFFFFF addr then zoom_bus_flash (flash_write16 (addr - FLASH_BASE) value) s
      else if in_range FLASH_BANK1_BASE 0x23FFFFFF addr then (Ok (), s)
      else if in_range FW_CFG_BASE 0x10100017 addr then (Ok (), s)
      else (Ok (), s))"

subsection \<open>8-bit accesses\<close>

text \<open>A byte of the configuration space comes out of the 32-bit register it lies in.\<close>

definition config_byte :: "u64 \<Rightarrow> (u32, mem_error) result \<Rightarrow> (u8, mem_error) result" where
  "config_byte offset reg =
     bindR (unwrap_orR 0 reg) (\<lambda>reg_value. Ok (ucast (drop_bit (unat (offset AND 3) * 8) reg_value AND 0xFF)))"

definition bus_read8 :: "u64 \<Rightarrow> (bus, u8, mem_error) comp" where
  "bus_read8 addr s =
     (if in_range MROM_BASE 0x0000FFFF addr then (mrom_read8 (bus_mrom s) (addr - MROM_BASE), s)
      else if in_dram addr then (dram_read8 (bus_dram s) (addr - DRAM_BASE), s)
      else if in_range UART_BASE 0x100000FF addr then bus_uart_access (uart_read8 (addr - UART_BASE)) s
      else if in_range PLIC_BASE 0x0C5FFFFF addr then (Ok 0, s)
      else if in_range VIRTIO_BASE 0x10001FFF addr then (Ok 0, s)
      else if in_range VIRTIO_BLK_BASE 0x10002FFF addr then
        (let offset = addr - VIRTIO_BLK_BASE in
         case bus_virtio_block s of
           Some vb \<Rightarrow>
             (if offset \<ge> 0x100 then (config_byte offset (vblk_read32 vb (offset AND NOT 3)), s) else (Ok 0, s))
         | None \<Rightarrow> (Ok 0, s))
      else if in_range 0x10003000 0x10006FFF addr then (Ok 0, s)
      else if in_range VIRTIO_RNG_BASE 0x10007FFF addr then
        (let offset = addr - VIRTIO_RNG_BASE in
         if offset \<ge> 0x100 then (config_byte offset (vrng_read32 (bus_virtio_rng s) (offset AND NOT 3)), s)
         else (Ok 0, s))
      else if in_range 0x10008000 0x10008FFF addr then (Ok 0, s)
      else if in_range PCI_BASE 0x3FFFFFFF addr then (Ok 0, s)
      else if in_range FLASH_BASE 0x21FFFFFF addr then (flash_read8 (bus_flash s) (addr - FLASH_BASE), s)
      else if in_range FLASH_BANK1_BASE 0x23FFFFFF addr then (Ok 0xFF, s)
      else if in_range FW_CFG_BASE 0x10100017 addr then (Ok 0, s)
      else (Err BusReadRange, s))"

definition bus_write8 :: "u64 \<Rightarrow> u8 \<Rightarrow> (bus, unit, mem_error) comp" where
  "bus_write8 addr value s =
     (if in_dram addr then zoom_bus_dram (dram_write8 (addr - DRAM_BASE) value) s
      else if in_range UART_BASE 0x100000FF addr then bus_uart_access (uart_write8 (addr - UART_BASE) value) s
      else if in_range PLIC_BASE 0x0C5FFFFF addr then (Ok (), s)
      else if in_range VIRTIO_BASE 0x10001FFF addr then (Ok (), s)
      else if in_range VIRTIO_BLK_BASE 0x10002FFF addr then (Ok (), s)
      else if in_range 0x10003000 0x10006FFF addr then (Ok (), s)
      else if in_range VIRTIO_RNG_BASE 0x10007FFF addr then (Ok (), s)
      else if in_range 0x10008000 0x10008FFF addr then (Ok (), s)
      else if in_range PCI_BASE 0x3FFFFFFF addr then (Ok (), s)
      else if in_range FLASH_BASE 0x21FFFFFF addr then zoom_bus_flash (flash_write8 (addr - FLASH_BASE) value) s
      else if in_range FLASH_BANK1_BASE 0x23FFFFFF addr then (Ok (), s)
      else if in_range FW_CFG_BASE 0x10100017 addr then (Ok (), s)
      else (Ok (), s))"

subsection \<open>Interrupt lines\<close>

definition bus_has_external_interrupt :: "bus \<Rightarrow> nat \<Rightarrow> bool" where
  "bus_has_external_interrupt s context_id = plic_has_pending_interrupt (bus_plic s) context_id"

definition bus_has_timer_interrupt :: "bus \<Rightarrow> bool" where
  "bus_has_timer_interrupt s \<longleftrightarrow> bus_mtime s \<ge> bus_mtimecmp s"

definition bus_has_s_timer_interrupt :: "bus \<Rightarrow> bool" where
  "bus_has_s_timer_interrupt s \<longleftrightarrow> bus_stimecmp s \<noteq> - 1 \<and> bus_mtime s \<ge> bus_stimecmp s"

definition bus_has_software_interrupt :: "bus \<Rightarrow> nat \<Rightarrow> bool" where
  "bus_has_software_interrupt s hart_id \<longleftrightarrow> drop_bit hart_id (bus_msip s) AND 1 \<noteq> 0"

subsection \<open>Accesses as operations\<close>

datatype bus_op =
    BusRead64 u64 | BusWrite64 u64 u64
  | BusRead32 u64 | BusWrite32 u64 u32
  | BusRead16 u64 | BusWrite16 u64 u16
  | BusRead8 u64 | BusWrite8 u64 u8

fun bus_step :: "bus_op \<Rightarrow> bus \<Rightarrow> bus" where
  "bus_step (BusRead64 a) s = snd (bus_read64 a s)"
| "bus_step (BusWrite64 a v) s = snd (bus_write64 a v s)"
| "bus_step (BusRead32 a) s = snd (bus_read32 a s)"
| "bus_step (BusWrite32 a w) s = snd (bus_write32 a w s)"
| "bus_step (BusRead16 a) s = snd (bus_read16 a s)"
| "bus_step (BusWrite16 a h) s = snd (bus_write16 a h s)"
| "bus_step (BusRead8 a) s = snd (bus_read8 a s)"
| "bus_step (BusWrite8 a b) s = snd (bus_write8 a b s)"

text \<open>
  Every access keeps the bus as it is, or works on one of its parts: these cases are all a
  proof about an arbitrary access has to look at.
\<close>

inductive bus_effect :: "bus \<Rightarrow> bus \<Rightarrow> bool" where
  same: "bus_effect s s"
| store: "dram_wf d = dram_wf (bus_dram s) \<Longrightarrow> dram_len d = dram_len (bus_dram s) \<Longrightarrow>
    bus_effect s (s\<lparr>bus_dram := d\<rparr>)"
| serial: "(\<exists>a. u = uart_step a (bus_uart s)) \<Longrightarrow> bus_effect s (s\<lparr>bus_uart := u\<rparr>)"
| serial_line: "(\<exists>a. u = uart_step a (bus_uart s)) \<Longrightarrow> bus_effect s (update_uart_irq (s\<lparr>bus_uart := u\<rparr>))"
| claim: "p = snd (plic_read32 off (bus_plic s)) \<Longrightarrow> bus_effect s (s\<lparr>bus_plic := p\<rparr>)"
| controller: "p = snd (plic_write32 off v (bus_plic s)) \<Longrightarrow> bus_effect s (update_uart_irq (s\<lparr>bus_plic := p\<rparr>))"
| flash_command: "f = snd (flash_write off cmd n (bus_flash s)) \<Longrightarrow> bus_effect s (s\<lparr>bus_flash := f\<rparr>)"
| msip: "m = v AND 1 \<Longrightarrow> bus_effect s (s\<lparr>bus_msip := m\<rparr>)"
| mtimecmp: "bus_effect s (s\<lparr>bus_mtimecmp := t\<rparr>)"
| block_device: "s' = snd (bus_write_blk off w s) \<Longrightarrow> bus_effect s s'"
| rng_device: "s' = snd (bus_write_rng off w s) \<Longrightarrow> bus_effect s s'"

lemma mapS_uart_access_cases:
  assumes "\<And>u. \<exists>a. snd (m u) = uart_step a u"
  shows "bus_effect s (snd (bus_uart_access m s))"
proof -
  obtain r u where m: "m (bus_uart s) = (r, u)" by fastforce
  then have "\<exists>a. u = uart_step a (bus_uart s)" using assms [of "bus_uart s"] by simp
  then show ?thesis
    by (cases r) (auto simp: bus_uart_access_def m intro: bus_effect.serial bus_effect.serial_line)
qed

lemma uart_access_read: "bus_effect s (snd (bus_uart_access (uart_read8 off) s))"
  by (rule mapS_uart_access_cases) (rule exI [of _ "URead off"], simp)

lemma uart_access_write: "bus_effect s (snd (bus_uart_access (uart_write8 off v) s))"
  by (rule mapS_uart_access_cases) (rule exI [of _ "UWrite off v"], simp)

lemma effect_if: "bus_effect s (snd A) \<Longrightarrow> bus_effect s (snd B) \<Longrightarrow> bus_effect s (snd (if c then A else B))"
  by simp

lemma effect_option:
  "bus_effect s (snd A) \<Longrightarrow> (\<And>x. bus_effect s (snd (B x))) \<Longrightarrow>
   bus_effect s (snd (case x of None \<Rightarrow> A | Some x \<Rightarrow> B x))"
  by (cases x) simp_all

lemma effect_pair: "bus_effect s t \<Longrightarrow> bus_effect s (snd (r, t))"
  by simp

lemma effect_map: "bus_effect s (snd (m s)) \<Longrightarrow> bus_effect s (snd (mapS f m s))"
  by simp

lemma effect_dram:
  "dram_wf (snd (m (bus_dram s))) = dram_wf (bus_dram s) \<Longrightarrow> dram_len (snd (m (bus_dram s))) = dram_len (bus_dram s) \<Longrightarrow>
   bus_effect s (snd (zoom_bus_dram m s))"
  by (simp add: bus_effect.store)

lemma effect_flash: "bus_effect s (snd (zoom_bus_flash (flash_write off v n) s))"
  by (simp add: bus_effect.flash_command)

lemma effect_claim: "bus_effect s (snd (zoom_bus_plic (plic_read32 off) s))"
  by (simp add: bus_effect.claim)

lemma effect_plic_write:
  "bus_effect s (snd (case zoom_bus_plic (plic_write32 off v) s of
     (Panic, s') \<Rightarrow> (Panic, s') | (r, s') \<Rightarrow> (r, update_uart_irq s')))"
proof -
  obtain p where w: "plic_write32 off v (bus_plic s) = (Ok (), p)"
    using plic_access_ok(2) [of off v "bus_plic s"] by (cases "plic_write32 off v (bus_plic s)"; cases "fst (plic_write32 off v (bus_plic s))") auto
  then show ?thesis using bus_effect.controller [of p off v s] by (simp add: zoomS_def)
qed

lemma effect_msip32: "bus_effect s (s\<lparr>bus_msip := ucast (v AND 1)\<rparr>)" for v :: u32
proof (rule bus_effect.msip)
  show "(ucast (v AND 1) :: u64) = ucast v AND 1" by (rule bit_word_eqI) (auto simp: bit_simps)
qed

lemmas effect_rules =
  effect_if effect_option effect_pair effect_map effect_dram effect_flash effect_claim effect_plic_write
  uart_access_read uart_access_write bus_effect.same bus_effect.mtimecmp effect_msip32
  bus_effect.msip [OF refl] bus_effect.block_device [OF refl] bus_effect.rng_device [OF refl]

lemmas effect_unfold = flash_write64_def flash_write32_def flash_write16_def flash_write8_def Let_def

lemma bus_read_effect:
  "bus_effect s (snd (bus_read64 a s))" "bus_effect s (snd (bus_read32 a s))"
  "bus_effect s (snd (bus_read16 a s))" "bus_effect s (snd (bus_read8 a s))"
  unfolding bus_read64_def bus_read32_def bus_read16_def bus_read8_def effect_unfold
  by (intro effect_rules)+

lemma bus_write_effect:
  "bus_effect s (snd (bus_write64 a v64 s))" "bus_effect s (snd (bus_write32 a v32 s))"
  "bus_effect s (snd (bus_write16 a v16 s))" "bus_effect s (snd (bus_write8 a v8 s))"
  unfolding bus_write64_def bus_write32_def bus_write16_def bus_write8_def effect_unfold
  by (intro effect_rules; simp add: frame_simps)+

lemma bus_step_effect: "bus_effect s (bus_step a s)"
  by (cases a) (simp_all add: bus_read_effect bus_write_effect)

subsection \<open>The bus invariant\<close>

definition bus_wf :: "bus \<Rightarrow> bool" where
  "bus_wf s \<longleftrightarrow> dram_wf (bus_dram s) \<and> mrom_wf (bus_mrom s) \<and> flash_wf (bus_flash s) \<and> plic_wf (bus_plic s) \<and>
     uart_wf (bus_uart s) \<and> bus_msip s \<le> 1 \<and>
     (\<forall>vb. bus_virtio_block s = Some vb \<longrightarrow>
        length (disk_bytes (vb_disk vb)) < 2 ^ 63 \<and> unat (vb_capacity vb) = length (disk_bytes (vb_disk vb)) div 512 \<and>
        vb_callback vb = Some VIRTIO_BLK_IRQ) \<and>
     vr_callback (bus_virtio_rng s) = Some VIRTIO_RNG_IRQ"

text \<open>What no access touches, and what only the two write paths of the timer touch.\<close>

definition bus_fixed :: "bus \<Rightarrow> bus \<Rightarrow> bool" where
  "bus_fixed s s' \<longleftrightarrow> bus_mrom s' = bus_mrom s \<and> bus_mtime s' = bus_mtime s \<and> bus_stimecmp s' = bus_stimecmp s \<and>
     bus_now_secs s' = bus_now_secs s \<and> dram_len (bus_dram s') = dram_len (bus_dram s) \<and>
     flash_data (bus_flash s') = flash_data (bus_flash s)"

lemma bus_new_wf:
  assumes "mrom_wf rom" and "dram_wf d" and "flash_wf fl"
    and "\<And>file. drive = Some file \<Longrightarrow> length (disk_bytes file) < 2 ^ 63"
  shows "bus_wf (bus_new rom d fl drive urandom clock now)"
  using assms
  by (auto simp: bus_wf_def bus_new_def plic_new_wf uart_new_wf vblk_new_def vblk_set_interrupt_callback_def
      vrng_set_interrupt_callback_def unat_div unat_of_nat take_bit_nat_eq_self split: option.splits)

lemma update_uart_irq_wf: "bus_wf (update_uart_irq s) = bus_wf s"
  by (simp add: bus_wf_def update_uart_irq_def frame_simps)

lemma update_uart_irq_fixed: "bus_fixed s0 (update_uart_irq s) = bus_fixed s0 s"
  by (simp add: bus_fixed_def update_uart_irq_def)

lemma block_queue_keeps:
  assumes "bus_wf s" and "bus_fixed s0 s"
  shows "bus_wf (snd (process_virtio_block_queue s)) \<and> bus_fixed s0 (snd (process_virtio_block_queue s))"
proof (cases "bus_virtio_block s")
  case None
  with assms show ?thesis by (simp add: process_virtio_block_queue_def)
next
  case (Some vb)
  let ?c = "\<lparr>vc_dev = vb, vc_dram = bus_dram s, vc_plic = bus_plic s\<rparr>"
  have "vblk_inv (length (disk_bytes (vb_disk vb))) (dram_len (bus_dram s)) (Some VIRTIO_BLK_IRQ) ?c"
    using assms(1) Some by (simp add: vblk_inv_def bus_wf_def)
  from vblk_process_inv [OF this, of DRAM_BASE] show ?thesis
    using assms Some
    by (auto simp: process_virtio_block_queue_def vblk_inv_def bus_wf_def bus_fixed_def split: prod.split)
qed

lemma rng_queue_keeps:
  assumes "bus_wf s" and "bus_fixed s0 s"
  shows "bus_wf (snd (process_virtio_rng_queue s)) \<and> bus_fixed s0 (snd (process_virtio_rng_queue s))"
proof -
  let ?c = "\<lparr>vc_dev = bus_virtio_rng s, vc_dram = bus_dram s, vc_plic = bus_plic s\<rparr>"
  have "vrng_inv (dram_len (bus_dram s)) (Some VIRTIO_RNG_IRQ) ?c"
    using assms(1) by (simp add: vrng_inv_def bus_wf_def)
  from vrng_process_inv [OF this, of DRAM_BASE] show ?thesis
    using assms by (auto simp: process_virtio_rng_queue_def vrng_inv_def bus_wf_def bus_fixed_def split: prod.split)
qed

lemma vblk_write32_keeps:
  "vb_disk (snd (vblk_write32 off v vb)) = vb_disk vb" "vb_capacity (snd (vblk_write32 off v vb)) = vb_capacity vb"
  "vb_callback (snd (vblk_write32 off v vb)) = vb_callback vb"
  by (auto simp: vblk_write32_def vblk_reset_def)

lemma vrng_write32_keeps: "vr_callback (snd (vrng_write32 off v vr)) = vr_callback vr"
  by (auto simp: vrng_write32_def vrng_reset_def)

lemma bus_write_blk_keeps:
  assumes "bus_wf s"
  shows "bus_wf (snd (bus_write_blk off v s)) \<and> bus_fixed s (snd (bus_write_blk off v s))"
  unfolding bus_write_blk_def
proof (rule bindS_inv [where P = "\<lambda>s'. bus_wf s' \<and> bus_fixed s s'"], goal_cases)
  case 1
  then show ?case
    using assms by (auto simp: bus_wf_def bus_fixed_def vblk_write32_keeps case_prod_beta split: option.split)
next
  case (2 u s1)
  then show ?case
  proof (intro bindS_inv [where P = "\<lambda>s'. bus_wf s' \<and> bus_fixed s s'"], goal_cases)
    case 1
    then show ?case using block_queue_keeps by auto
  next
    case (2 u s2)
    then show ?case
      by (auto simp: bus_wf_def bus_fixed_def frame_simps vblk_read32_def bindS_def split: option.split)
  qed
qed

lemma bus_write_rng_keeps:
  assumes "bus_wf s"
  shows "bus_wf (snd (bus_write_rng off v s)) \<and> bus_fixed s (snd (bus_write_rng off v s))"
  unfolding bus_write_rng_def
proof (rule bindS_inv [where P = "\<lambda>s'. bus_wf s' \<and> bus_fixed s s'"], goal_cases)
  case 1
  then show ?case using assms by (auto simp: bus_wf_def bus_fixed_def vrng_write32_keeps)
next
  case (2 u s1)
  then show ?case
  proof (intro bindS_inv [where P = "\<lambda>s'. bus_wf s' \<and> bus_fixed s s'"], goal_cases)
    case 1
    then show ?case using rng_queue_keeps by auto
  next
    case (2 u s2)
    then show ?case by (auto simp: bus_wf_def bus_fixed_def frame_simps vrng_read32_def bindS_def)
  qed
qed

lemma and_1_le: "v AND 1 \<le> (1 :: u64)"
  by (rule word_le_and_mask)

lemma bus_effect_keeps: "bus_effect s s' \<Longrightarrow> bus_wf s \<Longrightarrow> bus_wf s' \<and> bus_fixed s s'"
proof (induction rule: bus_effect.induct)
  case (store d s)
  then show ?case by (auto simp: bus_wf_def bus_fixed_def)
next
  case (serial u s)
  then show ?case by (auto simp: bus_wf_def bus_fixed_def uart_step_wf)
next
  case (serial_line u s)
  then have "bus_wf (s\<lparr>bus_uart := u\<rparr>) \<and> bus_fixed s (s\<lparr>bus_uart := u\<rparr>)"
    by (auto simp: bus_wf_def bus_fixed_def uart_step_wf)
  then show ?case by (simp add: update_uart_irq_wf update_uart_irq_fixed)
next
  case (claim p off s)
  then show ?case by (auto simp: bus_wf_def bus_fixed_def frame_simps)
next
  case (controller p off v s)
  then have "bus_wf (s\<lparr>bus_plic := p\<rparr>) \<and> bus_fixed s (s\<lparr>bus_plic := p\<rparr>)"
    by (auto simp: bus_wf_def bus_fixed_def plic_write32_wf)
  then show ?case by (simp add: update_uart_irq_wf update_uart_irq_fixed)
next
  case (block_device s' off w s)
  then show ?case using bus_write_blk_keeps by blast
next
  case (rng_device s' off w s)
  then show ?case using bus_write_rng_keeps by blast
qed (auto simp: bus_wf_def bus_fixed_def frame_simps and_1_le)

lemma bus_step_keeps: "bus_wf s \<Longrightarrow> bus_wf (bus_step a s) \<and> bus_fixed s (bus_step a s)"
  by (rule bus_effect_keeps [OF bus_step_effect])

lemma bus_fixed_trans: "bus_fixed s t \<Longrightarrow> bus_fixed t u \<Longrightarrow> bus_fixed s u"
  by (simp add: bus_fixed_def)

lemma bus_run_keeps: "bus_wf s \<Longrightarrow> bus_wf (fold bus_step ops s) \<and> bus_fixed s (fold bus_step ops s)"
proof (induction ops arbitrary: s)
  case Nil
  then show ?case by (simp add: bus_fixed_def)
next
  case (Cons a ops)
  then show ?case using bus_step_keeps [of s a] by (auto intro: bus_fixed_trans)
qed

subsection \<open>A concrete machine\<close>

definition bus_example :: bus where
  "bus_example = bus_new (mrom_new le_byteorder 0xf000) (dram_new le_byteorder 65536) (flash_new 1024) None None (\<lambda>_. 1) 0"

lemma bus_example_wf: "bus_wf bus_example"
  unfolding bus_example_def
  by (rule bus_new_wf)
    (simp_all add: mrom_new_wf dram_new_wf le_instance.little_endian_axioms flash_wf_def flash_new_def)

subsection \<open>The invariant, reachability\<close>

text \<open>
  The bus invariant: from any machine built over well-formed memories, every
  sequence of guest accesses, of any width, to any address, with any outcome, keeps the
  memories and devices well formed, the software interrupt register at most 1, interrupt
  priorities and thresholds at most 7, the block device's capacity that of its image, and
  the two virtio devices on their interrupt lines.
\<close>

theorem bus_reachable_wf:
  assumes "mrom_wf rom" and "dram_wf d" and "flash_wf fl"
    and "\<And>file. drive = Some file \<Longrightarrow> length (disk_bytes file) < 2 ^ 63"
  shows "bus_wf (fold bus_step ops (bus_new rom d fl drive urandom clock now))"
  using bus_run_keeps [OF bus_new_wf [OF assms]] by blast

theorem bus_reachable_wf_witness:
  "bus_wf (fold bus_step [BusWrite32 0x0c000028 9, BusWrite8 0x10000000 65, BusWrite64 0x02000000 7] bus_example)"
  unfolding bus_example_def
  by (rule bus_reachable_wf)
    (simp_all add: mrom_new_wf dram_new_wf le_instance.little_endian_axioms flash_wf_def flash_new_def)

text \<open>
  What the guest cannot change by any sequence of accesses, device DMA
  included: the boot ROM, the bytes of the flash, the size of main memory, and the timer
  count.
\<close>

theorem bus_rom_and_time_fixed:
  assumes "bus_wf s"
  shows "bus_mrom (fold bus_step ops s) = bus_mrom s \<and> flash_data (bus_flash (fold bus_step ops s)) = flash_data (bus_flash s) \<and>
    dram_len (bus_dram (fold bus_step ops s)) = dram_len (bus_dram s) \<and> bus_mtime (fold bus_step ops s) = bus_mtime s"
  using bus_run_keeps [OF assms, of ops] by (simp add: bus_fixed_def)

theorem bus_rom_and_time_fixed_witness:
  "bus_mrom (fold bus_step [BusWrite32 0x1000 7, BusWrite64 0x200BFF8 5, BusWrite8 0x20000000 0x40] bus_example) = bus_mrom bus_example"
  using bus_rom_and_time_fixed [OF bus_example_wf, of "[BusWrite32 0x1000 7, BusWrite64 0x200BFF8 5, BusWrite8 0x20000000 0x40]"]
  by blast

subsection \<open>Main memory on the bus\<close>

lemma in_dram_not_rom: "in_dram a \<Longrightarrow> \<not> in_range MROM_BASE 0xFFFF a"
  by (simp add: in_dram_def in_range_def word_le_nat_alt word_less_nat_alt)

lemma bus_dram_access:
  assumes "in_dram a"
  shows "bus_read64 a s = (dram_read64 (bus_dram s) (a - DRAM_BASE), s)"
    and "bus_read32 a s = (dram_read32 (bus_dram s) (a - DRAM_BASE), s)"
    and "bus_read16 a s = (dram_read16 (bus_dram s) (a - DRAM_BASE), s)"
    and "bus_read8 a s = (dram_read8 (bus_dram s) (a - DRAM_BASE), s)"
    and "bus_write64 a v64 s = zoom_bus_dram (dram_write64 (a - DRAM_BASE) v64) s"
    and "bus_write32 a v32 s = zoom_bus_dram (dram_write32 (a - DRAM_BASE) v32) s"
    and "bus_write16 a v16 s = zoom_bus_dram (dram_write16 (a - DRAM_BASE) v16) s"
    and "bus_write8 a v8 s = zoom_bus_dram (dram_write8 (a - DRAM_BASE) v8) s"
  using assms in_dram_not_rom [OF assms]
  by (simp_all add: bus_read64_def bus_read32_def bus_read16_def bus_read8_def
      bus_write64_def bus_write32_def bus_write16_def bus_write8_def)

text \<open>A cell of \<open>n\<close> bytes of main memory at a bus address.\<close>

definition dram_cell :: "nat \<Rightarrow> bus \<Rightarrow> u64 \<Rightarrow> bool" where
  "dram_cell n s a \<longleftrightarrow> bus_wf s \<and> in_dram a \<and> unat a - 0x80000000 + n \<le> dram_len (bus_dram s)"

lemma in_dram_unat: "in_dram a \<Longrightarrow> unat (a - DRAM_BASE) = unat a - 0x80000000 \<and> 0x80000000 \<le> unat a"
  by (simp add: in_dram_def word_le_nat_alt word_less_nat_alt unat_sub)

lemma dram_cell_parts: "dram_cell n s a \<Longrightarrow> in_dram a" "dram_cell n s a \<Longrightarrow> dram_wf (bus_dram s)"
  "dram_cell n s a \<Longrightarrow> unat (a - DRAM_BASE) + n \<le> dram_len (bus_dram s)"
  by (auto simp: dram_cell_def bus_wf_def in_dram_unat)

lemma dram_cell_write:
  "dram_wf d = dram_wf (bus_dram s) \<Longrightarrow> dram_len d = dram_len (bus_dram s) \<Longrightarrow>
   dram_cell n (s\<lparr>bus_dram := d\<rparr>) a = dram_cell n s a"
  by (simp add: dram_cell_def bus_wf_def)

lemma dram_cell_apart:
  "dram_cell n s a \<Longrightarrow> dram_cell n s b \<Longrightarrow> unat a + n \<le> unat b \<or> unat b + n \<le> unat a \<Longrightarrow>
   unat (a - DRAM_BASE) + n \<le> unat (b - DRAM_BASE) \<or> unat (b - DRAM_BASE) + n \<le> unat (a - DRAM_BASE)"
  using in_dram_unat [of a] in_dram_unat [of b] by (auto simp: dram_cell_def)

interpretation bus_mem64: cell_memory "\<lambda>s a. fst (bus_read64 a s)" bus_write64 "dram_cell 8" 8
proof (unfold_locales, goal_cases)
  case (1 s a v)
  then show ?case using dram64.wr_ok [of "bus_dram s" "a - DRAM_BASE" v] dram_cell_parts [OF 1]
    by (simp add: bus_dram_access zoomS_def case_prod_beta)
next
  case (2 s a v b)
  then show ?case by (simp add: bus_dram_access dram_cell_parts dram_cell_write frame_simps)
next
  case (3 s a v)
  then show ?case using dram64.rd_same [of "bus_dram s" "a - DRAM_BASE" v] dram_cell_parts [OF 3]
    by (simp add: bus_dram_access)
next
  case (4 s a b v)
  then show ?case
    using dram64.rd_other [of "bus_dram s" "a - DRAM_BASE" "b - DRAM_BASE" v] dram_cell_apart [OF 4]
      dram_cell_parts [OF 4(1)] dram_cell_parts [OF 4(2)]
    by (simp add: bus_dram_access)
qed

text \<open>
  Property C29. Main memory seen from the bus: after stores of 64-bit values to
  non-overlapping cells of main memory, in any order, every one of them is read back, and
  no device and no other register of the bus has changed.
\<close>

theorem bus_dram_stores_observed:
  assumes "\<forall>(a, v) \<in> set ws. dram_cell 8 s a"
    and "sorted_wrt (\<lambda>(a, v) (b, w). unat a + 8 \<le> unat b \<or> unat b + 8 \<le> unat a) ws"
  shows "(\<forall>(a, v) \<in> set ws. fst (bus_read64 a (fold (\<lambda>(a, v) s. snd (bus_write64 a v s)) ws s)) = Ok v) \<and>
    (\<exists>d. fold (\<lambda>(a, v) s. snd (bus_write64 a v s)) ws s = s\<lparr>bus_dram := d\<rparr>)"
proof
  show "\<forall>(a, v) \<in> set ws. fst (bus_read64 a (fold (\<lambda>(a, v) s. snd (bus_write64 a v s)) ws s)) = Ok v"
    using assms bus_mem64.stores_observed [of ws s] by blast
  show "\<exists>d. fold (\<lambda>(a, v) s. snd (bus_write64 a v s)) ws s = s\<lparr>bus_dram := d\<rparr>"
    using assms(1)
  proof (induction ws arbitrary: s)
    case Nil
    then show ?case by (auto intro: exI [of _ "bus_dram s"])
  next
    case (Cons w ws)
    obtain a v where w: "w = (a, v)" by fastforce
    have good: "dram_cell 8 s a" using Cons.prems by (simp add: w)
    then obtain d where d: "snd (bus_write64 a v s) = s\<lparr>bus_dram := d\<rparr>"
      by (simp add: bus_dram_access dram_cell_parts)
    have "\<forall>(a', v') \<in> set ws. dram_cell 8 (snd (bus_write64 a v s)) a'"
      using Cons.prems bus_mem64.good_wr [OF good] by (auto simp: w)
    from Cons.IH [OF this] show ?case by (auto simp: w d)
  qed
qed

theorem bus_dram_stores_observed_witness:
  "fst (bus_read64 0x80000010 (fold (\<lambda>(a, v) s. snd (bus_write64 a v s)) [(0x80000010, 5), (0x80000008, 6)] bus_example)) = Ok 5"
proof -
  have len: "dram_len (bus_dram bus_example) = 65536" by (simp add: bus_example_def bus_new_def dram_new_def)
  have cells: "\<forall>(a, v) \<in> set [(0x80000010 :: u64, 5 :: u64), (0x80000008, 6)]. dram_cell 8 bus_example a"
    by (simp add: dram_cell_def bus_example_wf in_dram_def len)
  have apart: "sorted_wrt (\<lambda>(a, v) (b, w). unat a + 8 \<le> unat b \<or> unat b + 8 \<le> unat a)
      [(0x80000010 :: u64, 5 :: u64), (0x80000008, 6)]" by simp
  show ?thesis using bus_dram_stores_observed [OF cells apart] by auto
qed

subsection \<open>The timer registers\<close>

text \<open>
  The timer registers behave as 64-bit registers of two halves: writing the
  low and the high word of the compare register makes a 64-bit read return their
  combination and the timer interrupt pending exactly from that time on; the two word
  reads of the timer are the halves of the 64-bit read, which is the timer.
\<close>

theorem clint_timer_halves:
  "let s' = snd (bus_write32 (CLINT_BASE + CLINT_MTIMECMP_OFFSET + 4) hi
              (snd (bus_write32 (CLINT_BASE + CLINT_MTIMECMP_OFFSET) lo s)));
       cmp = (ucast lo OR push_bit 32 (ucast hi) :: u64) in
   fst (bus_read64 (CLINT_BASE + CLINT_MTIMECMP_OFFSET) s') = Ok cmp \<and>
   bus_has_timer_interrupt s' = (cmp \<le> bus_mtime s) \<and>
   fst (bus_read64 (CLINT_BASE + CLINT_MTIME_OFFSET) s) = Ok (bus_mtime s) \<and>
   (\<exists>l h. fst (bus_read32 (CLINT_BASE + CLINT_MTIME_OFFSET) s) = Ok l \<and>
          fst (bus_read32 (CLINT_BASE + CLINT_MTIME_OFFSET + 4) s) = Ok h \<and>
          bus_mtime s = ucast l OR push_bit 32 (ucast h))"
proof -
  have short: "\<not> bit lo n" if "32 \<le> n" for n using that bit_imp_le_length [of lo n] by auto
  have halves: "((t AND 0xFFFFFFFF00000000 OR ucast lo) AND 0x00000000FFFFFFFF OR push_bit 32 (ucast hi) :: u64) =
      ucast lo OR push_bit 32 (ucast hi)" for t :: u64
    by (rule u64_eqI) (simp add: upt_64 bit_simps short)
  have join: "(ucast (ucast t :: u32) OR push_bit 32 (ucast (ucast (drop_bit 32 t) :: u32)) :: u64) = t" for t :: u64
    by (rule bit_word_eqI) (auto simp: bit_simps)
  show ?thesis
    by (simp add: bus_write32_def bus_read64_def bus_read32_def in_range_def in_dram_def Let_def
        bus_has_timer_interrupt_def halves join)
qed

subsection \<open>Device lines\<close>

definition uart_live :: "uart \<Rightarrow> bool" where
  "uart_live u \<longleftrightarrow> uart_stdout_ok u \<and> unat (uart_thr_write_count u) + 1 < 2 ^ 64 \<and>
     unat (uart_thre_interrupt_count u) + 1 < 2 ^ 64"

lemma uart_live_ok:
  "uart_live u \<Longrightarrow> \<exists>v u'. uart_read8 off u = (Ok v, u')" "uart_live u \<Longrightarrow> \<exists>u'. uart_write8 off b u = (Ok (), u')"
  by (auto simp: uart_live_def uart_read8_def uart_write8_def add_ck_def Let_def split: list.split)

lemma update_uart_irq_line:
  "irq_pending (bus_plic (update_uart_irq s)) j =
     (if j = 10 then uart_has_pending_interrupt (bus_uart s) else irq_pending (bus_plic s) j)"
  using plic_lines.level [of UART_IRQ "uart_has_pending_interrupt (bus_uart s)" "bus_plic s" j]
  by (simp add: update_uart_irq_def)

lemma bus_uart_access_line:
  assumes "\<exists>v u'. m (bus_uart s) = (Ok v, u')"
  shows "irq_pending (bus_plic (snd (bus_uart_access m s))) 10 = uart_has_pending_interrupt (bus_uart (snd (bus_uart_access m s))) \<and>
    (\<forall>j. j \<noteq> 10 \<longrightarrow> irq_pending (bus_plic (snd (bus_uart_access m s))) j = irq_pending (bus_plic s) j)"
proof -
  obtain v u' where "m (bus_uart s) = (Ok v, u')" using assms by blast
  then have "snd (bus_uart_access m s) = update_uart_irq (s\<lparr>bus_uart := u'\<rparr>)" by (simp add: bus_uart_access_def)
  moreover have "bus_uart (update_uart_irq (s\<lparr>bus_uart := u'\<rparr>)) = u'" by (simp add: update_uart_irq_def)
  ultimately show ?thesis by (simp add: update_uart_irq_line)
qed

text \<open>The accesses that reach the serial port.\<close>

fun uart_op_at :: "bus_op \<Rightarrow> u64 \<Rightarrow> bool" where
  "uart_op_at (BusRead64 a) b = (a = b)"
| "uart_op_at (BusWrite64 a v) b = (a = b)"
| "uart_op_at (BusRead32 a) b = (a = b)"
| "uart_op_at (BusWrite32 a w) b = (a = b)"
| "uart_op_at (BusRead8 a) b = (a = b)"
| "uart_op_at (BusWrite8 a v) b = (a = b)"
| "uart_op_at _ b = False"

text \<open>
  Property C36. The serial interrupt is level-triggered: after every 8-, 32- or 64-bit
  access to the serial port, its line at the interrupt controller is high exactly when the
  port has an interrupt condition, and no other line has moved.
\<close>

theorem uart_line_driven:
  assumes "in_range UART_BASE 0x100000FF b" and "uart_op_at a b" and "uart_live (bus_uart s)"
  shows "irq_pending (bus_plic (bus_step a s)) 10 = uart_has_pending_interrupt (bus_uart (bus_step a s)) \<and>
    (\<forall>j. j \<noteq> 10 \<longrightarrow> irq_pending (bus_plic (bus_step a s)) j = irq_pending (bus_plic s) j)"
proof -
  have not: "\<not> in_range MROM_BASE 0x0000FFFF b" "\<not> in_dram b" "\<not> in_range CLINT_BASE 0x020FFFFF b"
      "\<not> in_range PLIC_BASE 0x0C5FFFFF b"
    using assms(1) by (auto simp: in_range_def in_dram_def word_le_nat_alt word_less_nat_alt)
  note rd = bus_uart_access_line [of "uart_read8 off" s for off, OF uart_live_ok(1) [OF assms(3)]]
  have wr: "irq_pending (bus_plic (snd (bus_uart_access (uart_write8 off v) s))) 10 =
        uart_has_pending_interrupt (bus_uart (snd (bus_uart_access (uart_write8 off v) s))) \<and>
      (\<forall>j. j \<noteq> 10 \<longrightarrow> irq_pending (bus_plic (snd (bus_uart_access (uart_write8 off v) s))) j = irq_pending (bus_plic s) j)"
    for off v
    using bus_uart_access_line [of "uart_write8 off v" s] uart_live_ok(2) [OF assms(3)] by blast
  show ?thesis
    using assms(2) not
    by (cases a) (simp_all add: assms(1) bus_read64_def bus_read32_def bus_read8_def
        bus_write64_def bus_write32_def bus_write8_def rd wr)
qed

theorem uart_line_driven_witness:
  "irq_pending (bus_plic (bus_step (BusWrite8 0x10000001 2) bus_example)) 10 =
     uart_has_pending_interrupt (bus_uart (bus_step (BusWrite8 0x10000001 2) bus_example))"
proof -
  have "in_range UART_BASE 0x100000FF 0x10000001" by (simp add: in_range_def)
  moreover have "uart_op_at (BusWrite8 0x10000001 2) 0x10000001" by simp
  moreover have "uart_live (bus_uart bus_example)" by (simp add: uart_live_def bus_example_def bus_new_def uart_new_def)
  ultimately show ?thesis by (rule uart_line_driven [THEN conjunct1])
qed

text \<open>
  Acknowledging the block device: the write clears the acknowledged bits of its
  interrupt status, and its line at the interrupt controller is high exactly when a bit is
  left; no other line moves.
\<close>

theorem block_ack_lowers_line:
  assumes "bus_virtio_block s = Some vb"
  shows "\<exists>s' vb'. bus_write32 (VIRTIO_BLK_BASE + 0x64) v s = (Ok (), s') \<and> bus_virtio_block s' = Some vb' \<and>
    vb_interrupt_status vb' = vb_interrupt_status vb AND NOT v \<and>
    irq_pending (bus_plic s') 2 = (vb_interrupt_status vb' \<noteq> 0) \<and>
    (\<forall>j. j \<noteq> 2 \<longrightarrow> irq_pending (bus_plic s') j = irq_pending (bus_plic s) j)"
  using assms
  by (simp add: bus_write32_def in_range_def in_dram_def bus_write_blk_def bindS_def vblk_write32_def vblk_read32_def
      plic_set_pending_line plic_clear_pending_line)

theorem block_ack_lowers_line_witness:
  "\<exists>s'. bus_write32 (VIRTIO_BLK_BASE + 0x64) 1 (bus_example\<lparr>bus_virtio_block := Some (vc_dev vblk_flush_example)\<rparr>) = (Ok (), s') \<and>
     irq_pending (bus_plic s') 2 = False"
proof -
  have "vb_interrupt_status (vc_dev vblk_flush_example) = 0" by (simp add: vblk_flush_ctx)
  then show ?thesis
    using block_ack_lowers_line [of "bus_example\<lparr>bus_virtio_block := Some (vc_dev vblk_flush_example)\<rparr>" "vc_dev vblk_flush_example" 1]
    by auto
qed

end
