(* ===== verification/Mmu.thy ===== *)
theory Mmu
  imports Prelude Trap Bus
begin

text \<open>
  \<open>src/src/mmu.rs\<close>: address translation. The three walks of the code (Sv39, Sv48, Sv57)
  differ in the number of levels and in the canonical-address check; the loop over the
  levels, the permission check, the superpage alignment masks of each level and the
  update of the accessed and dirty bits are the same text, so they are one recursive
  walk here. The lemmas relate the walk to the page-table lookup it computes and show
  what a translation can and cannot return.
\<close>

datatype access_type = Instruction | Load | Store

abbreviation VPN_MASK :: u64 where "VPN_MASK \<equiv> 0x1FF"
abbreviation PTE_V :: u64 where "PTE_V \<equiv> 0x01"
abbreviation PTE_R :: u64 where "PTE_R \<equiv> 0x02"
abbreviation PTE_W :: u64 where "PTE_W \<equiv> 0x04"
abbreviation PTE_X :: u64 where "PTE_X \<equiv> 0x08"
abbreviation PTE_U :: u64 where "PTE_U \<equiv> 0x10"
abbreviation PTE_A :: u64 where "PTE_A \<equiv> 0x40"
abbreviation PTE_D :: u64 where "PTE_D \<equiv> 0x80"
abbreviation PPN_MASK :: u64 where "PPN_MASK \<equiv> 0x0FFFFFFFFFFF"

primrec page_fault :: "access_type \<Rightarrow> trap" where
  "page_fault Instruction = Exception InstructionPageFault"
| "page_fault Load = Exception LoadPageFault"
| "page_fault Store = Exception StoreAMOPageFault"

definition check_permissions :: "u64 \<Rightarrow> access_type \<Rightarrow> mode \<Rightarrow> u64 \<Rightarrow> (unit, trap) result" where
  "check_permissions pte acc m mstatus =
     (let pte_r = pte AND PTE_R \<noteq> 0;
          pte_w = pte AND PTE_W \<noteq> 0;
          pte_x = pte AND PTE_X \<noteq> 0;
          pte_u = pte AND PTE_U \<noteq> 0;
          mxr = drop_bit 19 mstatus AND 1 \<noteq> 0;
          sum = drop_bit 18 mstatus AND 1 \<noteq> 0 in
      if pte_u \<and> m = Supervisor \<and> \<not> sum then Err (page_fault acc)
      else if \<not> pte_u \<and> m = User then Err (page_fault acc)
      else
        (case acc of
           Instruction \<Rightarrow>
             if pte_u \<and> m = Supervisor then Err (Exception InstructionPageFault)
             else if \<not> pte_x then Err (Exception InstructionPageFault)
             else Ok ()
         | Load \<Rightarrow> if \<not> pte_r \<and> \<not> (mxr \<and> pte_x) then Err (Exception LoadPageFault) else Ok ()
         | Store \<Rightarrow> if \<not> pte_w then Err (Exception StoreAMOPageFault) else Ok ()))"

definition pte_ppn :: "u64 \<Rightarrow> u64" where
  "pte_ppn pte = drop_bit 10 pte AND PPN_MASK"

definition vpn :: "u64 \<Rightarrow> nat \<Rightarrow> u64" where
  "vpn va level = drop_bit (12 + 9 * level) va AND VPN_MASK"

text \<open>The physical address of a leaf at a level; \<open>None\<close> is a misaligned superpage.\<close>

definition leaf_pa :: "nat \<Rightarrow> u64 \<Rightarrow> u64 \<Rightarrow> u64 option" where
  "leaf_pa level ppn va =
     (if level = 4 then
        (if ppn AND 0xFFFFFFFFF \<noteq> 0 then None else Some (push_bit 12 ppn OR (va AND 0xFFFFFFFFFFFF)))
      else if level = 3 then
        (if ppn AND 0x7FFFFFF \<noteq> 0 then None else Some (push_bit 12 ppn OR (va AND 0x7FFFFFFFFF)))
      else if level = 2 then
        (if ppn AND 0x3FFFF \<noteq> 0 then None else Some (push_bit 12 ppn OR (va AND 0x3FFFFFFF)))
      else if level = 1 then
        (if ppn AND 0x1FF \<noteq> 0 then None else Some (push_bit 12 ppn OR (va AND 0x1FFFFF)))
      else Some (push_bit 12 ppn OR (va AND 0xFFF)))"

text \<open>The accessed and dirty bits the access has to leave set.\<close>

definition updated_pte :: "access_type \<Rightarrow> u64 \<Rightarrow> u64" where
  "updated_pte acc pte =
     (let pte1 = (if pte AND PTE_A \<noteq> 0 then pte else pte OR PTE_A) in
      if acc = Store \<and> \<not> pte AND PTE_D \<noteq> 0 then pte1 OR PTE_D else pte1)"

definition needs_update :: "access_type \<Rightarrow> u64 \<Rightarrow> bool" where
  "needs_update acc pte \<longleftrightarrow> \<not> pte AND PTE_A \<noteq> 0 \<or> acc = Store \<and> \<not> pte AND PTE_D \<noteq> 0"

text \<open>
  The loop: \<open>walk \<dots> (Suc level) base\<close> is the body for \<open>level\<close> with the table at \<open>base\<close>. A
  base is a 44-bit page number shifted by 12, so adding the index cannot overflow.
\<close>

fun walk :: "u64 \<Rightarrow> access_type \<Rightarrow> mode \<Rightarrow> u64 \<Rightarrow> nat \<Rightarrow> u64 \<Rightarrow> (bus, u64, trap) comp" where
  "walk va acc m mstatus 0 base s = (Err (page_fault acc), s)"
| "walk va acc m mstatus (Suc level) base s =
     (let pte_addr = base + vpn va level * 8 in
      case bus_read64 pte_addr s of
        (Panic, s1) \<Rightarrow> (Panic, s1)
      | (Err _, s1) \<Rightarrow> (Err (page_fault acc), s1)
      | (Ok pte, s1) \<Rightarrow>
          if pte AND PTE_V = 0 then (Err (page_fault acc), s1)
          else
            (let pte_r = pte AND PTE_R \<noteq> 0; pte_w = pte AND PTE_W \<noteq> 0; pte_x = pte AND PTE_X \<noteq> 0 in
             if \<not> pte_r \<and> pte_w then (Err (page_fault acc), s1)
             else if pte_r \<or> pte_w \<or> pte_x then
               (case check_permissions pte acc m mstatus of
                  Panic \<Rightarrow> (Panic, s1)
                | Err e \<Rightarrow> (Err e, s1)
                | Ok _ \<Rightarrow>
                    (case leaf_pa level (pte_ppn pte) va of
                       None \<Rightarrow> (Err (page_fault acc), s1)
                     | Some pa \<Rightarrow>
                         if needs_update acc pte then
                           (case bus_write64 pte_addr (updated_pte acc pte) s1 of
                              (Panic, s2) \<Rightarrow> (Panic, s2)
                            | (Err _, s2) \<Rightarrow> (Err (page_fault acc), s2)
                            | (Ok _, s2) \<Rightarrow> (Ok pa, s2))
                         else (Ok pa, s1)))
             else walk va acc m mstatus level (push_bit 12 (pte_ppn pte)) s1))"

text \<open>\<open>va\<close> is canonical when its upper bits repeat bit \<open>sign\<close>.\<close>

definition canonical :: "nat \<Rightarrow> u64 \<Rightarrow> u64 \<Rightarrow> bool" where
  "canonical sign ext_mask va =
     (let va_sign = drop_bit sign va AND 1; va_ext = drop_bit (sign + 1) va AND ext_mask in
      \<not> (va_sign = 0 \<and> va_ext \<noteq> 0 \<or> va_sign = 1 \<and> va_ext \<noteq> ext_mask))"

definition root_table :: "u64 \<Rightarrow> u64" where
  "root_table satp = push_bit 12 (satp AND PPN_MASK)"

definition translate_sv39 :: "u64 \<Rightarrow> access_type \<Rightarrow> mode \<Rightarrow> u64 \<Rightarrow> u64 \<Rightarrow> (bus, u64, trap) comp" where
  "translate_sv39 va acc m satp mstatus s =
     (if \<not> canonical 38 0x1FFFFFF va then (Err (page_fault acc), s)
      else walk va acc m mstatus 3 (root_table satp) s)"

definition translate_sv48 :: "u64 \<Rightarrow> access_type \<Rightarrow> mode \<Rightarrow> u64 \<Rightarrow> u64 \<Rightarrow> (bus, u64, trap) comp" where
  "translate_sv48 va acc m satp mstatus s =
     (if \<not> canonical 47 0xFFFF va then (Err (page_fault acc), s)
      else walk va acc m mstatus 4 (root_table satp) s)"

definition translate_sv57 :: "u64 \<Rightarrow> access_type \<Rightarrow> mode \<Rightarrow> u64 \<Rightarrow> u64 \<Rightarrow> (bus, u64, trap) comp" where
  "translate_sv57 va acc m satp mstatus s =
     (if \<not> canonical 56 0x7F va then (Err (page_fault acc), s)
      else walk va acc m mstatus 5 (root_table satp) s)"

text \<open>Under MPRV a machine-mode data access runs with the privilege in MPP.\<close>

definition effective_mode :: "mode \<Rightarrow> u64 \<Rightarrow> mode" where
  "effective_mode m mstatus =
     (if m = Machine then
        (if drop_bit 17 mstatus AND 1 = 1 then
           (let mpp = drop_bit 11 mstatus AND 3 in
            if mpp = 0 then User else if mpp = 1 then Supervisor else if mpp = 2 then Hypervisor else Machine)
         else Machine)
      else m)"

definition translate :: "u64 \<Rightarrow> access_type \<Rightarrow> mode \<Rightarrow> u64 \<Rightarrow> u64 \<Rightarrow> (bus, u64, trap) comp" where
  "translate va acc m satp mstatus s =
     (let satp_mode = drop_bit 60 satp AND 0xF in
      if m = Machine \<and> acc = Instruction then (Ok va, s)
      else
        (let em = effective_mode m mstatus in
         if em = Machine then (Ok va, s)
         else if satp_mode = 0 then (Ok va, s)
         else if satp_mode = 8 then translate_sv39 va acc em satp mstatus s
         else if satp_mode = 9 then translate_sv48 va acc em satp mstatus s
         else if satp_mode = 10 then translate_sv57 va acc em satp mstatus s
         else (Err (page_fault acc), s)))"

subsection \<open>Faults\<close>

lemma check_permissions_fault: "check_permissions pte acc m ms = Err e \<Longrightarrow> e = page_fault acc"
  by (cases acc) (auto simp: check_permissions_def Let_def split: if_splits)

lemma check_permissions_no_panic: "check_permissions pte acc m ms \<noteq> Panic"
  by (cases acc) (auto simp: check_permissions_def Let_def)

lemma walk_fault: "fst (walk va acc m ms n base s) = Err e \<Longrightarrow> e = page_fault acc"
proof (induction n arbitrary: base s)
  case 0
  then show ?case by simp
next
  case (Suc level)
  then show ?case
    by (auto simp: Let_def dest: check_permissions_fault split: prod.splits result.splits if_splits option.splits)
qed

text \<open>
  Property C31. A translation that fails reports the page fault of the access it was asked
  for, and of no other kind, whatever the page tables contain and wherever they lie.
\<close>

theorem translate_fault_kind:
  assumes "fst (translate va acc m satp mstatus s) = Err e"
  shows "e = page_fault acc"
  using assms walk_fault
  by (auto simp: translate_def translate_sv39_def translate_sv48_def translate_sv57_def Let_def split: if_splits)

theorem translate_fault_kind_witness:
  "fst (translate 0x8000000000 Store User (push_bit 60 8) 0 bus_example) = Err (page_fault Store)"
proof -
  have "fst (translate 0x8000000000 Store User (push_bit 60 8) 0 bus_example) = Err (Exception StoreAMOPageFault)"
    by (simp add: translate_def effective_mode_def translate_sv39_def canonical_def Let_def)
  then show ?thesis using translate_fault_kind by metis
qed

subsection \<open>The lookup the walk computes\<close>

text \<open>
  \<open>leaf_at s va level base l a pte\<close>: following the index fields of \<open>va\<close> from the table at
  \<open>base\<close> for \<open>level\<close>, through valid pointers read from main memory, arrives at level \<open>l\<close>
  at the entry \<open>pte\<close>, stored at \<open>a\<close>, which is not a pointer.
\<close>

abbreviation pte_pointer :: "u64 \<Rightarrow> bool" where
  "pte_pointer pte \<equiv> pte AND PTE_V \<noteq> 0 \<and> pte AND PTE_R = 0 \<and> pte AND PTE_W = 0 \<and> pte AND PTE_X = 0"

abbreviation pte_leaf :: "u64 \<Rightarrow> bool" where
  "pte_leaf pte \<equiv> pte AND PTE_V \<noteq> 0 \<and> (pte AND PTE_R \<noteq> 0 \<or> pte AND PTE_W = 0 \<and> pte AND PTE_X \<noteq> 0)"

inductive leaf_at :: "bus \<Rightarrow> u64 \<Rightarrow> nat \<Rightarrow> u64 \<Rightarrow> nat \<Rightarrow> u64 \<Rightarrow> u64 \<Rightarrow> bool" for s va where
  here: "dram_cell 8 s (base + vpn va level * 8) \<Longrightarrow>
    fst (bus_read64 (base + vpn va level * 8) s) = Ok pte \<Longrightarrow> pte_leaf pte \<Longrightarrow>
    leaf_at s va level base level (base + vpn va level * 8) pte"
| below: "dram_cell 8 s (base + vpn va (Suc level) * 8) \<Longrightarrow>
    fst (bus_read64 (base + vpn va (Suc level) * 8) s) = Ok ptr \<Longrightarrow> pte_pointer ptr \<Longrightarrow>
    leaf_at s va level (push_bit 12 (pte_ppn ptr)) l a pte \<Longrightarrow>
    leaf_at s va (Suc level) base l a pte"

inductive_cases leaf_at_0E: "leaf_at s va 0 base l a pte"
inductive_cases leaf_at_SucE: "leaf_at s va (Suc level) base l a pte"

lemma dram_cell_read_pure:
  "dram_cell 8 s a \<Longrightarrow> fst (bus_read64 a s) = Ok pte \<Longrightarrow> bus_read64 a s = (Ok pte, s)"
  using bus_dram_access(1) [of a s] by (simp add: dram_cell_parts)

text \<open>What the walk does once it has found the leaf.\<close>

definition at_leaf :: "u64 \<Rightarrow> access_type \<Rightarrow> mode \<Rightarrow> u64 \<Rightarrow> nat \<Rightarrow> u64 \<Rightarrow> u64 \<Rightarrow> (bus, u64, trap) comp" where
  "at_leaf va acc m mstatus l a pte s =
     (case (check_permissions pte acc m mstatus, leaf_pa l (pte_ppn pte) va) of
        (Ok _, Some pa) \<Rightarrow>
          (Ok pa, if needs_update acc pte then snd (bus_write64 a (updated_pte acc pte) s) else s)
      | _ \<Rightarrow> (Err (page_fault acc), s))"

lemma write_ok: "dram_cell 8 s a \<Longrightarrow> bus_write64 a v s = (Ok (), snd (bus_write64 a v s))"
  using bus_mem64.wr_ok [of s a v] by (metis prod.collapse)

lemma walk_leaf:
  "leaf_at s va level base l a pte \<Longrightarrow> walk va acc m ms (Suc level) base s = at_leaf va acc m ms l a pte s"
proof (induction rule: leaf_at.induct)
  case (here base level pte)
  note rd = dram_cell_read_pure [OF here(1,2)]
  note w = write_ok [OF here(1), of "updated_pte acc pte"]
  show ?case
  proof (cases "check_permissions pte acc m ms")
    case (Ok u)
    then show ?thesis
      using here(3) w by (auto simp: rd Let_def at_leaf_def split: option.split prod.split)
  next
    case (Err e)
    then show ?thesis
      using here(3) check_permissions_fault [OF Err] by (auto simp: rd Let_def at_leaf_def)
  next
    case Panic
    then show ?thesis using check_permissions_no_panic by blast
  qed
next
  case (below base level ptr l a pte)
  then show ?case using dram_cell_read_pure [OF below(1,2)] by (simp add: Let_def)
qed

text \<open>
  The specification, by the bits of the entry: who may do what, when a superpage is aligned,
  where the page lies and which bits the access leaves set.
\<close>

definition pte_allows :: "access_type \<Rightarrow> mode \<Rightarrow> u64 \<Rightarrow> u64 \<Rightarrow> bool" where
  "pte_allows acc m mstatus pte \<longleftrightarrow>
     (m = User \<longrightarrow> bit pte 4) \<and>
     (m = Supervisor \<and> bit pte 4 \<longrightarrow> bit mstatus 18 \<and> acc \<noteq> Instruction) \<and>
     (case acc of Instruction \<Rightarrow> bit pte 3 | Load \<Rightarrow> bit pte 1 \<or> bit mstatus 19 \<and> bit pte 3 | Store \<Rightarrow> bit pte 2)"

definition phys_of :: "nat \<Rightarrow> u64 \<Rightarrow> u64 \<Rightarrow> u64" where
  "phys_of l pte va = push_bit 12 (take_bit 44 (drop_bit 10 pte)) OR take_bit (12 + 9 * l) va"

definition mark_used :: "access_type \<Rightarrow> u64 \<Rightarrow> u64" where
  "mark_used acc pte = (if acc = Store then set_bit 7 (set_bit 6 pte) else set_bit 6 pte)"

lemma pte_bits:
  "(pte AND PTE_V = 0) = (\<not> bit pte 0)" "(pte AND PTE_R = 0) = (\<not> bit pte 1)"
  "(pte AND PTE_W = 0) = (\<not> bit pte 2)" "(pte AND PTE_X = 0) = (\<not> bit pte 3)"
  "(pte AND PTE_U = 0) = (\<not> bit pte 4)" "(pte AND PTE_A = 0) = (\<not> bit pte 6)"
  "(pte AND PTE_D = 0) = (\<not> bit pte 7)"
  using and_exp_eq_0_iff [of pte 0] and_exp_eq_0_iff [of pte 1] and_exp_eq_0_iff [of pte 2]
    and_exp_eq_0_iff [of pte 3] and_exp_eq_0_iff [of pte 4] and_exp_eq_0_iff [of pte 6]
    and_exp_eq_0_iff [of pte 7]
  by simp_all

lemma bit_shifted: "bit (drop_bit n x) i = bit x (n + i)" for x :: u64
  by (simp add: bit_drop_bit_eq)

lemma drop_bit_zero_iff: "drop_bit n va = 0 \<longleftrightarrow> (\<forall>i. n \<le> i \<longrightarrow> \<not> bit va i)" for va :: u64
proof
  assume z: "drop_bit n va = 0"
  show "\<forall>i. n \<le> i \<longrightarrow> \<not> bit va i"
  proof (intro allI impI)
    fix i assume "n \<le> i"
    then show "\<not> bit va i" using bit_shifted [of n va "i - n"] z by simp
  qed
next
  assume z: "\<forall>i. n \<le> i \<longrightarrow> \<not> bit va i"
  show "drop_bit n va = 0" by (rule bit_eqI) (simp add: bit_shifted z)
qed

lemma drop_bit_ones_iff: "drop_bit n va = Bit_Operations.mask (64 - n) \<longleftrightarrow> (\<forall>i. n \<le> i \<and> i < 64 \<longrightarrow> bit va i)" for va :: u64
proof
  assume z: "drop_bit n va = Bit_Operations.mask (64 - n)"
  show "\<forall>i. n \<le> i \<and> i < 64 \<longrightarrow> bit va i"
  proof (intro allI impI)
    fix i assume "n \<le> i \<and> i < 64"
    then show "bit va i" using bit_shifted [of n va "i - n"] z by (simp add: bit_mask_iff) arith
  qed
next
  assume ones: "\<forall>i. n \<le> i \<and> i < 64 \<longrightarrow> bit va i"
  show "drop_bit n va = Bit_Operations.mask (64 - n)"
  proof (rule bit_eqI)
    fix i
    show "bit (drop_bit n va) i = bit (Bit_Operations.mask (64 - n) :: u64) i"
      using ones [rule_format, of "n + i"] bit_imp_le_length [of va "n + i"] 
      by (auto simp: bit_shifted bit_mask_iff)
  qed
qed

lemma sign_repeats: 
  fixes va :: u64
  assumes "n < 63"
  shows "signed_take_bit n va = va \<longleftrightarrow> (\<forall>i. n < i \<and> i < 64 \<longrightarrow> bit va i = bit va n)"
proof
  assume "signed_take_bit n va = va"
  then have "bit va i = (i < 64 \<and> bit va (min i n))" for i
    using bit_signed_take_bit_iff [of n va i] bit_imp_le_length [of va i] by (auto simp: min.commute)
  then show "\<forall>i. n < i \<and> i < 64 \<longrightarrow> bit va i = bit va n"
    by (metis min.absorb4)
next
  assume r: "\<forall>i. n < i \<and> i < 64 \<longrightarrow> bit va i = bit va n"
  show "signed_take_bit n va = va"
  proof (rule bit_word_eqI)
    fix i assume "i < LENGTH(64)"
    then show "bit (signed_take_bit n va) i = bit va i" using r [rule_format, of i] assms
      by (cases "i \<le> n") (auto simp: bit_signed_take_bit_iff min_def)
  qed
qed

lemma bit_shifted_0: "bit (drop_bit n x) 0 = bit x n" for x :: u64
  by (simp add: bit_shifted)

lemma mstatus_bit: "(drop_bit n ms AND 1 = 0) = (\<not> bit ms n)" for ms :: u64
  using and_exp_eq_0_iff [of "drop_bit n ms" 0] by (simp add: bit_shifted)

lemma page_masks:
  "x AND 0xFFF = take_bit 12 x" "x AND 0x1FF = take_bit 9 x" "x AND 0x1FFFFF = take_bit 21 x"
  "x AND 0x3FFFF = take_bit 18 x" "x AND 0x3FFFFFFF = take_bit 30 x" "x AND 0x7FFFFFF = take_bit 27 x"
  "x AND 0x7FFFFFFFFF = take_bit 39 x" "x AND 0xFFFFFFFFF = take_bit 36 x"
  "x AND 0xFFFFFFFFFFFF = take_bit 48 x" "x AND PPN_MASK = take_bit 44 x" for x :: u64
  by (simp_all add: take_bit_eq_mask mask_eq_exp_minus_1)

lemma check_permissions_spec:
  "check_permissions pte acc m ms = (if pte_allows acc m ms pte then Ok () else Err (page_fault acc))"
  by (cases acc; cases m) (auto simp: check_permissions_def pte_allows_def Let_def pte_bits mstatus_bit bit_shifted_0)

lemma leaf_pa_spec:
  assumes "l \<le> 4"
  shows "leaf_pa l (pte_ppn pte) va =
     (if take_bit (9 * l) (take_bit 44 (drop_bit 10 pte)) = 0 then Some (phys_of l pte va) else None)"
proof -
  have "l = 0 \<or> l = 1 \<or> l = 2 \<or> l = 3 \<or> l = 4" using assms by arith
  then show ?thesis
    by (elim disjE) (simp_all add: leaf_pa_def phys_of_def pte_ppn_def page_masks del: take_bit_take_bit)
qed

lemma set_bit_idem: "bit x n \<Longrightarrow> set_bit n x = x" for x :: u64
  by (rule bit_eqI) (auto simp: bit_set_bit_iff)

lemma or_pte_bits: "pte OR PTE_A = set_bit 6 pte" "pte OR PTE_D = set_bit 7 pte" for pte :: u64
  by (simp_all add: set_bit_eq_or)

lemma updated_pte_spec: "updated_pte acc pte = mark_used acc pte"
  by (auto simp: updated_pte_def mark_used_def Let_def pte_bits or_pte_bits set_bit_idem bit_set_bit_iff)

lemma marked_needs_no_update: "\<not> needs_update acc (mark_used acc pte)"
  by (auto simp: needs_update_def mark_used_def pte_bits bit_set_bit_iff)

lemma not_needs_update: "\<not> needs_update acc pte \<Longrightarrow> mark_used acc pte = pte"
  by (auto simp: needs_update_def mark_used_def pte_bits set_bit_idem)

text \<open>The number of levels below the root, and the addresses the scheme accepts.\<close>

definition paging_top :: "u64 \<Rightarrow> u64 \<Rightarrow> nat option" where
  "paging_top satp va =
     (if drop_bit 60 satp = 8 \<and> signed_take_bit 38 va = va then Some 2
      else if drop_bit 60 satp = 9 \<and> signed_take_bit 47 va = va then Some 3
      else if drop_bit 60 satp = 10 \<and> signed_take_bit 56 va = va then Some 4
      else None)"

lemma canonical_spec:
  fixes va :: u64
  assumes "n < 63" and "ext = Bit_Operations.mask (63 - n)"
  shows "canonical n ext va \<longleftrightarrow> signed_take_bit n va = va"
proof -
  have ext: "drop_bit (n + 1) va AND ext = drop_bit (n + 1) va"
  proof (rule bit_eqI)
    fix i
    show "bit (drop_bit (n + 1) va AND ext) i = bit (drop_bit (n + 1) va) i"
      using bit_imp_le_length [of va "n + 1 + i"] assms by (auto simp: bit_and_iff bit_shifted bit_mask_iff)
  qed
  have ones: "drop_bit (n + 1) va = ext \<longleftrightarrow> (\<forall>i. n < i \<and> i < 64 \<longrightarrow> bit va i)"
    using drop_bit_ones_iff [of "n + 1" va] assms by (simp add: Suc_le_eq)
  have zero: "drop_bit (n + 1) va = 0 \<longleftrightarrow> (\<forall>i. n < i \<and> i < 64 \<longrightarrow> \<not> bit va i)"
    using drop_bit_zero_iff [of "n + 1" va] bit_imp_le_length [of va] by (auto simp: Suc_le_eq)
  have sign: "drop_bit n va AND 1 = (if bit va n then 1 else 0)"
    using bit_shifted_0 [of n va] by (auto simp: and_one_eq mod2_eq_if bit_0)
  show ?thesis
    unfolding canonical_def Let_def ext sign_repeats [OF assms(1)]
    using ones zero sign by auto
qed

lemma translate_paging:
  assumes "paging_top satp va = Some lv" and "effective_mode m mstatus \<noteq> Machine"
    and "\<not> (m = Machine \<and> acc = Instruction)"
  shows "translate va acc m satp mstatus s = walk va acc (effective_mode m mstatus) mstatus (Suc lv) (root_table satp) s"
proof -
  have modes: "drop_bit 60 satp AND 0xF = drop_bit 60 satp"
  proof (rule bit_eqI)
    fix i
    have "bit (0xF :: u64) i = (i < 4)"
      using bit_mask_iff [of 4 i, where 'a = "64 word"] bit_imp_le_length [of "0xF :: u64" i] by (auto simp: mask_eq_exp_minus_1)
    then show "bit (drop_bit 60 satp AND 0xF) i = bit (drop_bit 60 satp) i"
      using bit_imp_le_length [of satp "60 + i"] by (auto simp: bit_and_iff bit_shifted bit_mask_iff simp del: mask_numeral)
  qed
  have canon: "canonical 38 0x1FFFFFF va = (signed_take_bit 38 va = va)"
    "canonical 47 0xFFFF va = (signed_take_bit 47 va = va)" "canonical 56 0x7F va = (signed_take_bit 56 va = va)"
    by (simp_all add: canonical_spec mask_eq_exp_minus_1)
  show ?thesis
    using assms
    by (auto simp: translate_def modes Let_def paging_top_def translate_sv39_def translate_sv48_def
        translate_sv57_def canon simp del: walk.simps(2) split: if_splits)
qed

definition leaf_result :: "u64 \<Rightarrow> access_type \<Rightarrow> mode \<Rightarrow> u64 \<Rightarrow> nat \<Rightarrow> u64 \<Rightarrow> u64 \<Rightarrow> (bus, u64, trap) comp" where
  "leaf_result va acc m mstatus l a pte s =
     (if pte_allows acc m mstatus pte \<and> take_bit (9 * l) (take_bit 44 (drop_bit 10 pte)) = 0
      then (Ok (phys_of l pte va), if mark_used acc pte = pte then s else snd (bus_write64 a (mark_used acc pte) s))
      else (Err (page_fault acc), s))"

lemma needs_update_iff: "needs_update acc pte \<longleftrightarrow> mark_used acc pte \<noteq> pte"
  using not_needs_update marked_needs_no_update by metis

lemma leaf_at_level: "leaf_at s va level base l a pte \<Longrightarrow> l \<le> level"
  by (induction rule: leaf_at.induct) auto

lemma paging_top_le: "paging_top satp va = Some lv \<Longrightarrow> lv \<le> 4"
  by (auto simp: paging_top_def split: if_splits)

lemma at_leaf_spec: "l \<le> 4 \<Longrightarrow> at_leaf va acc m ms l a pte s = leaf_result va acc m ms l a pte s"
  by (simp add: at_leaf_def leaf_result_def check_permissions_spec leaf_pa_spec needs_update_iff
      updated_pte_spec del: take_bit_take_bit split: option.split)

text \<open>
  Property C10. Under paging a translation computes the page-table lookup of the RISC-V
  manual: if following the index fields of a canonical address from the root table in
  \<open>satp\<close> through main memory arrives at a leaf, the access succeeds exactly when the
  entry grants it to the effective privilege and the superpage is aligned. The address is
  then the page of the entry with the offset of the virtual address, the only memory
  changed is the entry, and only to set its accessed (and, for a store, dirty) bit; in
  every other case the answer is the page fault and nothing has changed.
\<close>

theorem translate_looks_up:
  assumes "paging_top satp va = Some lv" and "effective_mode m mstatus \<noteq> Machine"
    and "\<not> (m = Machine \<and> acc = Instruction)"
    and "leaf_at s va lv (root_table satp) l a pte"
  shows "translate va acc m satp mstatus s = leaf_result va acc (effective_mode m mstatus) mstatus l a pte s"
  using walk_leaf [OF assms(4)] at_leaf_spec leaf_at_level [OF assms(4)] paging_top_le [OF assms(1)]
  by (simp add: translate_paging [OF assms(1-3)])

subsection \<open>A second translation\<close>

lemma vpn_less: "unat (vpn va level) < 512"
proof -
  have "vpn va level \<le> 511" by (simp add: vpn_def word_and_le1)
  then show ?thesis by (simp add: word_le_nat_alt)
qed

lemma entry_aligned:
  assumes "8 dvd unat base" and "unat base < 2 ^ 63"
  shows "8 dvd unat (base + vpn va level * 8)"
proof -
  have v: "unat (vpn va level * 8) = unat (vpn va level) * 8"
    using vpn_less [of va level] by (simp add: unat_word_ariths)
  have "unat (base + vpn va level * 8) = unat base + unat (vpn va level) * 8"
    using vpn_less [of va level] assms(2) by (simp add: v unat_add_small)
  then show ?thesis using assms(1) by simp
qed

lemma table_base:
  fixes x :: u64
  assumes "x AND PPN_MASK = x"
  shows "8 dvd unat (push_bit 12 x)" and "unat (push_bit 12 x) < 2 ^ 63"
proof -
  have "x \<le> PPN_MASK" using assms word_and_le1 by metis
  then have x: "unat x < 2 ^ 44" by (simp add: word_le_nat_alt)
  then have "unat (push_bit 12 x) = unat x * 4096"
    by (simp add: push_bit_eq_mult unat_word_ariths)
  then show "8 dvd unat (push_bit 12 x)" "unat (push_bit 12 x) < 2 ^ 63" using x by auto
qed

text \<open>
  Every entry the lookup visits is 8-aligned, so a store to the leaf leaves the pointers on
  the way to it alone: an entry cannot be a pointer and a leaf at once.
\<close>

lemma leaf_at_cell:
  assumes "leaf_at s va level base l a pte" and "8 dvd unat base" and "unat base < 2 ^ 63"
  shows "dram_cell 8 s a \<and> fst (bus_read64 a s) = Ok pte \<and> pte_leaf pte \<and> 8 dvd unat a"
  using assms
proof (induction rule: leaf_at.induct)
  case (here base level pte)
  then show ?case using entry_aligned [of base va level] by simp
next
  case (below base level ptr l a pte)
  then show ?case using table_base [of "pte_ppn ptr"] by (simp add: pte_ppn_def and.assoc)
qed

lemma aligned_apart: "8 dvd unat a \<Longrightarrow> 8 dvd unat b \<Longrightarrow> a \<noteq> b \<Longrightarrow> unat a + 8 \<le> unat b \<or> unat b + 8 \<le> unat a"
  for a b :: u64
  by (elim dvdE) (use word_unat_eq_iff [of a b] in auto)

lemma leaf_at_store:
  assumes "leaf_at s va level base l a pte" and "8 dvd unat base" and "unat base < 2 ^ 63" and "pte_leaf v"
  shows "leaf_at (snd (bus_write64 a v s)) va level base l a v"
  using assms
proof (induction rule: leaf_at.induct)
  case (here base level pte)
  then show ?case
    by (intro leaf_at.here) (simp_all add: bus_mem64.good_wr bus_mem64.rd_same)
next
  case (below base level ptr l a pte)
  let ?b = "base + vpn va (Suc level) * 8"
  have tb: "8 dvd unat (push_bit 12 (pte_ppn ptr))" "unat (push_bit 12 (pte_ppn ptr)) < 2 ^ 63"
    using table_base [of "pte_ppn ptr"] by (simp_all add: pte_ppn_def and.assoc)
  note leaf = leaf_at_cell [OF below(4) tb]
  have "a \<noteq> ?b" using leaf below(2,3) by auto
  then have apart: "unat a + 8 \<le> unat ?b \<or> unat ?b + 8 \<le> unat a"
    using leaf entry_aligned [OF below(6,7)] aligned_apart by blast
  show ?case
    using below.hyps(1-3) leaf apart below.IH [OF tb below(8)]
    by (intro leaf_at.below) (simp_all add: bus_mem64.good_wr bus_mem64.rd_other)
qed

lemma mark_used_leaf: "pte_leaf (mark_used acc pte) = pte_leaf pte"
  by (auto simp: pte_bits mark_used_def bit_set_bit_iff)

lemma mark_used_keeps:
  "pte_allows acc' m ms (mark_used acc pte) = pte_allows acc' m ms pte"
  "drop_bit 10 (mark_used acc pte) = drop_bit 10 pte"
  "mark_used acc (mark_used acc pte) = mark_used acc pte"
proof -
  show "pte_allows acc' m ms (mark_used acc pte) = pte_allows acc' m ms pte"
    by (simp add: pte_allows_def mark_used_def bit_set_bit_iff split: access_type.split)
  show "drop_bit 10 (mark_used acc pte) = drop_bit 10 pte"
    by (rule bit_eqI) (simp add: bit_shifted mark_used_def bit_set_bit_iff)
  show "mark_used acc (mark_used acc pte) = mark_used acc pte"
    using not_needs_update marked_needs_no_update by metis
qed

text \<open>
  Property C30. A translation that succeeded settles: repeating it gives the same address
  and leaves the machine as it is, because the accessed and dirty bits it had to set are in
  the page table already.
\<close>

theorem translate_settles:
  assumes "paging_top satp va = Some lv" and "effective_mode m mstatus \<noteq> Machine"
    and "\<not> (m = Machine \<and> acc = Instruction)"
    and "leaf_at s va lv (root_table satp) l a pte"
    and "translate va acc m satp mstatus s = (Ok pa, s')"
  shows "translate va acc m satp mstatus s' = (Ok pa, s')"
proof -
  have base: "8 dvd unat (root_table satp)" "unat (root_table satp) < 2 ^ 63"
    using table_base [of "satp AND PPN_MASK"] by (simp_all add: root_table_def and.assoc)
  note found = translate_paging [OF assms(1-3)] walk_leaf at_leaf_spec
  have l: "l \<le> 4" using leaf_at_level [OF assms(4)] paging_top_le [OF assms(1)] by simp
  have r: "leaf_result va acc (effective_mode m mstatus) mstatus l a pte s = (Ok pa, s')"
    using assms(4,5) l by (simp add: found del: walk.simps)
  show ?thesis
  proof (cases "mark_used acc pte = pte")
    case True
    then have "s' = s" using r by (simp add: leaf_result_def split: if_splits)
    then show ?thesis using assms(5) by simp
  next
    case False
    then have s': "s' = snd (bus_write64 a (mark_used acc pte) s)"
      using r by (simp add: leaf_result_def split: if_splits)
    have "pte_leaf (mark_used acc pte)"
      using leaf_at_cell [OF assms(4) base] mark_used_leaf [of acc pte] by blast
    then have "leaf_at s' va lv (root_table satp) l a (mark_used acc pte)"
      unfolding s' by (rule leaf_at_store [OF assms(4) base])
    then show ?thesis
      using l r by (simp add: found leaf_result_def phys_of_def mark_used_keeps del: walk.simps split: if_splits)
  qed
qed

lemma leaf_pa_offset:
  assumes "leaf_pa l ppn va = Some pa"
  shows "pa AND 0xFFF = va AND 0xFFF"
proof -
  have "\<exists>k \<in> {12, 21, 30, 39, 48}. pa = push_bit 12 ppn OR take_bit k va"
    using assms unfolding leaf_pa_def page_masks by (auto split: if_splits)
  then obtain k where k: "k \<in> {12, 21, 30, 39, 48}" and pa: "pa = push_bit 12 ppn OR take_bit k va" by blast
  show ?thesis
    unfolding pa page_masks using k
    by (auto simp add: take_bit_or take_bit_push_bit min_def)
qed

lemma walk_offset: "fst (walk va acc m ms n base s) = Ok pa \<Longrightarrow> pa AND 0xFFF = va AND 0xFFF"
proof (induction n arbitrary: base s)
  case 0
  then show ?case by simp
next
  case (Suc level)
  then show ?case
    by (auto simp: Let_def dest: leaf_pa_offset split: prod.splits result.splits if_splits option.splits)
qed

text \<open>
  Whatever the page tables say, and in every mode, a translation moves whole
  pages: the offset inside the 4 KiB page of the physical address is that of the virtual one.
\<close>

theorem translate_keeps_offset:
  assumes "fst (translate va acc m satp mstatus s) = Ok pa"
  shows "pa AND 0xFFF = va AND 0xFFF"
  using assms walk_offset
  by (auto simp: translate_def translate_sv39_def translate_sv48_def translate_sv57_def Let_def
      simp del: walk.simps split: if_splits)

subsection \<open>A concrete page table\<close>

text \<open>
  A root table at \<open>0x80001000\<close> whose entry 2 is a 1 GiB leaf for \<open>0x80000000\<close>, readable,
  writable and executable, with neither the accessed nor the dirty bit set.
\<close>

definition paged_example :: bus where
  "paged_example = snd (bus_write64 0x80001010 0x2000000F bus_example)"

lemma paged_example_leaf:
  "leaf_at paged_example 0x80000123 2 (root_table 0x8000000000080001) 2 0x80001010 0x2000000F"
proof -
  have cell: "dram_cell 8 bus_example 0x80001010"
    by (simp add: dram_cell_def bus_example_wf in_dram_def)
      (simp add: bus_example_def bus_new_def dram_new_def)
  have a: "root_table 0x8000000000080001 + vpn 0x80000123 2 * 8 = 0x80001010"
    by (simp add: root_table_def vpn_def)
  show ?thesis
    using leaf_at.here [where s = paged_example and base = "root_table 0x8000000000080001"
        and va = "0x80000123" and level = 2 and pte = "0x2000000F"] cell
    by (simp add: a paged_example_def bus_mem64.good_wr bus_mem64.rd_same)
qed

theorem translate_looks_up_witness:
  "fst (translate 0x80000123 Store Supervisor 0x8000000000080001 0 paged_example) = Ok 0x80000123"
  by (simp add: translate_looks_up [OF _ _ _ paged_example_leaf] paging_top_def effective_mode_def
      leaf_result_def pte_allows_def phys_of_def signed_take_bit_eq_if_positive)

lemma paged_example_side:
  "paging_top 0x8000000000080001 0x80000123 = Some 2"
  "effective_mode Supervisor 0 \<noteq> Machine" "\<not> (Supervisor = Machine \<and> Store = Instruction)"
  by (simp_all add: paging_top_def signed_take_bit_eq_if_positive effective_mode_def)

lemma paged_example_run:
  "fst (translate 0x80000123 Store Supervisor 0x8000000000080001 0 paged_example) = Ok 0x80000123"
  using walk_leaf [OF paged_example_leaf] at_leaf_spec
  by (simp add: translate_paging [OF paged_example_side] effective_mode_def
      leaf_result_def pte_allows_def phys_of_def del: walk.simps)

theorem translate_settles_witness:
  "\<exists>s'. translate 0x80000123 Store Supervisor 0x8000000000080001 0 s' = (Ok 0x80000123, s')"
proof -
  have "translate 0x80000123 Store Supervisor 0x8000000000080001 0 paged_example =
      (Ok 0x80000123, snd (translate 0x80000123 Store Supervisor 0x8000000000080001 0 paged_example))"
    using paged_example_run by (simp add: prod_eq_iff)
  then show ?thesis using translate_settles [OF paged_example_side paged_example_leaf] by blast
qed

theorem translate_keeps_offset_witness:
  "fst (translate 0x80000123 Store Supervisor 0x8000000000080001 0 paged_example) = Ok 0x80000123 \<and>
   (0x80000123 :: u64) AND 0xFFF = 0x80000123 AND 0xFFF"
  using paged_example_run translate_keeps_offset [OF paged_example_run] by (rule conjI)

end
