(* ===== verification/Hart.thy ===== *)
theory Hart
  imports Csr Bus Mmu
begin

text \<open>
  \<open>src/src/cpu.rs\<close>, the hart around its instructions: registers, the LR/SC reservation,
  loads and stores at virtual addresses, instruction fetch, trap entry, trap return and the
  interrupt check. Register indices are five bits, as every index the code forms, so an
  access to the arrays is never out of bounds. Log output is not modelled.
\<close>

record cpu =
  cpu_pc :: u64
  cpu_regs :: "u5 \<Rightarrow> u64"
  cpu_f_regs :: "u5 \<Rightarrow> u64"
  cpu_csr :: csr
  cpu_mode :: mode
  cpu_bus :: bus
  cpu_reservation :: "u64 option"
  cpu_inst_count :: u64
  cpu_nans :: "nat \<Rightarrow> u64"

text \<open>\<open>cpu_nans\<close> is the host: the sign and payload of the NaN results still to come.\<close>

definition cpu_new :: "bus \<Rightarrow> cpu" where
  "cpu_new b = \<lparr>cpu_pc = 0, cpu_regs = (\<lambda>_. 0), cpu_f_regs = (\<lambda>_. 0), cpu_csr = csr_new, cpu_mode = Machine,
     cpu_bus = b, cpu_reservation = None, cpu_inst_count = 0,
     cpu_nans = (\<lambda>_. 0x7FF8000000000000)\<rparr>"

text \<open>An error is a trap with its \<open>tval\<close>.\<close>

type_synonym 'a hart = "(cpu, 'a, trap \<times> u64) comp"

subsection \<open>Registers and reservation\<close>

definition read_reg :: "u5 \<Rightarrow> cpu \<Rightarrow> u64" where
  "read_reg i s = (if i = 0 then 0 else cpu_regs s i)"

definition write_reg :: "u5 \<Rightarrow> u64 \<Rightarrow> cpu \<Rightarrow> cpu" where
  "write_reg i v s = (if i \<noteq> 0 then s\<lparr>cpu_regs := (cpu_regs s)(i := v)\<rparr> else s)"

definition write_freg :: "u5 \<Rightarrow> u64 \<Rightarrow> cpu \<Rightarrow> cpu" where
  "write_freg i v s = s\<lparr>cpu_f_regs := (cpu_f_regs s)(i := v)\<rparr>"

definition write_csr :: "u16 \<Rightarrow> u64 \<Rightarrow> cpu \<Rightarrow> cpu" where
  "write_csr a v s = s\<lparr>cpu_csr := csr_write (cpu_csr s) a v\<rparr>"

abbreviation read_csr :: "u16 \<Rightarrow> cpu \<Rightarrow> u64" where
  "read_csr a s \<equiv> csr_read (cpu_csr s) a"

abbreviation goto :: "u64 \<Rightarrow> cpu \<Rightarrow> cpu" where
  "goto a s \<equiv> s\<lparr>cpu_pc := a\<rparr>"

definition clear_reservation :: "cpu \<Rightarrow> cpu" where
  "clear_reservation s = s\<lparr>cpu_reservation := None\<rparr>"

definition set_reservation :: "u64 \<Rightarrow> cpu \<Rightarrow> cpu" where
  "set_reservation addr s = s\<lparr>cpu_reservation := Some (addr AND NOT 0x7)\<rparr>"

definition check_reservation :: "u64 \<Rightarrow> cpu \<Rightarrow> bool" where
  "check_reservation addr s =
     (case cpu_reservation s of Some reserved_addr \<Rightarrow> addr AND NOT 0x7 = reserved_addr | None \<Rightarrow> False)"

subsection \<open>Memory at virtual addresses\<close>

definition zoom_bus :: "(bus, 'a, 'e) comp \<Rightarrow> (cpu, 'a, 'e) comp" where
  "zoom_bus = zoomS cpu_bus (\<lambda>b s. s\<lparr>cpu_bus := b\<rparr>)"

definition translate_at :: "u64 \<Rightarrow> access_type \<Rightarrow> u64 \<Rightarrow> u64 hart" where
  "translate_at va acc tval s =
     map_errS (\<lambda>trap. (trap, tval))
       (zoom_bus (translate va acc (cpu_mode s) (read_csr SATP s) (read_csr MSTATUS s))) s"

text \<open>The four widths of a load or store; the callers pass no other sz.\<close>

definition bus_load :: "u64 \<Rightarrow> u64 \<Rightarrow> (bus, u64, mem_error) comp" where
  "bus_load sz pa =
     (if sz = 1 then mapS ucast (bus_read8 pa)
      else if sz = 2 then mapS ucast (bus_read16 pa)
      else if sz = 4 then mapS ucast (bus_read32 pa)
      else if sz = 8 then bus_read64 pa
      else liftR Panic)"

definition bus_store :: "u64 \<Rightarrow> u64 \<Rightarrow> u64 \<Rightarrow> (bus, unit, mem_error) comp" where
  "bus_store sz pa v =
     (if sz = 1 then bus_write8 pa (ucast v)
      else if sz = 2 then bus_write16 pa (ucast v)
      else if sz = 4 then bus_write32 pa (ucast v)
      else if sz = 8 then bus_write64 pa v
      else liftR Panic)"

abbreviation load_fault :: "u64 \<Rightarrow> 'e \<Rightarrow> trap \<times> u64" where
  "load_fault va \<equiv> \<lambda>_. (Exception LoadAccessFault, va)"

abbreviation store_fault :: "u64 \<Rightarrow> 'e \<Rightarrow> trap \<times> u64" where
  "store_fault va \<equiv> \<lambda>_. (Exception StoreAMOAccessFault, va)"

text \<open>
  The slow paths: \<open>n\<close> bytes are left, \<open>i\<close> are done. The code reads \<open>satp\<close>, \<open>mstatus\<close> and
  the mode before the loop, which changes none of them.
\<close>

fun load_bytes :: "u64 \<Rightarrow> nat \<Rightarrow> nat \<Rightarrow> u64 \<Rightarrow> u64 hart" where
  "load_bytes va 0 i acc = returnS acc"
| "load_bytes va (Suc n) i acc =
     bindS (translate_at (va + of_nat i) Load va) (\<lambda>pa.
     bindS (map_errS (load_fault va) (zoom_bus (bus_read8 pa))) (\<lambda>b.
     load_bytes va n (Suc i) (acc OR push_bit (i * 8) (ucast b))))"

fun store_bytes :: "u64 \<Rightarrow> u64 \<Rightarrow> nat \<Rightarrow> nat \<Rightarrow> unit hart" where
  "store_bytes va v 0 i = returnS ()"
| "store_bytes va v (Suc n) i =
     bindS (translate_at (va + of_nat i) Store va) (\<lambda>pa.
     bindS (map_errS (store_fault va) (zoom_bus (bus_write8 pa (ucast (drop_bit (i * 8) v))))) (\<lambda>_.
     store_bytes va v n (Suc i)))"

definition load_va :: "u64 \<Rightarrow> u64 \<Rightarrow> u64 hart" where
  "load_va va sz =
     (if (va AND 0xFFF) + sz \<le> 0x1000 then
        bindS (translate_at va Load va) (\<lambda>pa. map_errS (load_fault va) (zoom_bus (bus_load sz pa)))
      else load_bytes va (unat sz) 0 0)"

definition store_va :: "u64 \<Rightarrow> u64 \<Rightarrow> u64 \<Rightarrow> unit hart" where
  "store_va va v sz =
     (if (va AND 0xFFF) + sz \<le> 0x1000 then
        bindS (translate_at va Store va) (\<lambda>pa. map_errS (store_fault va) (zoom_bus (bus_store sz pa v)))
      else store_bytes va v (unat sz) 0)"

text \<open>
  The half-word at \<open>pa + 2\<close> is only read when the one at \<open>pa\<close> was, so \<open>pa\<close> is a mapped
  address and the sum does not overflow.
\<close>

definition fetch :: "u32 hart" where
  "fetch s =
     (let pc = cpu_pc s in
      if pc mod 2 \<noteq> 0 then (Err (Exception InstructionAddressMisaligned, pc), s)
      else
        bindS (translate_at pc Instruction pc) (\<lambda>pa.
        bindS (map_errS (\<lambda>_. (Exception InstructionAccessFault, pc)) (zoom_bus (bus_read16 pa))) (\<lambda>lower16.
          let lower = ucast lower16 :: u32 in
          if lower AND 0x3 \<noteq> 0x3 then returnS lower
          else
            bindS (if pc AND 0xFFF \<ge> 0xFFE then translate_at (pc + 2) Instruction pc else returnS (pa + 2)) (\<lambda>upper_pa.
            bindS (map_errS (\<lambda>_. (Exception InstructionAccessFault, pc)) (zoom_bus (bus_read16 upper_pa))) (\<lambda>upper16.
            returnS (lower OR push_bit 16 (ucast upper16)))))) s)"

subsection \<open>Traps\<close>

definition trap_vector :: "trap \<Rightarrow> u64 \<Rightarrow> u64 \<Rightarrow> u64" where
  "trap_vector t tvec cause =
     (let base = tvec AND NOT 0x3 in
      if is_interrupt t \<and> tvec AND 0x1 \<noteq> 0 then base + 4 * (cause AND 0x3F) else base)"

definition take_s_trap :: "trap \<Rightarrow> u64 \<Rightarrow> cpu \<Rightarrow> cpu" where
  "take_s_trap t mtval s =
     (let pc = cpu_pc s;
          stvec = read_csr STVEC s;
          scause = trap_code t;
          s1 = write_csr STVAL mtval (write_csr SCAUSE scause (write_csr SEPC pc s));
          sstatus = read_csr SSTATUS s1;
          sie = drop_bit 1 sstatus AND 0x1;
          sstatus = (sstatus AND NOT (push_bit 5 1)) OR push_bit 5 sie;
          sstatus = sstatus AND NOT (push_bit 1 1);
          sstatus = (sstatus AND NOT (push_bit 8 1)) OR push_bit 8 (mode_bits (cpu_mode s1) AND 1);
          s2 = write_csr SSTATUS sstatus s1 in
      s2\<lparr>cpu_mode := Supervisor, cpu_pc := trap_vector t stvec scause\<rparr>)"

definition take_trap :: "trap \<Rightarrow> u64 \<Rightarrow> cpu \<Rightarrow> cpu" where
  "take_trap t mtval s =
     (let pc = cpu_pc s;
          mtvec = read_csr MTVEC s;
          mcause = trap_code t;
          s1 = write_csr MTVAL mtval (write_csr MCAUSE mcause (write_csr MEPC pc s));
          mstatus = read_csr MSTATUS s1;
          mie = drop_bit 3 mstatus AND 0x1;
          mstatus = (mstatus AND NOT (push_bit 7 1)) OR push_bit 7 mie;
          mstatus = mstatus AND NOT (push_bit 3 1);
          mstatus = (mstatus AND NOT (push_bit 11 0x3)) OR push_bit 11 (mode_bits (cpu_mode s1));
          s2 = write_csr MSTATUS mstatus s1 in
      s2\<lparr>cpu_mode := Machine, cpu_pc := trap_vector t mtvec mcause\<rparr>)"

definition handle_trap :: "trap \<Rightarrow> u64 \<Rightarrow> cpu \<Rightarrow> cpu" where
  "handle_trap t tval s0 =
     (let s = clear_reservation s0;
          mideleg = read_csr MIDELEG s;
          medeleg = read_csr MEDELEG s;
          code = trap_code t;
          cause_code = code AND NOT (push_bit 63 1);
          should_delegate =
            (case t of
               Interrupt _ \<Rightarrow> drop_bit (unat cause_code) mideleg AND 1 \<noteq> 0
             | Exception _ \<Rightarrow> drop_bit (unat cause_code) medeleg AND 1 \<noteq> 0) in
      if should_delegate \<and> cpu_mode s \<noteq> Machine then take_s_trap t tval s else take_trap t tval s)"

text \<open>The returns, arms \<open>0x302\<close> and \<open>0x102\<close> of the SYSTEM instructions.\<close>

definition mode_of_mpp :: "u64 \<Rightarrow> mode" where
  "mode_of_mpp mpp = (if mpp = 0 then User else if mpp = 1 then Supervisor else if mpp = 2 then Hypervisor else Machine)"

definition exec_mret :: "cpu \<Rightarrow> cpu" where
  "exec_mret s =
     (let mstatus = read_csr MSTATUS s;
          mpp = drop_bit 11 mstatus AND 0x3;
          mpie = drop_bit 7 mstatus AND 0x1;
          mstatus = (mstatus AND NOT (push_bit 3 1)) OR push_bit 3 mpie;
          mstatus = mstatus OR push_bit 7 1;
          mstatus = mstatus AND NOT (push_bit 11 0x3);
          s1 = write_csr MSTATUS mstatus s;
          s2 = s1\<lparr>cpu_mode := mode_of_mpp mpp\<rparr> in
      clear_reservation (s2\<lparr>cpu_pc := read_csr MEPC s2\<rparr>))"

definition exec_sret :: "cpu \<Rightarrow> cpu" where
  "exec_sret s =
     (let sstatus = read_csr SSTATUS s;
          spp = drop_bit 8 sstatus AND 0x1;
          spie = drop_bit 5 sstatus AND 0x1;
          sstatus = (sstatus AND NOT (push_bit 1 1)) OR push_bit 1 spie;
          sstatus = sstatus OR push_bit 5 1;
          sstatus = sstatus AND NOT (push_bit 8 1);
          s1 = write_csr SSTATUS sstatus s;
          s2 = s1\<lparr>cpu_mode := (if spp = 0 then User else Supervisor)\<rparr> in
      clear_reservation (s2\<lparr>cpu_pc := read_csr SEPC s2\<rparr>))"

subsection \<open>Interrupts\<close>

definition set_line :: "nat \<Rightarrow> bool \<Rightarrow> u64 \<Rightarrow> u64" where
  "set_line n b mip = (if b then mip OR push_bit n 1 else mip AND NOT (push_bit n 1))"

definition hardware_mip :: "bus \<Rightarrow> u64 \<Rightarrow> u64" where
  "hardware_mip b mip =
     (let mip = set_line 11 (bus_has_external_interrupt b 0) mip;
          mip = set_line 7 (bus_has_timer_interrupt b) mip;
          mip = set_line 3 (bus_has_software_interrupt b 0) mip;
          mip = set_line 9 (bus_has_external_interrupt b 1) mip in
      set_line 5 (bus_has_s_timer_interrupt b) mip)"

definition m_interrupt :: "u64 \<Rightarrow> interrupt option" where
  "m_interrupt pending =
     (if pending AND push_bit 11 1 \<noteq> 0 then Some MachineExternalInterrupt
      else if pending AND push_bit 3 1 \<noteq> 0 then Some MachineSoftwareInterrupt
      else if pending AND push_bit 7 1 \<noteq> 0 then Some MachineTimerInterrupt
      else None)"

definition s_interrupt :: "u64 \<Rightarrow> u64 \<Rightarrow> interrupt option" where
  "s_interrupt pending mideleg =
     (if pending AND push_bit 9 1 \<noteq> 0 \<and> mideleg AND push_bit 9 1 \<noteq> 0 then Some SupervisorExternalInterrupt
      else if pending AND push_bit 1 1 \<noteq> 0 \<and> mideleg AND push_bit 1 1 \<noteq> 0 then Some SupervisorSoftwareInterrupt
      else if pending AND push_bit 5 1 \<noteq> 0 \<and> mideleg AND push_bit 5 1 \<noteq> 0 then Some SupervisorTimerInterrupt
      else None)"

definition orelse :: "'a option \<Rightarrow> 'a option \<Rightarrow> 'a option" where
  "orelse x y = (case x of None \<Rightarrow> y | Some _ \<Rightarrow> x)"

definition select_interrupt :: "mode \<Rightarrow> u64 \<Rightarrow> u64 \<Rightarrow> u64 \<Rightarrow> interrupt option" where
  "select_interrupt m mstatus pending mideleg =
     (let mie_enabled = drop_bit 3 mstatus AND 0x1;
          sie_enabled = drop_bit 1 mstatus AND 0x1 in
      orelse (if m = Machine \<and> mie_enabled = 1 then m_interrupt pending else None)
     (orelse (if m = Supervisor \<and> sie_enabled = 1 then s_interrupt pending mideleg else None)
     (orelse (if m \<noteq> Machine then m_interrupt pending else None)
             (if m = User then s_interrupt pending mideleg else None))))"

definition check_interrupt :: "(cpu, unit, trap) comp" where
  "check_interrupt s0 =
     (let s = s0\<lparr>cpu_bus := update_uart_irq (cpu_bus s0)\<rparr>;
          mstatus = read_csr MSTATUS s;
          mip = hardware_mip (cpu_bus s) (read_csr MIP s);
          s1 = write_csr MIP mip s;
          mie = read_csr MIE s1;
          pending = mip AND mie in
      if pending = 0 then (Ok (), s1)
      else
        (case select_interrupt (cpu_mode s1) mstatus pending (read_csr MIDELEG s1) of
           Some i \<Rightarrow> (Err (Interrupt i), s1)
         | None \<Rightarrow> (Ok (), s1)))"

definition update_timer_by :: "u64 \<Rightarrow> cpu \<Rightarrow> cpu" where
  "update_timer_by delta s = s\<lparr>cpu_bus := bus_tick_timer_by delta (cpu_bus s)\<rparr>"

definition update_timer :: "cpu \<Rightarrow> cpu" where
  "update_timer = update_timer_by 1"

definition reg_name :: "nat \<Rightarrow> string" where
  "reg_name i =
     (let names = [''zero'', ''ra'', ''sp'', ''gp'', ''tp'', ''t0'', ''t1'', ''t2'', ''s0'', ''s1'',
        ''a0'', ''a1'', ''a2'', ''a3'', ''a4'', ''a5'', ''a6'', ''a7'', ''s2'', ''s3'', ''s4'', ''s5'',
        ''s6'', ''s7'', ''s8'', ''s9'', ''s10'', ''s11'', ''t3'', ''t4'', ''t5'', ''t6''] in
      if i < 32 then names ! i else ''??'')"

subsection \<open>Frames\<close>

lemma write_csr_frame [simp]:
  "cpu_pc (write_csr a v s) = cpu_pc s" "cpu_regs (write_csr a v s) = cpu_regs s"
  "cpu_f_regs (write_csr a v s) = cpu_f_regs s" "cpu_mode (write_csr a v s) = cpu_mode s"
  "cpu_bus (write_csr a v s) = cpu_bus s" "cpu_reservation (write_csr a v s) = cpu_reservation s"
  "cpu_inst_count (write_csr a v s) = cpu_inst_count s"
  "cpu_csr (write_csr a v s) = csr_write (cpu_csr s) a v"
  by (simp_all add: write_csr_def)

lemma clear_reservation_frame [simp]:
  "cpu_pc (clear_reservation s) = cpu_pc s" "cpu_regs (clear_reservation s) = cpu_regs s"
  "cpu_f_regs (clear_reservation s) = cpu_f_regs s" "cpu_mode (clear_reservation s) = cpu_mode s"
  "cpu_bus (clear_reservation s) = cpu_bus s" "cpu_reservation (clear_reservation s) = None"
  "cpu_inst_count (clear_reservation s) = cpu_inst_count s" "cpu_csr (clear_reservation s) = cpu_csr s"
  by (simp_all add: clear_reservation_def)

lemma low_bits_kept:
  "n < 32 \<Longrightarrow> bit (((x AND NOT (push_bit 32 a) OR push_bit 32 b) AND NOT (push_bit 63 c)) OR
     (if P then push_bit 63 d else 0)) n = bit x n" for x :: u64
  by (auto simp: bit_simps)

lemma bit_mstatus: "n < 32 \<Longrightarrow> bit (csr_read_mstatus c) n = bit (reg_get c MSTATUS) n"
  by (simp only: csr_read_mstatus_def Let_def low_bits_kept)

lemma trap_csrs_plain:
  "plain_csr MEPC" "plain_csr MCAUSE" "plain_csr MTVAL" "plain_csr MTVEC" "plain_csr MEDELEG"
  "plain_csr SEPC" "plain_csr SCAUSE" "plain_csr STVAL" "plain_csr STVEC"
  by (simp_all add: plain_csr_def)

lemmas trap_csr_simps = trap_csrs_plain csr_read_plain csr_write_plain csr_read_simps csr_write_regs

subsection \<open>Trap entry\<close>

primrec cause_number :: "trap \<Rightarrow> nat" where
  "cause_number (Exception e) = unat (exception_code e)"
| "cause_number (Interrupt i) = unat (interrupt_code i)"

definition delegated :: "trap \<Rightarrow> cpu \<Rightarrow> bool" where
  "delegated t s \<longleftrightarrow> cpu_mode s \<noteq> Machine \<and>
     bit (read_csr (if is_interrupt t then MIDELEG else MEDELEG) s) (cause_number t)"

lemma cause_of_code: "unat (trap_code t AND NOT (push_bit 63 1)) = cause_number t"
proof (cases t)
  case (Exception e)
  then show ?thesis by (cases e) simp_all
next
  case (Interrupt i)
  then show ?thesis by (cases i) simp_all
qed

lemma handle_trap_cases:
  "handle_trap t v s =
     (if delegated t s then take_s_trap t v (clear_reservation s) else take_trap t v (clear_reservation s))"
  unfolding handle_trap_def Let_def cause_of_code
  by (cases t) (auto simp: delegated_def and_1_eq)

lemma low_code: "trap_code t AND 0x3F = of_nat (cause_number t)"
proof (cases t)
  case (Exception e)
  then show ?thesis by (cases e) simp_all
next
  case (Interrupt i)
  then show ?thesis by (cases i) simp_all
qed

lemma trap_vector_spec:
  "trap_vector t tvec (trap_code t) =
     (tvec AND NOT 0x3) + (if is_interrupt t \<and> bit tvec 0 then 4 * of_nat (cause_number t) else 0)"
  using and_1_eq [of 0 tvec] by (auto simp: trap_vector_def low_code Let_def)

text \<open>The bits of MSTATUS an entry and a return rewrite.\<close>

lemma mode_bits_bits:
  "bit (mode_bits m) 0 = (m \<in> {Supervisor, Machine})" "bit (mode_bits m) (Suc 0) = (m \<in> {Hypervisor, Machine})"
  by (cases m; simp)+

lemma mode_of_two_bits:
  "mode_of_mpp (drop_bit n x AND 3) =
     (if bit x n then if bit x (Suc n) then Machine else Supervisor
      else if bit x (Suc n) then Hypervisor else User)"
proof -
  let ?y = "drop_bit n x AND 3"
  have b: "bit ?y 0 = bit x n" "bit ?y (Suc 0) = bit x (Suc n)"
    by (simp_all add: bit_simps)
  have "?y \<le> 3" by (rule word_and_le1)
  then have "?y = 0 \<or> ?y = 1 \<or> ?y = 2 \<or> ?y = 3"
    by (simp add: word_le_nat_alt word_unat_eq_iff) arith
  then show ?thesis
    using b by (elim disjE) (simp_all add: mode_of_mpp_def)
qed

lemma take_trap_mstatus:
  fixes t v s
  defines "r \<equiv> reg_get (cpu_csr (take_trap t v s)) MSTATUS"
  shows "\<not> bit r 3" "bit r 7 = bit (reg_get (cpu_csr s) MSTATUS) 3"
    "bit r 11 = bit (mode_bits (cpu_mode s)) 0" "bit r 12 = bit (mode_bits (cpu_mode s)) 1"
  unfolding r_def
  by (simp_all add: take_trap_def Let_def trap_csr_simps bit_simps bit_mstatus mode_bits_bits
      del: push_bit_numeral push_bit_of_1)

lemma take_s_trap_mstatus:
  fixes t v s
  defines "r \<equiv> reg_get (cpu_csr (take_s_trap t v s)) MSTATUS"
  shows "\<not> bit r 1" "bit r 5 = bit (reg_get (cpu_csr s) MSTATUS) 1"
    "bit r 8 = bit (mode_bits (cpu_mode s)) 0"
  unfolding r_def
  by (simp_all add: take_s_trap_def Let_def trap_csr_simps bit_simps bit_mstatus mode_bits_bits
      del: push_bit_numeral push_bit_of_1)

lemma take_trap_frame:
  "cpu_regs (take_trap t v s) = cpu_regs s" "cpu_f_regs (take_trap t v s) = cpu_f_regs s"
  "cpu_bus (take_trap t v s) = cpu_bus s" "cpu_reservation (take_trap t v s) = cpu_reservation s"
  "cpu_mode (take_trap t v s) = Machine"
  "read_csr MEPC (take_trap t v s) = cpu_pc s" "read_csr MCAUSE (take_trap t v s) = trap_code t"
  "read_csr MTVAL (take_trap t v s) = v" "read_csr SEPC (take_trap t v s) = read_csr SEPC s"
  "cpu_pc (take_trap t v s) = trap_vector t (read_csr MTVEC s) (trap_code t)"
  by (simp_all add: take_trap_def Let_def trap_csr_simps)

lemma take_s_trap_frame:
  "cpu_regs (take_s_trap t v s) = cpu_regs s" "cpu_f_regs (take_s_trap t v s) = cpu_f_regs s"
  "cpu_bus (take_s_trap t v s) = cpu_bus s" "cpu_reservation (take_s_trap t v s) = cpu_reservation s"
  "cpu_mode (take_s_trap t v s) = Supervisor"
  "read_csr SEPC (take_s_trap t v s) = cpu_pc s" "read_csr SCAUSE (take_s_trap t v s) = trap_code t"
  "read_csr STVAL (take_s_trap t v s) = v" "read_csr MEPC (take_s_trap t v s) = read_csr MEPC s"
  "cpu_pc (take_s_trap t v s) = trap_vector t (read_csr STVEC s) (trap_code t)"
  by (simp_all add: take_s_trap_def Let_def trap_csr_simps)

lemma handle_trap_frame:
  "cpu_regs (handle_trap t v s) = cpu_regs s" "cpu_f_regs (handle_trap t v s) = cpu_f_regs s"
  "cpu_bus (handle_trap t v s) = cpu_bus s" "cpu_reservation (handle_trap t v s) = None"
  by (simp_all add: handle_trap_cases take_trap_frame take_s_trap_frame)

lemma delegated_clear [simp]: "delegated t (clear_reservation s) = delegated t s"
  by (simp add: delegated_def)

text \<open>
  Property C7. Trap entry. A trap taken below machine mode whose cause is delegated enters
  supervisor mode, any other enters machine mode. The handler finds the interrupted pc, the
  cause and the value in its own registers, starts at the base of its vector (at the slot of
  the cause for a vectored interrupt), runs with its interrupts disabled, and finds the old
  enable bit and mode on the stack of the status register. The integer and floating-point
  registers and memory are untouched and the reservation is gone.
\<close>

theorem trap_entry:
  "let s' = handle_trap t v s;
       vector = \<lambda>tvec. (tvec AND NOT 0x3) + (if is_interrupt t \<and> bit tvec 0 then 4 * of_nat (cause_number t) else 0);
       status = \<lambda>s. csr_read (cpu_csr s) MSTATUS in
   (if delegated t s then
      cpu_mode s' = Supervisor \<and> read_csr SEPC s' = cpu_pc s \<and> read_csr SCAUSE s' = trap_code t \<and>
      read_csr STVAL s' = v \<and> cpu_pc s' = vector (read_csr STVEC s) \<and>
      \<not> bit (status s') 1 \<and> bit (status s') 5 = bit (status s) 1 \<and>
      bit (status s') 8 = (cpu_mode s = Supervisor)
    else
      cpu_mode s' = Machine \<and> read_csr MEPC s' = cpu_pc s \<and> read_csr MCAUSE s' = trap_code t \<and>
      read_csr MTVAL s' = v \<and> cpu_pc s' = vector (read_csr MTVEC s) \<and>
      \<not> bit (status s') 3 \<and> bit (status s') 7 = bit (status s) 3 \<and>
      mode_of_mpp (drop_bit 11 (status s') AND 3) = cpu_mode s) \<and>
   cpu_regs s' = cpu_regs s \<and> cpu_f_regs s' = cpu_f_regs s \<and> cpu_bus s' = cpu_bus s \<and> cpu_reservation s' = None"
proof (cases "delegated t s")
  case True
  then have "cpu_mode s \<noteq> Machine" by (simp add: delegated_def)
  with True show ?thesis
    by (simp add: Let_def handle_trap_cases take_s_trap_frame trap_vector_spec csr_read_simps
        bit_mstatus take_s_trap_mstatus take_s_trap_mstatus [unfolded One_nat_def] mode_bits_bits)
next
  case False
  then show ?thesis
    by (cases "cpu_mode s") (simp_all add: Let_def handle_trap_cases take_trap_frame trap_vector_spec csr_read_simps
        bit_mstatus take_trap_mstatus mode_bits_bits mode_of_two_bits)
qed

subsection \<open>Trap return\<close>

lemma exec_mret_mstatus:
  fixes s
  defines "r \<equiv> reg_get (cpu_csr (exec_mret s)) MSTATUS" and "m \<equiv> reg_get (cpu_csr s) MSTATUS"
  shows "bit r 3 = bit m 7" "bit r 7" "\<not> bit r 11" "\<not> bit r 12"
  unfolding r_def m_def
  by (simp_all add: exec_mret_def Let_def trap_csr_simps bit_simps bit_mstatus del: push_bit_numeral push_bit_of_1)

lemma exec_sret_mstatus:
  fixes s
  defines "r \<equiv> reg_get (cpu_csr (exec_sret s)) MSTATUS" and "m \<equiv> reg_get (cpu_csr s) MSTATUS"
  shows "bit r 1 = bit m 5" "bit r 5" "\<not> bit r 8"
  unfolding r_def m_def
  by (simp_all add: exec_sret_def Let_def trap_csr_simps bit_simps bit_mstatus
      del: push_bit_numeral push_bit_of_1 push_bit_Suc)

lemma exec_mret_frame:
  "cpu_regs (exec_mret s) = cpu_regs s" "cpu_f_regs (exec_mret s) = cpu_f_regs s"
  "cpu_bus (exec_mret s) = cpu_bus s" "cpu_reservation (exec_mret s) = None"
  "cpu_pc (exec_mret s) = read_csr MEPC s"
  "cpu_mode (exec_mret s) = mode_of_mpp (drop_bit 11 (read_csr MSTATUS s) AND 3)"
  by (simp_all add: exec_mret_def Let_def trap_csr_simps)

lemma exec_sret_frame:
  "cpu_regs (exec_sret s) = cpu_regs s" "cpu_f_regs (exec_sret s) = cpu_f_regs s"
  "cpu_bus (exec_sret s) = cpu_bus s" "cpu_reservation (exec_sret s) = None"
  "cpu_pc (exec_sret s) = read_csr SEPC s"
  "cpu_mode (exec_sret s) = (if bit (read_csr MSTATUS s) 8 then Supervisor else User)"
  by (simp_all add: exec_sret_def Let_def trap_csr_simps and_1_eq bit_simps)

text \<open>What a trap interrupts: the program counter, the mode, the registers, memory, and an enable bit.\<close>

definition resumed :: "nat \<Rightarrow> cpu \<Rightarrow> cpu \<Rightarrow> bool" where
  "resumed enable s s' \<longleftrightarrow> cpu_pc s' = cpu_pc s \<and> cpu_mode s' = cpu_mode s \<and> cpu_regs s' = cpu_regs s \<and>
     cpu_f_regs s' = cpu_f_regs s \<and> cpu_bus s' = cpu_bus s \<and>
     bit (read_csr MSTATUS s') enable = bit (read_csr MSTATUS s) enable"

text \<open>
  Property C8. Trap entry and return are inverse: a trap that entered machine mode, from
  whatever mode and for whatever cause, is undone by MRET, and one that entered supervisor
  mode from user or supervisor mode is undone by SRET. The program counter, the mode, the
  registers, memory and the interrupt enable bit of the level are those of before the trap.
\<close>

theorem trap_then_return:
  assumes "cpu_mode s \<noteq> Hypervisor"
  shows "if cpu_mode (handle_trap t v s) = Machine then resumed 3 s (exec_mret (handle_trap t v s))
    else resumed 1 s (exec_sret (handle_trap t v s))"
proof (cases "delegated t s")
  case True
  then have "cpu_mode s \<in> {User, Supervisor}" using assms by (cases "cpu_mode s") (simp_all add: delegated_def)
  with True show ?thesis
    by (auto simp: handle_trap_cases resumed_def take_s_trap_frame exec_sret_frame csr_read_simps bit_mstatus
        exec_sret_mstatus exec_sret_mstatus [unfolded One_nat_def] take_s_trap_mstatus mode_bits_bits)
next
  case False
  then show ?thesis
    by (cases "cpu_mode s") (simp_all add: handle_trap_cases resumed_def take_trap_frame exec_mret_frame
        csr_read_simps bit_mstatus exec_mret_mstatus take_trap_mstatus mode_bits_bits mode_of_two_bits)
qed

theorem trap_then_return_witness:
  "let s = cpu_new bus_example in resumed 3 s (exec_mret (handle_trap (Exception Breakpoint) 7 s))"
  using trap_then_return [of "cpu_new bus_example" "Exception Breakpoint" 7]
  by (simp add: handle_trap_cases take_trap_frame delegated_def cpu_new_def Let_def)

subsection \<open>Interrupts\<close>

text \<open>The specification: the lines, who may be interrupted by what, and in which order.\<close>

definition interrupt_line :: "cpu \<Rightarrow> interrupt \<Rightarrow> bool" where
  "interrupt_line s i =
     (let b = update_uart_irq (cpu_bus s) in
      case i of
        MachineExternalInterrupt \<Rightarrow> bus_has_external_interrupt b 0
      | MachineSoftwareInterrupt \<Rightarrow> bus_has_software_interrupt b 0
      | MachineTimerInterrupt \<Rightarrow> bus_has_timer_interrupt b
      | SupervisorExternalInterrupt \<Rightarrow> bus_has_external_interrupt b 1
      | SupervisorTimerInterrupt \<Rightarrow> bus_has_s_timer_interrupt b
      | _ \<Rightarrow> bit (read_csr MIP s) (unat (interrupt_code i)))"

definition interruptible :: "cpu \<Rightarrow> interrupt \<Rightarrow> bool" where
  "interruptible s i \<longleftrightarrow>
     (if i \<in> {MachineExternalInterrupt, MachineSoftwareInterrupt, MachineTimerInterrupt}
      then cpu_mode s = Machine \<longrightarrow> bit (read_csr MSTATUS s) 3
      else bit (read_csr MIDELEG s) (unat (interrupt_code i)) \<and>
        (cpu_mode s = User \<or> cpu_mode s = Supervisor \<and> bit (read_csr MSTATUS s) 1))"

definition interrupt_order :: "cpu \<Rightarrow> interrupt list" where
  "interrupt_order s =
     (let M = [MachineExternalInterrupt, MachineSoftwareInterrupt, MachineTimerInterrupt];
          S = [SupervisorExternalInterrupt, SupervisorSoftwareInterrupt, SupervisorTimerInterrupt] in
      if cpu_mode s = Supervisor then S @ M else M @ S)"

definition interrupt_ready :: "cpu \<Rightarrow> interrupt \<Rightarrow> bool" where
  "interrupt_ready s i \<longleftrightarrow>
     interrupt_line s i \<and> bit (read_csr MIE s) (unat (interrupt_code i)) \<and> interruptible s i"

lemma bit_set_line: "n < 64 \<Longrightarrow> k < 64 \<Longrightarrow> bit (set_line n b x) k = (if k = n then b else bit x k)"
  by (auto simp: set_line_def bit_simps simp del: push_bit_of_1)

lemma bit_hardware_mip:
  "bit (hardware_mip b mip) 11 = bus_has_external_interrupt b 0"
  "bit (hardware_mip b mip) 3 = bus_has_software_interrupt b 0"
  "bit (hardware_mip b mip) 7 = bus_has_timer_interrupt b"
  "bit (hardware_mip b mip) 9 = bus_has_external_interrupt b 1"
  "bit (hardware_mip b mip) 5 = bus_has_s_timer_interrupt b"
  "bit (hardware_mip b mip) (Suc 0) = bit mip 1"
  by (simp_all add: hardware_mip_def Let_def bit_set_line)

lemma test_bits: "n < 64 \<Longrightarrow> (x AND push_bit n 1 \<noteq> 0) = bit x n" for x :: u64
  unfolding and_exp_eq_0_iff by simp

lemma m_interrupt_find:
  "m_interrupt pending = find (\<lambda>i. bit pending (unat (interrupt_code i)))
     [MachineExternalInterrupt, MachineSoftwareInterrupt, MachineTimerInterrupt]"
  unfolding m_interrupt_def by (subst test_bits, simp)+ simp

lemma s_interrupt_find:
  "s_interrupt pending mideleg =
     find (\<lambda>i. bit pending (unat (interrupt_code i)) \<and> bit mideleg (unat (interrupt_code i)))
     [SupervisorExternalInterrupt, SupervisorSoftwareInterrupt, SupervisorTimerInterrupt]"
  unfolding s_interrupt_def by (subst test_bits, simp)+ simp

lemma orelse_simps [simp]:
  "orelse None y = y" "orelse x None = x" "orelse (Some a) y = Some a"
  "orelse (if c then Some a else x) y = (if c then Some a else orelse x y)"
  by (auto simp: orelse_def split: option.splits)

lemma select_interrupt_find:
  "select_interrupt (cpu_mode s) (read_csr MSTATUS s) pending (read_csr MIDELEG s) =
     find (\<lambda>i. bit pending (unat (interrupt_code i)) \<and> interruptible s i) (interrupt_order s)"
proof -
  have en: "(drop_bit 3 (read_csr MSTATUS s) AND 1 = 1) = bit (read_csr MSTATUS s) 3"
    "(drop_bit 1 (read_csr MSTATUS s) AND 1 = 1) = bit (read_csr MSTATUS s) 1"
    by (simp_all add: and_1_eq)
  show ?thesis
    unfolding select_interrupt_def Let_def en m_interrupt_find s_interrupt_find interrupt_order_def
    by (cases "cpu_mode s") (simp_all add: interruptible_def)
qed

text \<open>
  Property C9. The interrupt check takes exactly the first, in order of priority, of the
  interrupts whose line is up (as the devices drive it at that moment, the serial port's
  line refreshed), that MIE enables, and that the mode lets through: machine interrupts
  always below machine mode and under MIE in it, delegated supervisor interrupts in user
  mode and under SIE in supervisor mode. If there is none it reports none; it never panics.
\<close>

theorem check_interrupt_takes:
  "fst (check_interrupt s) =
     (case find (interrupt_ready s) (interrupt_order s) of None \<Rightarrow> Ok () | Some i \<Rightarrow> Err (Interrupt i))"
proof -
  define b where "b = update_uart_irq (cpu_bus s)"
  define mip where "mip = hardware_mip b (read_csr MIP s)"
  define s1 where "s1 = write_csr MIP mip (s\<lparr>cpu_bus := b\<rparr>)"
  define pending where "pending = mip AND read_csr MIE s1"
  have kept: "cpu_mode s1 = cpu_mode s" "read_csr MIDELEG s1 = read_csr MIDELEG s" "read_csr MIE s1 = read_csr MIE s"
    by (simp_all add: s1_def trap_csr_simps)
  have ready: "i \<in> set (interrupt_order s) \<Longrightarrow>
      bit pending (unat (interrupt_code i)) \<and> interruptible s i \<longleftrightarrow> interrupt_ready s i" for i
    unfolding interrupt_order_def pending_def mip_def b_def
    by (auto simp: interrupt_ready_def interrupt_line_def kept bit_and_iff bit_hardware_mip Let_def split: if_splits)
  have select: "select_interrupt (cpu_mode s1) (read_csr MSTATUS s) pending (read_csr MIDELEG s1) =
      find (interrupt_ready s) (interrupt_order s)"
    unfolding kept select_interrupt_find using ready by (rule find_cong [OF refl])
  have none: "pending = 0 \<Longrightarrow> find (interrupt_ready s) (interrupt_order s) = None"
    using ready by (auto simp: find_None_iff)
  show ?thesis
    using select none
    by (auto simp: check_interrupt_def Let_def b_def mip_def s1_def pending_def split: option.splits)
qed

subsection \<open>Where the selection leaves the manual\<close>

text \<open>
  In supervisor mode a delegated interrupt is taken before a machine interrupt that is pending
  too, and a supervisor interrupt that is not delegated is never taken.
\<close>

lemma supervisor_before_machine:
  "select_interrupt Supervisor 0x2 (push_bit 11 1 OR push_bit 9 1) 0x200 = Some SupervisorExternalInterrupt"
  by (simp add: select_interrupt_def s_interrupt_def orelse_def)

lemma undelegated_never_taken:
  "pending AND NOT 0x222 = 0 \<Longrightarrow> select_interrupt m mstatus pending 0 = None"
proof -
  assume "pending AND NOT 0x222 = 0"
  then have "\<not> bit pending n" if "n \<in> {3, 7, 11}" for n
    using that bit_and_iff [of pending "NOT 0x222" n] by (auto simp: bit_not_iff bit_simps)
  then have "m_interrupt pending = None"
    by (simp add: m_interrupt_def and_exp_eq_0_iff del: push_bit_numeral push_bit_of_1)
  then show ?thesis by (simp add: select_interrupt_def s_interrupt_def orelse_def Let_def)
qed

text \<open>The interrupt check cannot store the machine-level lines: MIP keeps its old bits 3, 7 and 11.\<close>

lemma mip_machine_lines_kept:
  "n \<in> {3, 7, 11} \<Longrightarrow> bit (read_csr MIP (write_csr MIP v s)) n = bit (read_csr MIP s) n"
  by (auto simp: csr_read_simps csr_write_def Let_def bit_simps)

end
