(* ===== verification/HartMem.thy ===== *)
theory HartMem
  imports Hart
begin

text \<open>
  The loads and stores of the hart (\<open>load_va\<close>, \<open>store_va\<close> of \<open>src/src/cpu.rs\<close>) over main
  memory when addresses are not translated: the fast path and the byte-by-byte path of an
  access that crosses a page reach the same bytes.
\<close>

definition untranslated :: "cpu \<Rightarrow> bool" where
  "untranslated s \<longleftrightarrow> effective_mode (cpu_mode s) (read_csr MSTATUS s) = Machine \<or> drop_bit 60 (read_csr SATP s) = 0"

definition in_memory :: "cpu \<Rightarrow> u64 \<Rightarrow> nat \<Rightarrow> bool" where
  "in_memory s a n \<longleftrightarrow> bus_wf (cpu_bus s) \<and> 0x80000000 \<le> unat a \<and>
     unat a + n \<le> 0x80000000 + min (dram_len (bus_dram (cpu_bus s))) (unat DRAM_SIZE)"

definition offset_of :: "u64 \<Rightarrow> nat" where
  "offset_of a = unat a - 0x80000000"

abbreviation memory :: "cpu \<Rightarrow> nat \<Rightarrow> u8" where
  "memory s \<equiv> dram_mem (bus_dram (cpu_bus s))"

definition put_bytes :: "u64 \<Rightarrow> u8 list \<Rightarrow> cpu \<Rightarrow> cpu" where
  "put_bytes a bs s = s\<lparr>cpu_bus := (cpu_bus s)\<lparr>bus_dram := dram_put (bus_dram (cpu_bus s)) (offset_of a) bs\<rparr>\<rparr>"

lemma translate_untranslated:
  "untranslated s \<Longrightarrow> acc \<noteq> Instruction \<Longrightarrow> translate_at va acc tval s = (Ok va, s)"
  by (auto simp: untranslated_def translate_at_def translate_def zoom_bus_def zoomS_def map_errS_def Let_def)

lemma in_memory_cell:
  assumes "in_memory s a n" and "0 < n"
  shows "in_dram a" and "dram_wf (bus_dram (cpu_bus s))" and "unat (a - DRAM_BASE) = offset_of a"
    and "offset_of a + n \<le> dram_len (bus_dram (cpu_bus s))"
proof -
  show d: "in_dram a"
    using assms by (auto simp: in_memory_def in_dram_def word_le_nat_alt word_less_nat_alt)
  show "dram_wf (bus_dram (cpu_bus s))" using assms by (simp add: in_memory_def bus_wf_def)
  show "unat (a - DRAM_BASE) = offset_of a" using in_dram_unat [OF d] by (simp add: offset_of_def)
  show "offset_of a + n \<le> dram_len (bus_dram (cpu_bus s))" using assms by (auto simp: in_memory_def offset_of_def)
qed

lemma ucast_le_word_u64: "8 * length bs \<le> LENGTH('a) \<Longrightarrow> ucast (le_word bs :: 'a::len word) = (le_word bs :: u64)"
  by (rule bit_word_eqI) (auto simp: bit_ucast_iff bit_le_word dest: bit_imp_le_length)

lemma le_bytes_ucast: "8 * n \<le> LENGTH('a) \<Longrightarrow> le_bytes n (ucast v :: 'a::len word) = le_bytes n v" for v :: u64
proof (rule nth_equalityI)
  fix i assume "i < length (le_bytes n (ucast v :: 'a word))" and n: "8 * n \<le> LENGTH('a)"
  then have i: "i < n" by simp
  show "le_bytes n (ucast v :: 'a word) ! i = le_bytes n v ! i"
    by (rule bit_word_eqI) (use i n in \<open>auto simp: bit_simps\<close>)
qed simp

lemma le_bytes_1: "le_bytes (Suc 0) v = [ucast v]"
  by (simp add: le_bytes_def)

lemma slice_1: "slice m a (Suc 0) = [m a]"
  by (simp add: slice_def)

lemma bus_load_memory:
  assumes "in_memory s a (unat sz)" and "sz \<in> {1, 2, 4, 8}"
  shows "zoom_bus (bus_load sz a) s = (Ok (le_word (slice (memory s) (offset_of a) (unat sz))), s)"
proof -
  have "0 < unat sz" using assms(2) by auto
  note cell = in_memory_cell [OF assms(1) this]
  show ?thesis
    using assms(2) cell
    by (auto simp: zoom_bus_def zoomS_def bus_load_def mapS_def bus_dram_access dram_read_in ucast_le_word_u64
        slice_1 dest: Suc_le_lessD)
qed

lemma bus_store_memory:
  assumes "in_memory s a (unat sz)" and "sz \<in> {1, 2, 4, 8}"
  shows "zoom_bus (bus_store sz a v) s = (Ok (), put_bytes a (le_bytes (unat sz) v) s)"
proof -
  have "0 < unat sz" using assms(2) by auto
  note cell = in_memory_cell [OF assms(1) this]
  show ?thesis
    using assms(2) cell
    by (auto simp: zoom_bus_def zoomS_def bus_store_def bus_dram_access dram_write_in le_bytes_ucast put_bytes_def
        le_bytes_1 dest: Suc_le_lessD)
qed

lemma in_memory_byte:
  assumes "in_memory s va (i + n)" and "0 < n"
  shows "in_memory s (va + of_nat i) n" and "offset_of (va + of_nat i) = offset_of va + i"
proof -
  have b: "unat va + (i + n) \<le> 0x80000000 + 0x80000000" "0x80000000 \<le> unat va"
    using assms(1) by (auto simp: in_memory_def)
  then have "i < 2 ^ 64" "unat va + i < 2 ^ 64" using assms(2) by simp_all
  then have "unat (va + of_nat i) = unat va + i"
    by (simp add: unat_word_ariths unat_of_nat take_bit_nat_eq_self)
  then show "in_memory s (va + of_nat i) n" and "offset_of (va + of_nat i) = offset_of va + i"
    using assms(1) b by (auto simp: in_memory_def offset_of_def)
qed

lemma slice_Suc: "slice m a (Suc n) = m a # slice m (Suc a) n"
  by (simp add: slice_def upt_rec)

lemma read8_memory: "in_memory s a 1 \<Longrightarrow> zoom_bus (bus_read8 a) s = (Ok (memory s (offset_of a)), s)"
  using in_memory_cell [of s a 1] by (simp add: zoom_bus_def zoomS_def bus_dram_access dram_read_in)

lemma write8_memory: "in_memory s a 1 \<Longrightarrow> zoom_bus (bus_write8 a v) s = (Ok (), put_bytes a [v] s)"
  using in_memory_cell [of s a 1]
  by (simp add: zoom_bus_def zoomS_def bus_dram_access dram_write_in put_bytes_def)

lemma load_bytes_memory:
  assumes "untranslated s" and "in_memory s va (i + n)"
  shows "load_bytes va n i acc s =
    (Ok (acc OR push_bit (8 * i) (le_word (slice (memory s) (offset_of va + i) n))), s)"
  using assms(2)
proof (induction n arbitrary: i acc)
  case 0
  then show ?case by (simp add: slice_def)
next
  case (Suc n)
  have m: "in_memory s (va + of_nat i) 1" "offset_of (va + of_nat i) = offset_of va + i"
    using in_memory_byte [of s va i "Suc n"] Suc.prems by (auto simp: in_memory_def)
  have IH: "load_bytes va n (Suc i) b s =
      (Ok (b OR push_bit (8 * Suc i) (le_word (slice (memory s) (offset_of va + Suc i) n))), s)" for b
    using Suc.prems by (intro Suc.IH) simp
  show ?case
    by (simp add: bindS_def map_errS_def translate_untranslated [OF assms(1)] read8_memory [OF m(1)] m(2)
        IH slice_Suc or.assoc push_bit_or mult.commute add.commute)
qed

lemma put_bytes_frame [simp]:
  "untranslated (put_bytes a bs s) = untranslated s"
  "in_memory (put_bytes a bs s) b n = in_memory s b n"
  by (simp_all add: put_bytes_def untranslated_def in_memory_def bus_wf_def)

lemma store_bytes_memory:
  assumes "untranslated s" and "in_memory s va (i + n)" and "0 < n"
  shows "store_bytes va v n i s =
    (Ok (), put_bytes (va + of_nat i) (map (\<lambda>k. ucast (drop_bit (8 * k) v)) [i..<i + n]) s)"
  using assms
proof (induction n arbitrary: i s)
  case 0
  then show ?case by simp
next
  case (Suc n)
  have m: "in_memory s (va + of_nat i) 1" "offset_of (va + of_nat i) = offset_of va + i"
    using in_memory_byte [of s va i "Suc n"] Suc.prems by (auto simp: in_memory_def)
  note one = translate_untranslated [OF Suc.prems(1)] write8_memory [OF m(1)]
  show ?case
  proof (cases "n = 0")
    case True
    then show ?thesis by (simp add: bindS_def map_errS_def one mult.commute)
  next
    case False
    have m': "offset_of (va + (1 + of_nat i)) = offset_of va + Suc i"
      using in_memory_byte(2) [of s va "Suc i" n] Suc.prems False by simp
    have IH: "store_bytes va v n (Suc i) t =
        (Ok (), put_bytes (va + of_nat (Suc i)) (map (\<lambda>k. ucast (drop_bit (8 * k) v)) [Suc i..<Suc i + n]) t)"
      if "t = put_bytes (va + of_nat i) b s" for b t
      using Suc.prems False that by (intro Suc.IH) simp_all
    have cons: "[i..<i + Suc n] = i # [Suc i..<Suc i + n]" by (simp add: upt_rec)
    show ?thesis
      unfolding cons
      using dram_put_append [of "bus_dram (cpu_bus s)" "offset_of va + i" "[ucast (drop_bit (8 * i) v)]"]
      by (simp add: bindS_def map_errS_def one IH [OF refl] mult.commute) (simp add: put_bytes_def m(2) m')
  qed
qed

lemma load_va_memory:
  assumes "untranslated s" and "sz \<in> {1, 2, 4, 8}" and "in_memory s va (unat sz)"
  shows "load_va va sz s = (Ok (le_word (slice (memory s) (offset_of va) (unat sz))), s)"
  using load_bytes_memory [OF assms(1), of va 0 "unat sz" 0] bus_load_memory [OF assms(3,2)] assms(3)
  by (simp add: load_va_def bindS_def map_errS_def translate_untranslated [OF assms(1)])

lemma store_va_memory:
  assumes "untranslated s" and "sz \<in> {1, 2, 4, 8}" and "in_memory s va (unat sz)"
  shows "store_va va v sz s = (Ok (), put_bytes va (le_bytes (unat sz) v) s)"
proof -
  have "0 < unat sz" using assms(2) by auto
  then show ?thesis
    using store_bytes_memory [OF assms(1), of va 0 "unat sz" v] bus_store_memory [OF assms(3,2)] assms(3)
    by (simp add: store_va_def bindS_def map_errS_def translate_untranslated [OF assms(1)] le_bytes_def)
qed

lemma le_word_le_bytes_take: "le_word (le_bytes n v) = take_bit (8 * n) v" for v :: u64
  by (rule bit_word_eqI) (auto simp: bit_le_word bit_simps less_mult_imp_div_less ac_simps
      dest: bit_imp_le_length)

lemma memory_put: "memory (put_bytes a bs s) = blit (memory s) (offset_of a) bs"
  by (simp add: put_bytes_def)

text \<open>
  Property C16. Data accesses at untranslated addresses of main memory, aligned or not, also
  across a page boundary, where the code goes byte by byte: a store of 1, 2, 4 or 8 bytes
  succeeds, a load of the same width returns the low bytes stored, and a load of any width
  that does not overlap the store returns what it returned before it.
\<close>

theorem store_then_load:
  assumes "untranslated s" and "in_memory s va (unat sz)" and "in_memory s vb (unat sz')"
    and "sz \<in> {1, 2, 4, 8}" and "sz' \<in> {1, 2, 4, 8}"
    and "unat va + unat sz \<le> unat vb \<or> unat vb + unat sz' \<le> unat va"
  shows "let s' = snd (store_va va v sz s) in
    fst (store_va va v sz s) = Ok () \<and>
    load_va va sz s' = (Ok (take_bit (8 * unat sz) v), s') \<and>
    fst (load_va vb sz' s') = fst (load_va vb sz' s)"
proof -
  have apart: "offset_of vb + unat sz' \<le> offset_of va \<or> offset_of va + length (le_bytes (unat sz) v) \<le> offset_of vb"
    using assms(2,3,6) by (auto simp: in_memory_def offset_of_def)
  then have "slice (memory (put_bytes va (le_bytes (unat sz) v) s)) (offset_of vb) (unat sz') =
      slice (memory s) (offset_of vb) (unat sz')"
    unfolding memory_put by (rule slice_blit_disjoint)
  then show ?thesis
    using assms by (simp only: Let_def store_va_memory fst_conv snd_conv put_bytes_frame load_va_memory)
      (simp add: memory_put le_word_le_bytes_take)
qed

definition hart_example :: cpu where
  "hart_example = cpu_new bus_example"

lemma hart_example_memory:
  "untranslated hart_example"
  "0x80000000 \<le> unat a \<Longrightarrow> unat a + n \<le> 0x80010000 \<Longrightarrow> in_memory hart_example a n"
proof -
  show "untranslated hart_example"
    by (simp add: hart_example_def cpu_new_def untranslated_def csr_read_simps csr_new_regs)
  have "dram_len (bus_dram bus_example) = 65536"
    by (simp add: bus_example_def bus_new_def dram_new_def)
  then show "0x80000000 \<le> unat a \<Longrightarrow> unat a + n \<le> 0x80010000 \<Longrightarrow> in_memory hart_example a n"
    by (simp add: hart_example_def cpu_new_def in_memory_def bus_example_wf)
qed

theorem store_then_load_witness:
  "let s' = snd (store_va 0x80000FFD 0x1122334455667788 8 hart_example) in
   load_va 0x80000FFD 8 s' = (Ok 0x1122334455667788, s')"
  using store_then_load [OF hart_example_memory(1), of "0x80000FFD" 8 "0x80002000" 8 "0x1122334455667788"]
  by (simp add: hart_example_memory Let_def)

end
