(* ===== verification/Alu.thy ===== *)
theory Alu
  imports Prelude "HOL-Library.Signed_Division"
begin

text \<open>
  \<open>execute\<close> of \<open>src/src/cpu.rs\<close>: the fields and immediates of an instruction word, and the
  results of the integer instructions (OP-IMM, OP, OP-IMM-32, OP-32 with the extensions M,
  Zba, Zbb, Zbc, Zbs) as functions of the operands. \<open>None\<close> is the illegal instruction.
  The arms are in the order of the code, so an encoding that an earlier arm takes does not
  reach a later one.
\<close>

subsection \<open>Fields\<close>

definition inst_opcode :: "u32 \<Rightarrow> u32" where "inst_opcode inst = inst AND 0x7F"
definition inst_rd :: "u32 \<Rightarrow> u5" where "inst_rd inst = ucast (drop_bit 7 inst AND 0x1F)"
definition inst_funct3 :: "u32 \<Rightarrow> u32" where "inst_funct3 inst = drop_bit 12 inst AND 0x07"
definition inst_rs1 :: "u32 \<Rightarrow> u5" where "inst_rs1 inst = ucast (drop_bit 15 inst AND 0x1F)"
definition inst_rs2 :: "u32 \<Rightarrow> u5" where "inst_rs2 inst = ucast (drop_bit 20 inst AND 0x1F)"
definition inst_funct7 :: "u32 \<Rightarrow> u32" where "inst_funct7 inst = drop_bit 25 inst AND 0x7F"

text \<open>\<open>(x as i32) >> n\<close> is an arithmetic shift, \<open>as i64\<close> of an \<open>i32\<close> extends the sign.\<close>

definition imm_i :: "u32 \<Rightarrow> u64" where
  "imm_i inst = scast (signed_drop_bit 20 inst)"

definition imm_s :: "u32 \<Rightarrow> u64" where
  "imm_s inst = scast (signed_drop_bit 20 (inst AND 0xFE000000)) OR ucast (drop_bit 7 inst AND 0x1F)"

definition imm_b :: "u32 \<Rightarrow> u64" where
  "imm_b inst =
     scast (signed_drop_bit 19 (inst AND 0x80000000)) OR ucast (push_bit 4 (inst AND 0x80))
       OR ucast (drop_bit 20 inst AND 0x7E0) OR ucast (drop_bit 7 inst AND 0x1E)"

definition imm_u :: "u32 \<Rightarrow> u64" where
  "imm_u inst = scast (inst AND 0xFFFFF000)"

definition imm_j :: "u32 \<Rightarrow> u64" where
  "imm_j inst =
     scast (signed_drop_bit 11 (inst AND 0x80000000)) OR ucast (inst AND 0xFF000)
       OR ucast (drop_bit 9 inst AND 0x800) OR ucast (drop_bit 20 inst AND 0x7FE)"

definition imm12 :: "u32 \<Rightarrow> u32" where
  "imm12 inst = drop_bit 20 inst AND 0xFFF"

subsection \<open>The methods of the integer types\<close>

definition leading_zeros :: "'a::len word \<Rightarrow> nat" where
  "leading_zeros w = length (takeWhile (\<lambda>i. \<not> bit w i) (rev [0..<LENGTH('a)]))"

definition trailing_zeros :: "'a::len word \<Rightarrow> nat" where
  "trailing_zeros w = length (takeWhile (\<lambda>i. \<not> bit w i) [0..<LENGTH('a)])"

definition count_ones :: "'a::len word \<Rightarrow> nat" where
  "count_ones w = length (filter (bit w) [0..<LENGTH('a)])"

definition swap_bytes :: "u64 \<Rightarrow> u64" where
  "swap_bytes w = le_word (rev (le_bytes 8 w))"

definition sless :: "'a::len word \<Rightarrow> 'a word \<Rightarrow> bool" where
  "sless a b \<longleftrightarrow> sint a < sint b"

text \<open>Signed division truncates; the code excludes a zero divisor and the overflow.\<close>

definition div_signed :: "'a::len word \<Rightarrow> 'a word \<Rightarrow> 'a word" where
  "div_signed a b = word_of_int (sint a sdiv sint b)"

definition rem_signed :: "'a::len word \<Rightarrow> 'a word \<Rightarrow> 'a word" where
  "rem_signed a b = word_of_int (sint a smod sint b)"

definition min_int :: "'a::len word" where
  "min_int = push_bit (LENGTH('a) - 1) 1"

abbreviation flag :: "bool \<Rightarrow> 'a::len word" where
  "flag b \<equiv> (if b then 1 else 0)"

subsection \<open>OP-IMM\<close>

definition orc_b :: "u64 \<Rightarrow> u64" where
  "orc_b v = fold (\<lambda>i result. if drop_bit (i * 8) v AND 0xFF \<noteq> 0 then result OR push_bit (i * 8) 0xFF else result) [0..<8] 0"

definition op_imm_slli :: "u32 \<Rightarrow> u64 \<Rightarrow> nat \<Rightarrow> u64" where
  "op_imm_slli inst rs1_val shamt =
     (let imm12 = imm12 inst; funct7_like = drop_bit 5 imm12 AND 0x7F in
      if imm12 = 0x600 then of_nat (leading_zeros rs1_val)
      else if imm12 = 0x601 then of_nat (trailing_zeros rs1_val)
      else if imm12 = 0x602 then of_nat (count_ones rs1_val)
      else if imm12 = 0x604 then scast (ucast rs1_val :: u8)
      else if imm12 = 0x605 then scast (ucast rs1_val :: u16)
      else if funct7_like = 0x24 then rs1_val AND NOT (push_bit shamt 1)
      else if funct7_like = 0x34 then rs1_val XOR push_bit shamt 1
      else if funct7_like = 0x14 then rs1_val OR push_bit shamt 1
      else push_bit shamt rs1_val)"

definition op_imm_srli :: "u32 \<Rightarrow> u64 \<Rightarrow> nat \<Rightarrow> u64" where
  "op_imm_srli inst rs1_val shamt =
     (let imm12 = imm12 inst; funct7_like = drop_bit 5 imm12 AND 0x7F in
      if imm12 = 0x287 then orc_b rs1_val
      else if imm12 = 0x6B8 then swap_bytes rs1_val
      else if funct7_like = 0x24 then drop_bit shamt rs1_val AND 1
      else if funct7_like = 0x30 then word_rotr shamt rs1_val
      else if drop_bit 30 inst AND 1 = 0 then drop_bit shamt rs1_val
      else signed_drop_bit shamt rs1_val)"

definition op_imm :: "u32 \<Rightarrow> u64 \<Rightarrow> u64 option" where
  "op_imm inst rs1_val =
     (let imm = imm_i inst; shamt = unat (imm AND 0x3F); f3 = inst_funct3 inst in
      if f3 = 0x0 then Some (rs1_val + imm)
      else if f3 = 0x1 then Some (op_imm_slli inst rs1_val shamt)
      else if f3 = 0x2 then Some (flag (sless rs1_val imm))
      else if f3 = 0x3 then Some (flag (rs1_val < imm))
      else if f3 = 0x4 then Some (if imm12 inst = 0x287 then rs1_val AND 0xFFFF else rs1_val XOR imm)
      else if f3 = 0x5 then Some (op_imm_srli inst rs1_val shamt)
      else if f3 = 0x6 then Some (rs1_val OR imm)
      else if f3 = 0x7 then Some (rs1_val AND imm)
      else None)"

subsection \<open>OP\<close>

definition mulh :: "u64 \<Rightarrow> u64 \<Rightarrow> u64" where
  "mulh a b = word_of_int ((sint a * sint b) div 2 ^ 64)"

definition mulhsu :: "u64 \<Rightarrow> u64 \<Rightarrow> u64" where
  "mulhsu a b = word_of_int ((sint a * uint b) div 2 ^ 64)"

definition mulhu :: "u64 \<Rightarrow> u64 \<Rightarrow> u64" where
  "mulhu a b = word_of_int ((uint a * uint b) div 2 ^ 64)"

definition clmul :: "u64 \<Rightarrow> u64 \<Rightarrow> u64" where
  "clmul a b = fold (\<lambda>i result. if drop_bit i b AND 1 = 1 then result XOR push_bit i a else result) [0..<64] 0"

definition clmulh :: "u64 \<Rightarrow> u64 \<Rightarrow> u64" where
  "clmulh a b = fold (\<lambda>i result. if drop_bit i b AND 1 = 1 then result XOR drop_bit (64 - i) a else result) [1..<64] 0"

definition clmulr :: "u64 \<Rightarrow> u64 \<Rightarrow> u64" where
  "clmulr a b = fold (\<lambda>i result. if drop_bit i b AND 1 = 1 then result XOR drop_bit (63 - i) a else result) [0..<64] 0"

definition div_or_ones :: "'a::len word \<Rightarrow> 'a word \<Rightarrow> 'a word" where
  "div_or_ones a b = (if b = 0 then - 1 else if a = min_int \<and> b = - 1 then a else div_signed a b)"

definition rem_or_dividend :: "'a::len word \<Rightarrow> 'a word \<Rightarrow> 'a word" where
  "rem_or_dividend a b = (if b = 0 then a else if a = min_int \<and> b = - 1 then 0 else rem_signed a b)"

definition divu_or_ones :: "'a::len word \<Rightarrow> 'a word \<Rightarrow> 'a word" where
  "divu_or_ones a b = (if b = 0 then - 1 else a div b)"

definition remu_or_dividend :: "'a::len word \<Rightarrow> 'a word \<Rightarrow> 'a word" where
  "remu_or_dividend a b = (if b = 0 then a else a mod b)"

definition op_reg :: "u32 \<Rightarrow> u32 \<Rightarrow> u64 \<Rightarrow> u64 \<Rightarrow> u64 option" where
  "op_reg f7 f3 a b =
     (let shamt = unat (b AND 0x3F) in
      if f7 = 0x00 \<and> f3 = 0x0 then Some (a + b)
      else if f7 = 0x20 \<and> f3 = 0x0 then Some (a - b)
      else if f7 = 0x00 \<and> f3 = 0x1 then Some (push_bit shamt a)
      else if f7 = 0x00 \<and> f3 = 0x2 then Some (flag (sless a b))
      else if f7 = 0x00 \<and> f3 = 0x3 then Some (flag (a < b))
      else if f7 = 0x00 \<and> f3 = 0x4 then Some (a XOR b)
      else if f7 = 0x00 \<and> f3 = 0x5 then Some (drop_bit shamt a)
      else if f7 = 0x20 \<and> f3 = 0x5 then Some (signed_drop_bit shamt a)
      else if f7 = 0x00 \<and> f3 = 0x6 then Some (a OR b)
      else if f7 = 0x00 \<and> f3 = 0x7 then Some (a AND b)
      else if f7 = 0x01 \<and> f3 = 0x0 then Some (a * b)
      else if f7 = 0x01 \<and> f3 = 0x1 then Some (mulh a b)
      else if f7 = 0x01 \<and> f3 = 0x2 then Some (mulhsu a b)
      else if f7 = 0x01 \<and> f3 = 0x3 then Some (mulhu a b)
      else if f7 = 0x01 \<and> f3 = 0x4 then Some (div_or_ones a b)
      else if f7 = 0x01 \<and> f3 = 0x5 then Some (divu_or_ones a b)
      else if f7 = 0x01 \<and> f3 = 0x6 then Some (rem_or_dividend a b)
      else if f7 = 0x01 \<and> f3 = 0x7 then Some (remu_or_dividend a b)
      else if f7 = 0x20 \<and> f3 = 0x4 then Some (NOT a XOR b)
      else if f7 = 0x20 \<and> f3 = 0x6 then Some (a OR NOT b)
      else if f7 = 0x20 \<and> f3 = 0x7 then Some (a AND NOT b)
      else if f7 = 0x05 \<and> f3 = 0x4 then Some (if sless b a then b else a)
      else if f7 = 0x05 \<and> f3 = 0x5 then Some (min a b)
      else if f7 = 0x05 \<and> f3 = 0x6 then Some (if sless a b then b else a)
      else if f7 = 0x05 \<and> f3 = 0x7 then Some (max a b)
      else if f7 = 0x30 \<and> f3 = 0x1 then Some (word_rotl shamt a)
      else if f7 = 0x30 \<and> f3 = 0x5 then Some (word_rotr shamt a)
      else if f7 = 0x10 \<and> f3 = 0x2 then Some (push_bit 1 a + b)
      else if f7 = 0x10 \<and> f3 = 0x4 then Some (push_bit 2 a + b)
      else if f7 = 0x10 \<and> f3 = 0x6 then Some (push_bit 3 a + b)
      else if f7 = 0x24 \<and> f3 = 0x1 then Some (a AND NOT (push_bit shamt 1))
      else if f7 = 0x24 \<and> f3 = 0x5 then Some (drop_bit shamt a AND 1)
      else if f7 = 0x34 \<and> f3 = 0x1 then Some (a XOR push_bit shamt 1)
      else if f7 = 0x14 \<and> f3 = 0x1 then Some (a OR push_bit shamt 1)
      else if f7 = 0x05 \<and> f3 = 0x1 then Some (clmul a b)
      else if f7 = 0x05 \<and> f3 = 0x3 then Some (clmulh a b)
      else if f7 = 0x05 \<and> f3 = 0x2 then Some (clmulr a b)
      else None)"

subsection \<open>OP-IMM-32 and OP-32\<close>

text \<open>\<open>as i32 as i64 as u64\<close>.\<close>

definition sext32 :: "u32 \<Rightarrow> u64" where
  "sext32 v = scast v"

definition op_imm_32 :: "u32 \<Rightarrow> u64 \<Rightarrow> u64 option" where
  "op_imm_32 inst rs1_full =
     (let v = ucast rs1_full :: u32; imm = imm_i inst; shamt = unat (imm AND 0x1F);
          i12 = imm12 inst; f3 = inst_funct3 inst in
      if f3 = 0x0 then Some (sext32 (v + ucast imm))
      else if f3 = 0x1 then
        (if i12 = 0x600 then Some (sext32 (of_nat (leading_zeros v)))
         else if i12 = 0x601 then Some (sext32 (of_nat (trailing_zeros v)))
         else if i12 = 0x602 then Some (sext32 (of_nat (count_ones v)))
         else if drop_bit 5 i12 AND 0x7F = 0x04 then Some (push_bit (unat (imm AND 0x3F)) (ucast (ucast rs1_full :: u32)))
         else Some (sext32 (push_bit shamt v)))
      else if f3 = 0x5 then
        (if i12 = 0x604 then None
         else if i12 = 0x605 then None
         else if i12 = 0x698 then Some (sext32 (word_rotr shamt v))
         else if drop_bit 30 inst AND 1 = 0 then Some (sext32 (drop_bit shamt v))
         else Some (sext32 (signed_drop_bit shamt v)))
      else None)"

definition op_reg_32 :: "u32 \<Rightarrow> u32 \<Rightarrow> u64 \<Rightarrow> u64 \<Rightarrow> u64 option" where
  "op_reg_32 f7 f3 rs1_full rs2_full =
     (let a = ucast rs1_full :: u32; b = ucast rs2_full :: u32; shamt = unat (b AND 0x1F) in
      if f7 = 0x00 \<and> f3 = 0x0 then Some (sext32 (a + b))
      else if f7 = 0x20 \<and> f3 = 0x0 then Some (sext32 (a - b))
      else if f7 = 0x00 \<and> f3 = 0x1 then Some (sext32 (push_bit shamt a))
      else if f7 = 0x00 \<and> f3 = 0x5 then Some (sext32 (drop_bit shamt a))
      else if f7 = 0x20 \<and> f3 = 0x5 then Some (sext32 (signed_drop_bit shamt a))
      else if f7 = 0x01 \<and> f3 = 0x0 then Some (sext32 (ucast (sext32 a * sext32 b)))
      else if f7 = 0x01 \<and> f3 = 0x4 then Some (sext32 (div_or_ones a b))
      else if f7 = 0x01 \<and> f3 = 0x5 then Some (sext32 (divu_or_ones a b))
      else if f7 = 0x01 \<and> f3 = 0x6 then Some (sext32 (rem_or_dividend a b))
      else if f7 = 0x01 \<and> f3 = 0x7 then Some (sext32 (remu_or_dividend a b))
      else if f7 = 0x30 \<and> f3 = 0x1 then Some (sext32 (word_rotl shamt a))
      else if f7 = 0x30 \<and> f3 = 0x5 then Some (sext32 (word_rotr shamt a))
      else if f7 = 0x04 \<and> f3 = 0x0 then Some (ucast a + rs2_full)
      else if f7 = 0x10 \<and> f3 = 0x2 then Some (push_bit 1 (ucast a) + rs2_full)
      else if f7 = 0x10 \<and> f3 = 0x4 then Some (push_bit 2 (ucast a) + rs2_full)
      else if f7 = 0x10 \<and> f3 = 0x6 then Some (push_bit 3 (ucast a) + rs2_full)
      else None)"

text \<open>
  The arms for the single-bit immediates test the upper seven bits of the 12-bit immediate,
  one of which belongs to the shift amount: from bit 32 up, BSETI is executed as SLLI.
\<close>

lemma bseti_high_is_slli: "op_imm 0x2A829313 v = Some (push_bit 40 v)" "op_imm 0x28829313 v = Some (v OR push_bit 8 1)"
  by (simp_all add: op_imm_def op_imm_slli_def imm_i_def imm12_def inst_funct3_def Let_def)

subsection \<open>Multiplication and division\<close>

lemma high_word:
  fixes P :: int
  assumes "- (2 ^ 127) \<le> P" and "P < 2 ^ 127"
  shows "sint (word_of_int (P div 2 ^ 64) :: u64) = P div 2 ^ 64"
proof -
  have "- (2 ^ 63) \<le> P div 2 ^ 64" "P div 2 ^ 64 < 2 ^ 63"
    using assms by simp_all
  then show ?thesis by (simp add: signed_of_int signed_take_bit_int_eq_self)
qed

lemma product_bounds:
  fixes x y B C :: int
  assumes "\<bar>x\<bar> \<le> B" and "\<bar>y\<bar> \<le> C"
  shows "- (B * C) \<le> x * y" and "x * y \<le> B * C"
proof -
  have "\<bar>x * y\<bar> \<le> B * C" using assms by (simp add: abs_mult mult_mono)
  then show "- (B * C) \<le> x * y" and "x * y \<le> B * C" by auto
qed

lemma sint_bounds: "\<bar>sint a\<bar> \<le> 2 ^ 63" for a :: u64
  using sint_lt [of a] sint_ge [of a] by simp

lemma uint_bounds: "\<bar>uint a\<bar> \<le> 2 ^ 64 - 1" for a :: u64
  using uint_lt2p [of a] by simp

lemma low_word:
  fixes a b :: u64
  shows "uint (a * b) = (sint a * sint b) mod 2 ^ 64" and "uint (a * b) = (sint a * uint b) mod 2 ^ 64"
    and "uint (a * b) = (uint a * uint b) mod 2 ^ 64"
proof -
  have s: "sint w mod 2 ^ 64 = uint w" for w :: u64
    using uint_word_of_int [of "sint w", where 'a = 64] by (simp add: take_bit_eq_mod)
  show u: "uint (a * b) = (uint a * uint b) mod 2 ^ 64"
    by (simp add: uint_word_ariths)
  show "uint (a * b) = (sint a * sint b) mod 2 ^ 64"
    unfolding u by (metis s mod_mult_eq mod_mod_trivial)
  show "uint (a * b) = (sint a * uint b) mod 2 ^ 64"
    unfolding u by (metis s mod_mult_left_eq)
qed

text \<open>
  Property C22. MUL and the three MULH instructions are the two halves of the 128-bit
  product: signed by signed, signed by unsigned and unsigned by unsigned.
\<close>

theorem mul_halves:
  "\<exists>lo hi hsu hu. op_reg 0x01 0x0 a b = Some lo \<and> op_reg 0x01 0x1 a b = Some hi \<and>
     op_reg 0x01 0x2 a b = Some hsu \<and> op_reg 0x01 0x3 a b = Some hu \<and>
     sint hi * 2 ^ 64 + uint lo = sint a * sint b \<and>
     sint hsu * 2 ^ 64 + uint lo = sint a * uint b \<and>
     uint hu * 2 ^ 64 + uint lo = uint a * uint b"
proof -
  have "sint (mulh a b) = (sint a * sint b) div 2 ^ 64"
    unfolding mulh_def using product_bounds [OF sint_bounds sint_bounds, of a b] by (intro high_word) simp_all
  then have h: "sint (mulh a b) * 2 ^ 64 + uint (a * b) = sint a * sint b"
    unfolding low_word(1) by simp
  have "sint (mulhsu a b) = (sint a * uint b) div 2 ^ 64"
    unfolding mulhsu_def using product_bounds [OF sint_bounds uint_bounds, of a b] by (intro high_word) simp_all
  then have hsu: "sint (mulhsu a b) * 2 ^ 64 + uint (a * b) = sint a * uint b"
    unfolding low_word(2) by simp
  have "uint a * uint b \<le> (2 ^ 64 - 1) * (2 ^ 64 - 1)" "0 \<le> uint a * uint b"
    using product_bounds [OF uint_bounds uint_bounds, of a b] by simp_all
  then have "0 \<le> (uint a * uint b) div 2 ^ 64" "(uint a * uint b) div 2 ^ 64 < 2 ^ 64"
    by (simp_all add: pos_imp_zdiv_nonneg_iff)
  then have "take_bit 64 ((uint a * uint b) div 2 ^ 64) = (uint a * uint b) div 2 ^ 64"
    by (rule take_bit_int_eq_self)
  then have "uint (mulhu a b) = (uint a * uint b) div 2 ^ 64"
    unfolding mulhu_def unsigned_of_int by simp
  then have hu: "uint (mulhu a b) * 2 ^ 64 + uint (a * b) = uint a * uint b"
    unfolding low_word(3) by simp
  show ?thesis using h hsu hu by (simp add: op_reg_def Let_def)
qed

lemma min_int_eq: "sint w = - (2 ^ (LENGTH('a) - 1)) \<Longrightarrow> w = min_int" for w :: "'a::len word"
proof -
  assume w: "sint w = - (2 ^ (LENGTH('a) - 1))"
  have "w = word_of_int (sint w)" by simp
  also have "\<dots> = - (2 ^ (LENGTH('a) - 1))" unfolding w by simp
  also have "- (2 ^ (LENGTH('a) - 1)) = (2 ^ (LENGTH('a) - 1) :: 'a word)"
  proof -
    have "(2 ^ (LENGTH('a) - 1) :: 'a word) + 2 ^ (LENGTH('a) - 1) = 2 * 2 ^ (LENGTH('a) - 1)" by simp
    also have "\<dots> = 2 ^ LENGTH('a)" by (simp flip: power_Suc)
    finally show ?thesis by (simp add: minus_unique)
  qed
  finally show ?thesis by (simp add: min_int_def)
qed

lemma signed_division:
  fixes a b :: "'a::len word"
  assumes "b \<noteq> 0" and "\<not> (a = min_int \<and> b = - 1)"
  shows "sint (div_signed a b) = sint a sdiv sint b" and "sint (rem_signed a b) = sint a smod sint b"
proof -
  let ?B = "2 ^ (LENGTH('a) - 1) :: int"
  have sb: "sint b \<noteq> 0" using assms(1) by (metis signed_0 signed_word_eqI)
  have a: "\<bar>sint a\<bar> \<le> ?B" and b: "\<bar>sint b\<bar> \<le> ?B"
    using sint_lt [of a] sint_ge [of a] sint_lt [of b] sint_ge [of b] by auto
  have "sint a smod sint b \<in> {- \<bar>sint b\<bar> + 1..\<bar>sint b\<bar> - 1}" using smod_int_range [OF sb] .
  then have "- ?B \<le> sint a smod sint b" "sint a smod sint b < ?B" using b by auto
  then show "sint (rem_signed a b) = sint a smod sint b"
    by (simp add: rem_signed_def signed_of_int signed_take_bit_int_eq_self)
  have r: "- ?B \<le> sint a sdiv sint b" "sint a sdiv sint b \<le> ?B"
    using sdiv_int_range [of "sint a" "sint b"] a by auto
  have "sint a sdiv sint b \<noteq> ?B"
  proof
    assume q: "sint a sdiv sint b = ?B"
    then have big: "\<bar>sint a\<bar> = ?B" using sdiv_int_range [of "sint a" "sint b"] a by auto
    then have "sint a = - ?B" using sint_lt [of a] by (auto simp: abs_if split: if_splits)
    moreover have "sint a \<noteq> 0" using big by auto
    ultimately have "sint b = - 1" using q int_sdiv_negated_is_minus1 [of "sint a" "sint b"] by simp
    then have "b = - 1" by (metis sint_n1 signed_word_eqI)
    then show False using assms(2) min_int_eq \<open>sint a = - ?B\<close> by blast
  qed
  then show "sint (div_signed a b) = sint a sdiv sint b"
    using r by (simp add: div_signed_def signed_of_int signed_take_bit_int_eq_self)
qed

text \<open>The division law of the manual, for one width.\<close>

definition divides_signed :: "'a::len word \<Rightarrow> 'a word \<Rightarrow> 'a word \<Rightarrow> 'a word \<Rightarrow> bool" where
  "divides_signed a b q r \<longleftrightarrow>
     (if b = 0 then q = - 1 \<and> r = a
      else if a = min_int \<and> b = - 1 then q = a \<and> r = 0
      else sint a = sint q * sint b + sint r \<and> \<bar>sint r\<bar> < \<bar>sint b\<bar> \<and>
        (sint r = 0 \<or> sgn (sint r) = sgn (sint a)))"

definition divides_unsigned :: "'a::len word \<Rightarrow> 'a word \<Rightarrow> 'a word \<Rightarrow> 'a word \<Rightarrow> bool" where
  "divides_unsigned a b q r \<longleftrightarrow>
     (if b = 0 then q = - 1 \<and> r = a else uint a = uint q * uint b + uint r \<and> uint r < uint b)"

lemma smod_sign: "x smod y = 0 \<or> sgn (x smod y) = sgn x" for x y :: int
proof (cases "y = 0")
  case False
  define m where "m = \<bar>x\<bar> mod \<bar>y\<bar>"
  have "0 \<le> m" using False by (simp add: m_def)
  then have "m = 0 \<or> sgn m = 1" by (auto simp: sgn_if)
  then show ?thesis by (auto simp: smod_int_alt_def sgn_mult simp flip: m_def)
qed simp

lemma div_rem_signed: "divides_signed a b (div_or_ones a b) (rem_or_dividend a b)"
proof (cases "b = 0 \<or> a = min_int \<and> b = - 1")
  case True
  then show ?thesis by (auto simp: divides_signed_def div_or_ones_def rem_or_dividend_def)
next
  case False
  then have b: "b \<noteq> 0" and nb: "\<not> (a = min_int \<and> b = - 1)" by auto
  have sb: "sint b \<noteq> 0" using b by (metis signed_0 signed_word_eqI)
  have "sint a = (sint a sdiv sint b) * sint b + sint a smod sint b"
    by (simp add: sdiv_mult_smod_eq)
  moreover have "\<bar>sint a smod sint b\<bar> < \<bar>sint b\<bar>" using smod_int_range [OF sb, of "sint a"] by auto
  ultimately show ?thesis
    using b nb smod_sign [of "sint a" "sint b"]
    by (auto simp: divides_signed_def div_or_ones_def rem_or_dividend_def signed_division [OF b nb])
qed

lemma div_rem_unsigned: "divides_unsigned a b (divu_or_ones a b) (remu_or_dividend a b)"
proof (cases "b = 0")
  case False
  then have "0 < uint b" by (metis uint_0_iff uint_ge_0 order_le_less)
  then show ?thesis using False
    by (simp add: divides_unsigned_def divu_or_ones_def remu_or_dividend_def uint_div uint_mod)
qed (simp add: divides_unsigned_def divu_or_ones_def remu_or_dividend_def)

text \<open>
  Property C17. Division. DIV and REM round towards zero: the dividend is quotient times
  divisor plus a remainder smaller than the divisor and with the sign of the dividend;
  division by zero gives all ones and the dividend, the one overflow gives the dividend and
  zero. DIVU and REMU are Euclidean. The 32-bit forms do the same on the low words and
  extend the sign of the results.
\<close>

theorem division_law:
  "\<exists>q r qu ru. op_reg 0x01 0x4 a b = Some q \<and> op_reg 0x01 0x6 a b = Some r \<and>
     op_reg 0x01 0x5 a b = Some qu \<and> op_reg 0x01 0x7 a b = Some ru \<and>
     divides_signed a b q r \<and> divides_unsigned a b qu ru \<and>
   (\<exists>q r qu ru. op_reg_32 0x01 0x4 a b = Some (sext32 q) \<and> op_reg_32 0x01 0x6 a b = Some (sext32 r) \<and>
     op_reg_32 0x01 0x5 a b = Some (sext32 qu) \<and> op_reg_32 0x01 0x7 a b = Some (sext32 ru) \<and>
     divides_signed (ucast a) (ucast b) q r \<and> divides_unsigned (ucast a) (ucast b) qu ru)"
proof -
  have ops: "op_reg 0x01 0x4 a b = Some (div_or_ones a b)" "op_reg 0x01 0x6 a b = Some (rem_or_dividend a b)"
    "op_reg 0x01 0x5 a b = Some (divu_or_ones a b)" "op_reg 0x01 0x7 a b = Some (remu_or_dividend a b)"
    by (simp_all add: op_reg_def Let_def)
  have ops_32: "op_reg_32 0x01 0x4 a b = Some (sext32 (div_or_ones (ucast a) (ucast b)))"
    "op_reg_32 0x01 0x6 a b = Some (sext32 (rem_or_dividend (ucast a) (ucast b)))"
    "op_reg_32 0x01 0x5 a b = Some (sext32 (divu_or_ones (ucast a) (ucast b)))"
    "op_reg_32 0x01 0x7 a b = Some (sext32 (remu_or_dividend (ucast a) (ucast b)))"
    by (simp_all add: op_reg_32_def Let_def)
  show ?thesis
    by (intro exI conjI; (rule ops ops_32 div_rem_signed div_rem_unsigned)?)
qed

subsection \<open>Carry-less multiplication\<close>

lemma bit_fold_xor:
  "bit (fold (\<lambda>i r. if P i then r XOR f i else r) xs z) k =
     (bit z k \<noteq> odd (length (filter (\<lambda>i. P i \<and> bit (f i) k) xs)))" for z :: u64
  by (induction xs arbitrary: z) (auto simp: bit_xor_iff)

definition clmul_bit :: "u64 \<Rightarrow> u64 \<Rightarrow> nat \<Rightarrow> bool" where
  "clmul_bit a b k = odd (card {i. i < 64 \<and> i \<le> k \<and> bit b i \<and> bit a (k - i)})"

lemma odd_filter:
  assumes "distinct xs" and "{i. i \<in> set xs \<and> P i} = A"
  shows "odd (length (filter P xs)) = odd (card A)"
  using assms distinct_card [of "filter P xs"] by (simp flip: set_filter)

text \<open>
  Property C21. CLMUL, CLMULH and CLMULR are three windows of one 127-bit carry-less product:
  bit \<open>k\<close> of the product is the parity of the pairs of bits of the operands whose indices
  add up to \<open>k\<close>; the instructions return the bits from 0, from 64 and from 63.
\<close>

theorem clmul_windows:
  "\<exists>lo hi rev. op_reg 0x05 0x1 a b = Some lo \<and> op_reg 0x05 0x3 a b = Some hi \<and> op_reg 0x05 0x2 a b = Some rev \<and>
     (\<forall>k. bit lo k = (k < 64 \<and> clmul_bit a b k) \<and> bit hi k = clmul_bit a b (k + 64) \<and>
       bit rev k = clmul_bit a b (k + 63))"
proof -
  have "odd (length (filter (\<lambda>i. drop_bit i b AND 1 = 1 \<and> bit (push_bit i a) k) [0..<64])) = clmul_bit a b k"
    if "k < 64" for k
    unfolding clmul_bit_def using that by (intro odd_filter) (auto simp: bit_push_bit_iff and_1_eq)
  then have "bit (clmul a b) k = clmul_bit a b k" if "k < 64" for k
    using that unfolding clmul_def bit_fold_xor by simp
  then have lo: "bit (clmul a b) k = (k < 64 \<and> clmul_bit a b k)" for k
    using bit_imp_le_length [of "clmul a b" k] by auto
  have "odd (length (filter (\<lambda>i. drop_bit i b AND 1 = 1 \<and> bit (drop_bit (64 - i) a) k) [1..<64])) =
      clmul_bit a b (k + 64)" for k
    unfolding clmul_bit_def
  proof (intro odd_filter)
    have "bit a (k + 64 - i) \<Longrightarrow> i \<noteq> 0" for i by (auto dest: bit_imp_le_length)
    then show "{i. i \<in> set [1..<64] \<and> drop_bit i b AND 1 = 1 \<and> bit (drop_bit (64 - i) a) k} =
        {i. i < 64 \<and> i \<le> k + 64 \<and> bit b i \<and> bit a (k + 64 - i)}"
      by (auto simp: bit_drop_bit_eq and_1_eq Suc_le_eq add.commute)
  qed simp
  then have hi: "bit (clmulh a b) k = clmul_bit a b (k + 64)" for k
    unfolding clmulh_def bit_fold_xor by simp
  have "odd (length (filter (\<lambda>i. drop_bit i b AND 1 = 1 \<and> bit (drop_bit (63 - i) a) k) [0..<64])) =
      clmul_bit a b (k + 63)" for k
    unfolding clmul_bit_def by (intro odd_filter) (auto simp: bit_drop_bit_eq and_1_eq add.commute)
  then have rv: "bit (clmulr a b) k = clmul_bit a b (k + 63)" for k
    unfolding clmulr_def bit_fold_xor by simp
  show ?thesis using lo hi rv by (simp add: op_reg_def Let_def)
qed

subsection \<open>Instruction formats\<close>

text \<open>The encodings of the manual, as an assembler writes them.\<close>

definition enc_regs :: "u32 \<Rightarrow> u5 \<Rightarrow> u32 \<Rightarrow> u32" where
  "enc_regs f3 rs1 opcode = push_bit 15 (ucast rs1) OR push_bit 12 (f3 AND 7) OR (opcode AND 0x7F)"

definition enc_r :: "u32 \<Rightarrow> u5 \<Rightarrow> u5 \<Rightarrow> u32 \<Rightarrow> u5 \<Rightarrow> u32 \<Rightarrow> u32" where
  "enc_r f7 rs2 rs1 f3 rd opcode =
     push_bit 25 (f7 AND 0x7F) OR push_bit 20 (ucast rs2) OR enc_regs f3 rs1 opcode OR push_bit 7 (ucast rd)"

definition enc_i :: "u64 \<Rightarrow> u5 \<Rightarrow> u32 \<Rightarrow> u5 \<Rightarrow> u32 \<Rightarrow> u32" where
  "enc_i imm rs1 f3 rd opcode =
     push_bit 20 (ucast imm) OR enc_regs f3 rs1 opcode OR push_bit 7 (ucast rd)"

definition enc_s :: "u64 \<Rightarrow> u5 \<Rightarrow> u5 \<Rightarrow> u32 \<Rightarrow> u32 \<Rightarrow> u32" where
  "enc_s imm rs2 rs1 f3 opcode =
     push_bit 25 (ucast (drop_bit 5 imm)) OR push_bit 20 (ucast rs2) OR enc_regs f3 rs1 opcode OR
     push_bit 7 (ucast imm AND 0x1F)"

definition enc_b :: "u64 \<Rightarrow> u5 \<Rightarrow> u5 \<Rightarrow> u32 \<Rightarrow> u32 \<Rightarrow> u32" where
  "enc_b imm rs2 rs1 f3 opcode =
     push_bit 31 (ucast (drop_bit 12 imm)) OR push_bit 25 (ucast (drop_bit 5 imm) AND 0x3F) OR
     push_bit 20 (ucast rs2) OR enc_regs f3 rs1 opcode OR
     push_bit 8 (ucast (drop_bit 1 imm) AND 0xF) OR push_bit 7 (ucast (drop_bit 11 imm) AND 1)"

definition enc_u :: "u64 \<Rightarrow> u5 \<Rightarrow> u32 \<Rightarrow> u32" where
  "enc_u imm rd opcode = (ucast imm AND 0xFFFFF000) OR push_bit 7 (ucast rd) OR (opcode AND 0x7F)"

definition enc_j :: "u64 \<Rightarrow> u5 \<Rightarrow> u32 \<Rightarrow> u32" where
  "enc_j imm rd opcode =
     push_bit 31 (ucast (drop_bit 20 imm)) OR push_bit 21 (ucast (drop_bit 1 imm) AND 0x3FF) OR
     push_bit 20 (ucast (drop_bit 11 imm) AND 1) OR (ucast imm AND 0xFF000) OR
     push_bit 7 (ucast rd) OR (opcode AND 0x7F)"

lemma u5_bits: "5 \<le> n \<Longrightarrow> bit r n = False" for r :: u5
  by (auto dest: bit_imp_le_length)

lemma two: "Suc (Suc 0) = 2"
  by simp

lemmas enc_defs = enc_regs_def enc_r_def enc_i_def enc_s_def enc_b_def enc_u_def enc_j_def

lemma imm_decoded:
  "imm_i (enc_i v rs1 f3 rd opc) = signed_take_bit 11 v"
  "imm_s (enc_s v rs2 rs1 f3 opc) = signed_take_bit 11 v"
  "imm_b (enc_b v rs2 rs1 f3 opc) = signed_take_bit 12 (v AND NOT 1)"
  "imm_u (enc_u v rd opc) = signed_take_bit 31 (v AND NOT 0xFFF)"
  "imm_j (enc_j v rd opc) = signed_take_bit 20 (v AND NOT 1)"
  by (rule u64_eqI; simp add: upt_64 bit_simps u5_bits two enc_defs imm_i_def imm_s_def imm_b_def imm_u_def imm_j_def)+

lemma u5_eqI: "list_all (\<lambda>n. bit a n = bit b n) [0, 1, 2, 3, 4] \<Longrightarrow> a = b" for a b :: u5
proof (rule bit_word_eqI)
  fix n assume l: "list_all (\<lambda>n. bit a n = bit b n) [0, 1, 2, 3, 4]" and "n < LENGTH(5)"
  then have "n = 0 \<or> n = 1 \<or> n = 2 \<or> n = 3 \<or> n = 4" by simp arith
  then show "bit a n = bit b n" using l by auto
qed

lemma u32_eqI: "list_all (\<lambda>n. bit a n = bit b n) [0..<32] \<Longrightarrow> a = b" for a b :: u32
  by (rule bit_word_eqI) (simp add: list_all_iff)

lemma upt_32:
  "[0..<32] = [0, 1, 2, 3, 4, 5, 6, 7, 8, 9, 10, 11, 12, 13, 14, 15, 16, 17, 18, 19, 20, 21, 22, 23, 24,
     25, 26, 27, 28, 29, 30, 31]"
  by (simp add: upt_rec)

lemmas field_defs = inst_opcode_def inst_rd_def inst_funct3_def inst_rs1_def inst_rs2_def inst_funct7_def

lemma registers_decoded:
  "inst_rd (enc_r f7 rs2 rs1 f3 rd opc) = rd" "inst_rs1 (enc_r f7 rs2 rs1 f3 rd opc) = rs1"
  "inst_rs2 (enc_r f7 rs2 rs1 f3 rd opc) = rs2"
  "inst_rd (enc_i v rs1 f3 rd opc) = rd" "inst_rs1 (enc_i v rs1 f3 rd opc) = rs1"
  "inst_rs1 (enc_s v rs2 rs1 f3 opc) = rs1" "inst_rs2 (enc_s v rs2 rs1 f3 opc) = rs2"
  "inst_rs1 (enc_b v rs2 rs1 f3 opc) = rs1" "inst_rs2 (enc_b v rs2 rs1 f3 opc) = rs2"
  "inst_rd (enc_u v rd opc) = rd" "inst_rd (enc_j v rd opc) = rd"
  by (rule u5_eqI; simp add: bit_simps u5_bits two enc_defs field_defs)+

lemma functs_decoded:
  "inst_funct3 (enc_r f7 rs2 rs1 f3 rd opc) = f3 AND 7" "inst_funct7 (enc_r f7 rs2 rs1 f3 rd opc) = f7 AND 0x7F"
  "inst_funct3 (enc_i v rs1 f3 rd opc) = f3 AND 7" "inst_funct3 (enc_s v rs2 rs1 f3 opc) = f3 AND 7"
  "inst_funct3 (enc_b v rs2 rs1 f3 opc) = f3 AND 7"
  by (rule u32_eqI; simp add: upt_32 bit_simps u5_bits two enc_defs field_defs)+

lemma opcodes_decoded:
  "inst_opcode (enc_r f7 rs2 rs1 f3 rd opc) = opc AND 0x7F" "inst_opcode (enc_i v rs1 f3 rd opc) = opc AND 0x7F"
  "inst_opcode (enc_s v rs2 rs1 f3 opc) = opc AND 0x7F" "inst_opcode (enc_b v rs2 rs1 f3 opc) = opc AND 0x7F"
  "inst_opcode (enc_u v rd opc) = opc AND 0x7F" "inst_opcode (enc_j v rd opc) = opc AND 0x7F"
  by (rule u32_eqI; simp add: upt_32 bit_simps u5_bits two enc_defs field_defs)+

text \<open>
  Property C18. The decoder inverts the instruction formats of the manual: from the word an
  assembler writes for any immediate and registers it recovers the registers, the operation
  fields and the immediate, reduced to the signed range and granularity of its format.
\<close>

theorem formats_roundtrip:
  "imm_i (enc_i v rs1 f3 rd opc) = signed_take_bit 11 v \<and>
   imm_s (enc_s v rs2 rs1 f3 opc) = signed_take_bit 11 v \<and>
   imm_b (enc_b v rs2 rs1 f3 opc) = signed_take_bit 12 (v AND NOT 1) \<and>
   imm_u (enc_u v rd opc) = signed_take_bit 31 (v AND NOT 0xFFF) \<and>
   imm_j (enc_j v rd opc) = signed_take_bit 20 (v AND NOT 1) \<and>
   list_all (\<lambda>inst. inst_opcode inst = opc AND 0x7F \<and> inst_rs1 inst = rs1 \<and> inst_funct3 inst = f3 AND 7)
     [enc_r f7 rs2 rs1 f3 rd opc, enc_i v rs1 f3 rd opc, enc_s v rs2 rs1 f3 opc, enc_b v rs2 rs1 f3 opc] \<and>
   list_all (\<lambda>inst. inst_opcode inst = opc AND 0x7F \<and> inst_rd inst = rd)
     [enc_r f7 rs2 rs1 f3 rd opc, enc_i v rs1 f3 rd opc, enc_u v rd opc, enc_j v rd opc] \<and>
   list_all (\<lambda>inst. inst_rs2 inst = rs2)
     [enc_r f7 rs2 rs1 f3 rd opc, enc_s v rs2 rs1 f3 opc, enc_b v rs2 rs1 f3 opc] \<and>
   inst_funct7 (enc_r f7 rs2 rs1 f3 rd opc) = f7 AND 0x7F"
  by (simp add: imm_decoded registers_decoded functs_decoded opcodes_decoded)

end
