(* ===== verification/Exec.thy ===== *)
theory Exec
  imports Hart Alu
begin

text \<open>
  \<open>execute\<close> of \<open>src/src/cpu.rs\<close>, the arms of the opcodes other than floating point: upper
  immediates, jumps, branches, loads and stores, integer arithmetic, MISC-MEM, the atomic
  memory operations and SYSTEM, one definition per arm. \<open>next_pc\<close> is taken before the arm
  runs, as in the code. An arm that returns an error leaves in the state what it had done.
\<close>

definition illegal :: "u32 \<Rightarrow> 'a hart" where
  "illegal inst = failS (Exception IllegalInstruction, ucast inst)"

text \<open>The common end of an arm: the result in \<open>rd\<close>, then the next instruction.\<close>

definition retire :: "u64 \<Rightarrow> u5 \<Rightarrow> u64 \<Rightarrow> unit hart" where
  "retire next_pc rd v s = (Ok (), goto next_pc (write_reg rd v s))"

definition set_fs_dirty :: "cpu \<Rightarrow> cpu" where
  "set_fs_dirty s = write_csr MSTATUS ((read_csr MSTATUS s AND NOT (push_bit 13 0x3)) OR push_bit 13 0x3) s"

subsection \<open>Upper immediates, jumps and branches\<close>

definition exec_lui :: "u32 \<Rightarrow> unit hart" where
  "exec_lui inst s = retire (cpu_pc s + 4) (inst_rd inst) (imm_u inst) s"

definition exec_auipc :: "u32 \<Rightarrow> unit hart" where
  "exec_auipc inst s = retire (cpu_pc s + 4) (inst_rd inst) (cpu_pc s + imm_u inst) s"

definition exec_jal :: "u32 \<Rightarrow> unit hart" where
  "exec_jal inst s = retire (cpu_pc s + imm_j inst) (inst_rd inst) (cpu_pc s + 4) s"

definition exec_jalr :: "u32 \<Rightarrow> unit hart" where
  "exec_jalr inst s =
     (let target = (read_reg (inst_rs1 inst) s + imm_i inst) AND NOT 1 in
      retire target (inst_rd inst) (cpu_pc s + 4) s)"

definition branch_taken :: "u32 \<Rightarrow> u64 \<Rightarrow> u64 \<Rightarrow> bool option" where
  "branch_taken f3 a b =
     (if f3 = 0x0 then Some (a = b)
      else if f3 = 0x1 then Some (a \<noteq> b)
      else if f3 = 0x4 then Some (sless a b)
      else if f3 = 0x5 then Some (\<not> sless a b)
      else if f3 = 0x6 then Some (a < b)
      else if f3 = 0x7 then Some (a \<ge> b)
      else None)"

definition exec_branch :: "u32 \<Rightarrow> unit hart" where
  "exec_branch inst s =
     (case branch_taken (inst_funct3 inst) (read_reg (inst_rs1 inst) s) (read_reg (inst_rs2 inst) s) of
        None \<Rightarrow> illegal inst s
      | Some b \<Rightarrow> (Ok (), goto (cpu_pc s + (if b then imm_b inst else 4)) s))"

subsection \<open>Loads and stores\<close>

definition exec_load :: "u32 \<Rightarrow> unit hart" where
  "exec_load inst s =
     (let next_pc = cpu_pc s + 4;
          va = read_reg (inst_rs1 inst) s + imm_i inst;
          f3 = inst_funct3 inst in
      bindS (if f3 = 0x0 then mapS (\<lambda>v. scast (ucast v :: u8)) (load_va va 1)
             else if f3 = 0x1 then mapS (\<lambda>v. scast (ucast v :: u16)) (load_va va 2)
             else if f3 = 0x2 then mapS (\<lambda>v. scast (ucast v :: u32)) (load_va va 4)
             else if f3 = 0x3 then load_va va 8
             else if f3 = 0x4 then load_va va 1
             else if f3 = 0x5 then load_va va 2
             else if f3 = 0x6 then load_va va 4
             else illegal inst)
        (retire next_pc (inst_rd inst)) s)"

definition exec_load_fp :: "u32 \<Rightarrow> unit hart" where
  "exec_load_fp inst s =
     (let next_pc = cpu_pc s + 4;
          va = read_reg (inst_rs1 inst) s + imm_i inst;
          f3 = inst_funct3 inst in
      bindS (if f3 = 0x2 then mapS (\<lambda>v. 0xFFFFFFFF00000000 OR (v AND 0xFFFFFFFF)) (load_va va 4)
             else if f3 = 0x3 then load_va va 8
             else illegal inst)
        (\<lambda>v s. (Ok (), goto next_pc (set_fs_dirty (write_freg (inst_rd inst) v s)))) s)"

definition exec_store :: "u32 \<Rightarrow> unit hart" where
  "exec_store inst s =
     (let next_pc = cpu_pc s + 4;
          va = read_reg (inst_rs1 inst) s + imm_s inst;
          v = read_reg (inst_rs2 inst) s;
          f3 = inst_funct3 inst in
      bindS (if f3 = 0x0 then store_va va v 1
             else if f3 = 0x1 then store_va va v 2
             else if f3 = 0x2 then store_va va v 4
             else if f3 = 0x3 then store_va va v 8
             else illegal inst)
        (\<lambda>_ s. (Ok (), goto next_pc (clear_reservation s))) s)"

definition exec_store_fp :: "u32 \<Rightarrow> unit hart" where
  "exec_store_fp inst s =
     (let next_pc = cpu_pc s + 4;
          va = read_reg (inst_rs1 inst) s + imm_s inst;
          v = cpu_f_regs s (inst_rs2 inst);
          f3 = inst_funct3 inst in
      bindS (if f3 = 0x2 then store_va va (v AND 0xFFFFFFFF) 4
             else if f3 = 0x3 then store_va va v 8
             else illegal inst)
        (\<lambda>_ s. (Ok (), goto next_pc (clear_reservation s))) s)"

subsection \<open>Integer arithmetic\<close>

definition exec_result :: "u32 \<Rightarrow> u64 option \<Rightarrow> unit hart" where
  "exec_result inst r s =
     (case r of None \<Rightarrow> illegal inst s | Some v \<Rightarrow> retire (cpu_pc s + 4) (inst_rd inst) v s)"

definition exec_op_imm :: "u32 \<Rightarrow> unit hart" where
  "exec_op_imm inst s = exec_result inst (op_imm inst (read_reg (inst_rs1 inst) s)) s"

definition exec_op :: "u32 \<Rightarrow> unit hart" where
  "exec_op inst s =
     exec_result inst (op_reg (inst_funct7 inst) (inst_funct3 inst)
       (read_reg (inst_rs1 inst) s) (read_reg (inst_rs2 inst) s)) s"

definition exec_op_imm_32 :: "u32 \<Rightarrow> unit hart" where
  "exec_op_imm_32 inst s = exec_result inst (op_imm_32 inst (read_reg (inst_rs1 inst) s)) s"

definition exec_op_32 :: "u32 \<Rightarrow> unit hart" where
  "exec_op_32 inst s =
     exec_result inst (op_reg_32 (inst_funct7 inst) (inst_funct3 inst)
       (read_reg (inst_rs1 inst) s) (read_reg (inst_rs2 inst) s)) s"

subsection \<open>MISC-MEM\<close>

text \<open>
  The eight stores of CBO.ZERO ignore their errors. \<open>pa\<close> keeps the 64-byte alignment of the
  address it translates, so \<open>pa + i * 8\<close> does not overflow.
\<close>

fun cbo_zero :: "u64 \<Rightarrow> nat list \<Rightarrow> unit hart" where
  "cbo_zero pa [] = returnS ()"
| "cbo_zero pa (i # is) =
     bindS (unwrap_orS () (zoom_bus (bus_write64 (pa + of_nat i * 8) 0))) (\<lambda>_. cbo_zero pa is)"

definition exec_misc_mem :: "u32 \<Rightarrow> unit hart" where
  "exec_misc_mem inst s =
     (let next_pc = cpu_pc s + 4; f3 = inst_funct3 inst in
      if f3 = 0x0 then (Ok (), goto next_pc s)
      else if f3 = 0x1 then (Ok (), goto next_pc s)
      else if f3 = 0x2 then
        (let cbo_op = drop_bit 20 inst AND 0x1F; va = read_reg (inst_rs1 inst) s in
         if cbo_op = 0 then (Ok (), goto next_pc s)
         else if cbo_op = 1 then (Ok (), goto next_pc s)
         else if cbo_op = 2 then (Ok (), goto next_pc s)
         else if cbo_op = 4 then
           (let aligned_va = va AND NOT 63 in
            bindS (translate_at aligned_va Store aligned_va) (\<lambda>pa.
            bindS (cbo_zero pa [0..<8]) (\<lambda>_ s. (Ok (), goto next_pc s))) s)
         else illegal inst s)
      else illegal inst s)"

subsection \<open>Atomic memory operations\<close>

text \<open>The new memory value of each read-modify-write, from the old value and the register.\<close>

definition amo_op :: "u32 \<Rightarrow> ('a::len word \<Rightarrow> 'a word \<Rightarrow> 'a word) option" where
  "amo_op f5 =
     (if f5 = 0x01 then Some (\<lambda>old v. v)
      else if f5 = 0x00 then Some (+)
      else if f5 = 0x04 then Some (XOR)
      else if f5 = 0x0C then Some (AND)
      else if f5 = 0x08 then Some (OR)
      else if f5 = 0x10 then Some (\<lambda>old v. if sless v old then v else old)
      else if f5 = 0x14 then Some (\<lambda>old v. if sless old v then v else old)
      else if f5 = 0x18 then Some min
      else if f5 = 0x1C then Some max
      else None)"

definition amo_word :: "u32 \<Rightarrow> u64 \<Rightarrow> u64 \<Rightarrow> u64 \<Rightarrow> (u32 \<Rightarrow> u32 \<Rightarrow> u32) \<Rightarrow> unit hart" where
  "amo_word inst next_pc va pa f =
     bindS (map_errS (load_fault va) (zoom_bus (bus_read32 pa))) (\<lambda>old_value s.
     bindS (map_errS (store_fault va)
              (zoom_bus (bus_write32 pa (f old_value (ucast (read_reg (inst_rs2 inst) s)))))) (\<lambda>_ s.
     (Ok (), goto next_pc (clear_reservation (write_reg (inst_rd inst) (sext32 old_value) s)))) s)"

definition amo_double :: "u32 \<Rightarrow> u64 \<Rightarrow> u64 \<Rightarrow> u64 \<Rightarrow> (u64 \<Rightarrow> u64 \<Rightarrow> u64) \<Rightarrow> unit hart" where
  "amo_double inst next_pc va pa f =
     bindS (map_errS (load_fault va) (zoom_bus (bus_read64 pa))) (\<lambda>old_value s.
     bindS (map_errS (store_fault va)
              (zoom_bus (bus_write64 pa (f old_value (read_reg (inst_rs2 inst) s))))) (\<lambda>_ s.
     (Ok (), goto next_pc (clear_reservation (write_reg (inst_rd inst) old_value s)))) s)"

definition exec_lr :: "u32 \<Rightarrow> u64 \<Rightarrow> u64 \<Rightarrow> u64 \<Rightarrow> unit hart" where
  "exec_lr inst next_pc va pa =
     bindS (if inst_funct3 inst = 0x2
            then mapS sext32 (map_errS (load_fault va) (zoom_bus (bus_read32 pa)))
            else map_errS (load_fault va) (zoom_bus (bus_read64 pa)))
       (\<lambda>v s. (Ok (), goto next_pc (set_reservation pa (write_reg (inst_rd inst) v s))))"

definition exec_sc :: "u32 \<Rightarrow> u64 \<Rightarrow> u64 \<Rightarrow> u64 \<Rightarrow> unit hart" where
  "exec_sc inst next_pc va pa =
     bindS (\<lambda>s. if check_reservation pa s then
                  bindS (map_errS (store_fault va)
                    (zoom_bus (if inst_funct3 inst = 0x2
                               then bus_write32 pa (ucast (read_reg (inst_rs2 inst) s))
                               else bus_write64 pa (read_reg (inst_rs2 inst) s))))
                    (\<lambda>_ s. (Ok (), write_reg (inst_rd inst) 0 s)) s
                else (Ok (), write_reg (inst_rd inst) 1 s))
       (\<lambda>_ s. (Ok (), goto next_pc (clear_reservation s)))"

definition exec_amo :: "u32 \<Rightarrow> unit hart" where
  "exec_amo inst s =
     (let next_pc = cpu_pc s + 4;
          f5 = drop_bit 2 (inst_funct7 inst);
          f3 = inst_funct3 inst;
          va = read_reg (inst_rs1 inst) s in
      bindS (translate_at va (if f5 = 0x02 then Load else Store) va) (\<lambda>pa.
        if f3 = 0x2 \<or> f3 = 0x3 then
          (if f5 = 0x02 then exec_lr inst next_pc va pa
           else if f5 = 0x03 then exec_sc inst next_pc va pa
           else if f3 = 0x2 then
             (case amo_op f5 of None \<Rightarrow> illegal inst | Some f \<Rightarrow> amo_word inst next_pc va pa f)
           else
             (case amo_op f5 of None \<Rightarrow> illegal inst | Some f \<Rightarrow> amo_double inst next_pc va pa f))
        else illegal inst) s)"

subsection \<open>SYSTEM\<close>

definition exec_ecall :: "unit hart" where
  "exec_ecall s =
     (case cpu_mode s of
        User \<Rightarrow> (Err (Exception EnvironmentCallFromUMode, 0), s)
      | Supervisor \<Rightarrow> (Err (Exception EnvironmentCallFromSMode, 0), s)
      | _ \<Rightarrow> (Err (Exception EnvironmentCallFromMMode, 0), s))"

definition exec_priv :: "u32 \<Rightarrow> unit hart" where
  "exec_priv inst s =
     (let next_pc = cpu_pc s + 4; f7 = inst_funct7 inst; imm = imm_i inst in
      if f7 = 0x09 then (Ok (), goto next_pc s)
      else if f7 = 0x31 then (Ok (), goto next_pc s)
      else if f7 = 0x11 then (Ok (), goto next_pc s)
      else if imm = 0x000 then exec_ecall s
      else if imm = 0x001 then (Err (Exception Breakpoint, cpu_pc s), s)
      else if imm = 0x302 then (Ok (), exec_mret s)
      else if imm = 0x102 then (Ok (), exec_sret s)
      else if imm = 0x105 then (Ok (), goto next_pc s)
      else if imm = 0x00D then (Ok (), goto next_pc s)
      else if imm = 0x01D then (Ok (), goto next_pc s)
      else illegal inst s)"

definition csr_addr :: "u32 \<Rightarrow> u16" where
  "csr_addr inst = ucast (drop_bit 20 inst)"

definition csr_allowed :: "u32 \<Rightarrow> bool \<Rightarrow> cpu \<Rightarrow> bool" where
  "csr_allowed inst is_write s \<longleftrightarrow>
     is_valid_csr (csr_addr inst) \<and> check_csr_privilege (csr_addr inst) (ucast (mode_bits (cpu_mode s))) is_write"

definition set_stimecmp :: "u64 \<Rightarrow> cpu \<Rightarrow> cpu" where
  "set_stimecmp v s = s\<lparr>cpu_bus := (cpu_bus s)\<lparr>bus_stimecmp := v\<rparr>\<rparr>"

definition read_time :: "u64 hart" where
  "read_time = unwrap_orS 0 (zoom_bus (bus_read64 (CLINT_BASE + 0xBFF8)))"

definition csr_atomic :: "(csr \<Rightarrow> u64 \<times> csr) \<Rightarrow> u64 hart" where
  "csr_atomic f s = (case f (cpu_csr s) of (old, c) \<Rightarrow> (Ok old, s\<lparr>cpu_csr := c\<rparr>))"

definition exec_csrrw :: "u32 \<Rightarrow> unit hart" where
  "exec_csrrw inst s =
     (let next_pc = cpu_pc s + 4; addr = csr_addr inst in
      if \<not> csr_allowed inst True s then illegal inst s
      else if addr = 0x14D then
        (let old_val = bus_stimecmp (cpu_bus s);
             new_val = (if inst_rs1 inst = 0 then 0 else read_reg (inst_rs1 inst) s) in
         retire next_pc (inst_rd inst) old_val (write_csr addr new_val (set_stimecmp new_val s)))
      else
        bindS (if addr = TIME then read_time
               else csr_atomic (\<lambda>c. csrrw c addr (read_reg (inst_rs1 inst) s)))
          (retire next_pc (inst_rd inst)) s)"

definition exec_csrrwi :: "u32 \<Rightarrow> unit hart" where
  "exec_csrrwi inst s =
     (let next_pc = cpu_pc s + 4; addr = csr_addr inst; imm = ucast (inst_rs1 inst) :: u64 in
      if \<not> csr_allowed inst True s then illegal inst s
      else if addr = STIMECMP then
        bindS (csr_atomic (\<lambda>c. csrrw c addr imm)) (\<lambda>old_val s.
          retire next_pc (inst_rd inst) old_val (set_stimecmp imm s)) s
      else
        bindS (if addr = TIME then read_time else csr_atomic (\<lambda>c. csrrw c addr imm))
          (retire next_pc (inst_rd inst)) s)"

text \<open>CSRRS, CSRRC and their immediate forms: \<open>f\<close> is \<open>csrrs\<close> or \<open>csrrc\<close>.\<close>

definition exec_csr_bits :: "(csr \<Rightarrow> u16 \<Rightarrow> u64 \<Rightarrow> u64 \<times> csr) \<Rightarrow> u32 \<Rightarrow> u64 \<Rightarrow> unit hart" where
  "exec_csr_bits f inst msk s =
     (let next_pc = cpu_pc s + 4; addr = csr_addr inst;
          is_write = inst_rs1 inst \<noteq> 0;
          should_read = inst_rd inst \<noteq> 0 \<or> inst_rs1 inst \<noteq> 0 in
      if \<not> csr_allowed inst is_write s then illegal inst s
      else
        bindS (if \<not> should_read then returnS 0
               else if addr = TIME then read_time
               else csr_atomic (\<lambda>c. f c addr msk)) (\<lambda>old_value s.
          retire next_pc (inst_rd inst) old_value
            (if is_write \<and> addr = STIMECMP then set_stimecmp (read_csr STIMECMP s) s else s)) s)"

definition exec_system :: "u32 \<Rightarrow> unit hart" where
  "exec_system inst s =
     (let f3 = inst_funct3 inst in
      if f3 = 0x0 then exec_priv inst s
      else if f3 = 0x1 then exec_csrrw inst s
      else if f3 = 0x2 then exec_csr_bits csrrs inst (read_reg (inst_rs1 inst) s) s
      else if f3 = 0x3 then exec_csr_bits csrrc inst (read_reg (inst_rs1 inst) s) s
      else if f3 = 0x5 then exec_csrrwi inst s
      else if f3 = 0x6 then exec_csr_bits csrrs inst (ucast (inst_rs1 inst)) s
      else if f3 = 0x7 then exec_csr_bits csrrc inst (ucast (inst_rs1 inst)) s
      else illegal inst s)"

end
