(* ===== verification/IeeeFloat.thy ===== *)
theory IeeeFloat
  imports Prelude
begin

text \<open>
  The \<open>f32\<close> and \<open>f64\<close> operations of Rust's standard library that \<open>src/src/cpu.rs\<close> uses, on
  bit patterns and with exact integer arithmetic: a finite value is a sign, a mantissa and a
  power of two; every arithmetic result is rounded once, to nearest with ties to even. A
  format is its number of fraction bits and of exponent bits. Rust leaves the sign and
  payload of a NaN result open, so the operations take the host's choice as an argument.
\<close>

subsection \<open>Values of bit patterns\<close>

datatype fp = NaN | Inf bool | Fin bool nat int

record fp_format =
  fp_frac :: nat
  fp_expo :: nat

definition f32 :: fp_format where "f32 = \<lparr>fp_frac = 23, fp_expo = 8\<rparr>"
definition f64 :: fp_format where "f64 = \<lparr>fp_frac = 52, fp_expo = 11\<rparr>"

text \<open>The exponent of the unit in the last place of the subnormal numbers.\<close>

definition fp_qmin :: "fp_format \<Rightarrow> int" where
  "fp_qmin F = 2 - 2 ^ (fp_expo F - 1) - int (fp_frac F)"

definition fp_neg_bit :: "fp_format \<Rightarrow> 'a::len word \<Rightarrow> bool" where
  "fp_neg_bit F x = bit x (fp_frac F + fp_expo F)"

definition fp_mag :: "fp_format \<Rightarrow> 'a::len word \<Rightarrow> nat" where
  "fp_mag F x = unat (take_bit (fp_frac F + fp_expo F) x)"

text \<open>Without its sign a pattern is a number that grows with the value.\<close>

definition mag_value :: "fp_format \<Rightarrow> bool \<Rightarrow> nat \<Rightarrow> fp" where
  "mag_value F s mag =
     (let e = mag div 2 ^ fp_frac F; f = mag mod 2 ^ fp_frac F in
      if e = 2 ^ fp_expo F - 1 then (if f = 0 then Inf s else NaN)
      else if e = 0 then Fin s f (fp_qmin F)
      else Fin s (f + 2 ^ fp_frac F) (fp_qmin F + int e - 1))"

definition fp_value :: "fp_format \<Rightarrow> 'a::len word \<Rightarrow> fp" where
  "fp_value F x = mag_value F (fp_neg_bit F x) (fp_mag F x)"

definition fp_bits :: "fp_format \<Rightarrow> bool \<Rightarrow> nat \<Rightarrow> 'a::len word" where
  "fp_bits F s mag = (if s then push_bit (fp_frac F + fp_expo F) 1 else 0) OR of_nat mag"

definition inf_mag :: "fp_format \<Rightarrow> nat" where
  "inf_mag F = (2 ^ fp_expo F - 1) * 2 ^ fp_frac F"

text \<open>A NaN with the sign and payload of the host's choice.\<close>

definition pick_nan :: "fp_format \<Rightarrow> 'a::len word \<Rightarrow> 'a word" where
  "pick_nan F c =
     (let x = c OR of_nat (inf_mag F) in
      if take_bit (fp_frac F) x = 0 then x OR push_bit (fp_frac F - 1) 1 else x)"

subsection \<open>Rounding\<close>

fun bit_length :: "nat \<Rightarrow> nat" where
  "bit_length n = (if n = 0 then 0 else Suc (bit_length (n div 2)))"

declare bit_length.simps [simp del]

text \<open>\<open>n / 2 ^ d\<close>, to nearest with ties to even.\<close>

definition round_shift :: "nat \<Rightarrow> nat \<Rightarrow> nat" where
  "round_shift d n =
     (if d = 0 then n
      else
        (let q = n div 2 ^ d; r = n mod 2 ^ d in
         if r > 2 ^ (d - 1) \<or> r = 2 ^ (d - 1) \<and> odd q then q + 1 else q))"

text \<open>The magnitude of \<open>n * 2 ^ e\<close>: the unit exponent of the result, the rounded multiple of it, the pattern.\<close>

definition fp_unit :: "fp_format \<Rightarrow> nat \<Rightarrow> int \<Rightarrow> int" where
  "fp_unit F n e = max (e + int (bit_length n) - int (fp_frac F) - 1) (fp_qmin F)"

definition round_multiple :: "fp_format \<Rightarrow> nat \<Rightarrow> int \<Rightarrow> nat" where
  "round_multiple F n e =
     (let q = fp_unit F n e in
      if q \<le> e then n * 2 ^ nat (e - q) else round_shift (nat (q - e)) n)"

definition round_mag :: "fp_format \<Rightarrow> nat \<Rightarrow> int \<Rightarrow> nat" where
  "round_mag F n e =
     (if n = 0 then 0
      else min (inf_mag F) (nat (fp_unit F n e - fp_qmin F) * 2 ^ fp_frac F + round_multiple F n e))"

definition fp_round :: "fp_format \<Rightarrow> bool \<Rightarrow> nat \<Rightarrow> int \<Rightarrow> 'a::len word" where
  "fp_round F s n e = fp_bits F s (round_mag F n e)"

subsection \<open>Arithmetic\<close>

definition signed_mant :: "bool \<Rightarrow> nat \<Rightarrow> int" where
  "signed_mant s m = (if s then - int m else int m)"

text \<open>The rounded value of an integer times a power of two; an exact zero has the given sign.\<close>

definition round_int :: "fp_format \<Rightarrow> bool \<Rightarrow> int \<Rightarrow> int \<Rightarrow> 'a::len word" where
  "round_int F zero_sign k e =
     (if k = 0 then fp_bits F zero_sign 0 else fp_round F (k < 0) (nat \<bar>k\<bar>) e)"

definition sum_exact :: "bool \<Rightarrow> nat \<Rightarrow> int \<Rightarrow> bool \<Rightarrow> nat \<Rightarrow> int \<Rightarrow> int \<times> int" where
  "sum_exact s1 m1 e1 s2 m2 e2 =
     (let e = min e1 e2 in
      (signed_mant s1 m1 * 2 ^ nat (e1 - e) + signed_mant s2 m2 * 2 ^ nat (e2 - e), e))"

definition fp_add :: "fp_format \<Rightarrow> 'a::len word \<Rightarrow> 'a word \<Rightarrow> 'a word \<Rightarrow> 'a word" where
  "fp_add F c a b =
     (case (fp_value F a, fp_value F b) of
        (NaN, _) \<Rightarrow> pick_nan F c
      | (_, NaN) \<Rightarrow> pick_nan F c
      | (Inf s, Inf t) \<Rightarrow> if s = t then a else pick_nan F c
      | (Inf s, _) \<Rightarrow> a
      | (_, Inf t) \<Rightarrow> b
      | (Fin s1 m1 e1, Fin s2 m2 e2) \<Rightarrow>
          (case sum_exact s1 m1 e1 s2 m2 e2 of (k, e) \<Rightarrow> round_int F (s1 \<and> s2) k e))"

definition fp_neg :: "fp_format \<Rightarrow> 'a::len word \<Rightarrow> 'a word" where
  "fp_neg F a = a XOR push_bit (fp_frac F + fp_expo F) 1"

text \<open>Subtraction adds the negated operand; a NaN operand gives a NaN either way.\<close>

definition fp_sub :: "fp_format \<Rightarrow> 'a::len word \<Rightarrow> 'a word \<Rightarrow> 'a word \<Rightarrow> 'a word" where
  "fp_sub F c a b = fp_add F c a (fp_neg F b)"

definition fp_mul :: "fp_format \<Rightarrow> 'a::len word \<Rightarrow> 'a word \<Rightarrow> 'a word \<Rightarrow> 'a word" where
  "fp_mul F c a b =
     (case (fp_value F a, fp_value F b) of
        (NaN, _) \<Rightarrow> pick_nan F c
      | (_, NaN) \<Rightarrow> pick_nan F c
      | (Inf s, Inf t) \<Rightarrow> fp_bits F (s \<noteq> t) (inf_mag F)
      | (Inf s, Fin t m e) \<Rightarrow> if m = 0 then pick_nan F c else fp_bits F (s \<noteq> t) (inf_mag F)
      | (Fin s m e, Inf t) \<Rightarrow> if m = 0 then pick_nan F c else fp_bits F (s \<noteq> t) (inf_mag F)
      | (Fin s1 m1 e1, Fin s2 m2 e2) \<Rightarrow> fp_round F (s1 \<noteq> s2) (m1 * m2) (e1 + e2))"

text \<open>
  A quotient or root is rounded from an integer approximation with one more bit that tells
  whether it is exact; the approximation has more bits than the result, so the rounding is
  that of the exact value.
\<close>

definition sticky :: "nat \<Rightarrow> bool \<Rightarrow> nat" where
  "sticky n inexact = 2 * n + (if inexact then 1 else 0)"

definition div_exact :: "fp_format \<Rightarrow> nat \<Rightarrow> nat \<Rightarrow> nat \<times> nat" where
  "div_exact F m1 m2 =
     (let k = 2 * fp_frac F + 4; n = m1 * 2 ^ k in (k + 1, sticky (n div m2) (n mod m2 \<noteq> 0)))"

definition fp_div :: "fp_format \<Rightarrow> 'a::len word \<Rightarrow> 'a word \<Rightarrow> 'a word \<Rightarrow> 'a word" where
  "fp_div F c a b =
     (case (fp_value F a, fp_value F b) of
        (NaN, _) \<Rightarrow> pick_nan F c
      | (_, NaN) \<Rightarrow> pick_nan F c
      | (Inf s, Inf t) \<Rightarrow> pick_nan F c
      | (Inf s, Fin t m e) \<Rightarrow> fp_bits F (s \<noteq> t) (inf_mag F)
      | (Fin s m e, Inf t) \<Rightarrow> fp_bits F (s \<noteq> t) 0
      | (Fin s1 m1 e1, Fin s2 m2 e2) \<Rightarrow>
          if m2 = 0 then (if m1 = 0 then pick_nan F c else fp_bits F (s1 \<noteq> s2) (inf_mag F))
          else (case div_exact F m1 m2 of (k, n) \<Rightarrow> fp_round F (s1 \<noteq> s2) n (e1 - e2 - int k)))"

text \<open>The integer square root, two bits of the radicand for each bit of the root.\<close>

fun isqrt :: "nat \<Rightarrow> nat" where
  "isqrt n = (if n = 0 then 0 else let r = 2 * isqrt (n div 4) in if (r + 1) * (r + 1) \<le> n then r + 1 else r)"

declare isqrt.simps [simp del]

definition sqrt_exact :: "fp_format \<Rightarrow> nat \<Rightarrow> int \<Rightarrow> nat \<times> int" where
  "sqrt_exact F m e =
     (let k = 2 * fp_frac F + 6; k' = (if even (e - int k) then k else k + 1);
          n = m * 2 ^ k'; r = isqrt n in
      (sticky r (r * r \<noteq> n), (e - int k') div 2 - 1))"

definition fp_sqrt :: "fp_format \<Rightarrow> 'a::len word \<Rightarrow> 'a word \<Rightarrow> 'a word" where
  "fp_sqrt F c a =
     (case fp_value F a of
        NaN \<Rightarrow> pick_nan F c
      | Inf s \<Rightarrow> if s then pick_nan F c else a
      | Fin s m e \<Rightarrow>
          if m = 0 then a
          else if s then pick_nan F c
          else (case sqrt_exact F m e of (n, e') \<Rightarrow> fp_round F False n e'))"

definition fp_fma :: "fp_format \<Rightarrow> 'a::len word \<Rightarrow> 'a word \<Rightarrow> 'a word \<Rightarrow> 'a word \<Rightarrow> 'a word" where
  "fp_fma F ch a b c =
     (case (fp_value F a, fp_value F b, fp_value F c) of
        (Fin s1 m1 e1, Fin s2 m2 e2, Fin s3 m3 e3) \<Rightarrow>
          (case sum_exact (s1 \<noteq> s2) (m1 * m2) (e1 + e2) s3 m3 e3 of
             (k, e) \<Rightarrow> round_int F ((s1 \<noteq> s2) \<and> s3) k e)
      | (Fin s1 m1 e1, Fin s2 m2 e2, Inf s3) \<Rightarrow> c
      | (NaN, _, _) \<Rightarrow> pick_nan F ch
      | (_, NaN, _) \<Rightarrow> pick_nan F ch
      | (_, _, NaN) \<Rightarrow> pick_nan F ch
      | (Fin s1 0 e1, _, _) \<Rightarrow> pick_nan F ch
      | (_, Fin s2 0 e2, _) \<Rightarrow> pick_nan F ch
      | (x, y, Inf s3) \<Rightarrow>
          if (fp_neg_bit F a \<noteq> fp_neg_bit F b) = s3 then c else pick_nan F ch
      | (x, y, Fin _ _ _) \<Rightarrow> fp_bits F (fp_neg_bit F a \<noteq> fp_neg_bit F b) (inf_mag F))"

subsection \<open>Comparisons and classification\<close>

text \<open>The comparisons of finite values compare exact integers at a common exponent.\<close>

definition fp_cmp_key :: "fp_format \<Rightarrow> 'a::len word \<Rightarrow> int" where
  "fp_cmp_key F a = signed_mant (fp_neg_bit F a) (fp_mag F a)"

definition fp_is_nan :: "fp_format \<Rightarrow> 'a::len word \<Rightarrow> bool" where
  "fp_is_nan F a \<longleftrightarrow> fp_mag F a > inf_mag F"

definition fp_is_inf :: "fp_format \<Rightarrow> 'a::len word \<Rightarrow> bool" where
  "fp_is_inf F a \<longleftrightarrow> fp_mag F a = inf_mag F"

definition fp_is_zero :: "fp_format \<Rightarrow> 'a::len word \<Rightarrow> bool" where
  "fp_is_zero F a \<longleftrightarrow> fp_mag F a = 0"

definition fp_is_subnormal :: "fp_format \<Rightarrow> 'a::len word \<Rightarrow> bool" where
  "fp_is_subnormal F a \<longleftrightarrow> 0 < fp_mag F a \<and> fp_mag F a < 2 ^ fp_frac F"

definition fp_eq :: "fp_format \<Rightarrow> 'a::len word \<Rightarrow> 'a word \<Rightarrow> bool" where
  "fp_eq F a b \<longleftrightarrow> \<not> fp_is_nan F a \<and> \<not> fp_is_nan F b \<and> fp_cmp_key F a = fp_cmp_key F b"

definition fp_lt :: "fp_format \<Rightarrow> 'a::len word \<Rightarrow> 'a word \<Rightarrow> bool" where
  "fp_lt F a b \<longleftrightarrow> \<not> fp_is_nan F a \<and> \<not> fp_is_nan F b \<and> fp_cmp_key F a < fp_cmp_key F b"

definition fp_le :: "fp_format \<Rightarrow> 'a::len word \<Rightarrow> 'a word \<Rightarrow> bool" where
  "fp_le F a b \<longleftrightarrow> \<not> fp_is_nan F a \<and> \<not> fp_is_nan F b \<and> fp_cmp_key F a \<le> fp_cmp_key F b"

subsection \<open>Conversions\<close>

text \<open>\<open>as\<close> from a float to an integer truncates and saturates; a NaN gives zero.\<close>

definition trunc_int :: "bool \<Rightarrow> nat \<Rightarrow> int \<Rightarrow> int" where
  "trunc_int s m e = signed_mant s (if e \<ge> 0 then m * 2 ^ nat e else m div 2 ^ nat (- e))"

definition fp_to_int :: "fp_format \<Rightarrow> int \<Rightarrow> int \<Rightarrow> 'a::len word \<Rightarrow> int" where
  "fp_to_int F lo hi a =
     (case fp_value F a of
        NaN \<Rightarrow> 0
      | Inf s \<Rightarrow> if s then lo else hi
      | Fin s m e \<Rightarrow> max lo (min hi (trunc_int s m e)))"

definition fp_of_int :: "fp_format \<Rightarrow> int \<Rightarrow> 'a::len word" where
  "fp_of_int F k = round_int F False k 0"

definition fp_convert :: "fp_format \<Rightarrow> fp_format \<Rightarrow> 'b::len word \<Rightarrow> 'a::len word \<Rightarrow> 'b word" where
  "fp_convert F G c a =
     (case fp_value F a of
        NaN \<Rightarrow> pick_nan G c
      | Inf s \<Rightarrow> fp_bits G s (inf_mag G)
      | Fin s m e \<Rightarrow> fp_round G s m e)"

end
