(* ===== verification/FpExec.thy ===== *)
theory FpExec
  imports Exec IeeeFloat
begin

text \<open>
  \<open>execute\<close> of \<open>src/src/cpu.rs\<close>, the floating-point arms: OP-FP (\<open>0x53\<close>) and the fused
  multiply-adds, in single and double precision. The rounding mode field is not read by the
  code, so every rounding is to nearest; no exception flags are raised.
\<close>

definition unbox_f32 :: "u64 \<Rightarrow> u32" where
  "unbox_f32 v = (if drop_bit 32 v = 0xFFFFFFFF then ucast v else 0x7FC00000)"

definition box_f32 :: "u32 \<Rightarrow> u64" where
  "box_f32 v = 0xFFFFFFFF00000000 OR ucast v"

text \<open>The common ends: a result in a floating-point or in an integer register.\<close>

definition fp_retire :: "u64 \<Rightarrow> u5 \<Rightarrow> u64 \<Rightarrow> unit hart" where
  "fp_retire next_pc rd v s = (Ok (), goto next_pc (set_fs_dirty (write_freg rd v s)))"

definition next_nan :: "cpu \<Rightarrow> cpu" where
  "next_nan s = s\<lparr>cpu_nans := (\<lambda>i. cpu_nans s (Suc i))\<rparr>"

subsection \<open>Arithmetic\<close>

definition fp_arith_d :: "u32 \<Rightarrow> (u64 \<Rightarrow> u64 \<Rightarrow> u64 \<Rightarrow> u64) option" where
  "fp_arith_d f7 =
     (if f7 = 0x01 then Some (fp_add f64)
      else if f7 = 0x05 then Some (fp_sub f64)
      else if f7 = 0x09 then Some (fp_mul f64)
      else if f7 = 0x0D then Some (fp_div f64)
      else None)"

definition fp_arith_s :: "u32 \<Rightarrow> (u32 \<Rightarrow> u32 \<Rightarrow> u32 \<Rightarrow> u32) option" where
  "fp_arith_s f7 =
     (if f7 = 0x00 then Some (fp_add f32)
      else if f7 = 0x04 then Some (fp_sub f32)
      else if f7 = 0x08 then Some (fp_mul f32)
      else if f7 = 0x0C then Some (fp_div f32)
      else None)"

definition exec_fp_sqrt :: "u32 \<Rightarrow> unit hart" where
  "exec_fp_sqrt inst s =
     (let a = cpu_f_regs s (inst_rs1 inst); nan = cpu_nans s 0 in
      if inst_rs2 inst \<noteq> 0 then illegal inst s
      else fp_retire (cpu_pc s + 4) (inst_rd inst)
        (if inst_funct7 inst = 0x2D then fp_sqrt f64 nan a else box_f32 (fp_sqrt f32 (ucast nan) (unbox_f32 a)))
        (next_nan s))"

subsection \<open>Sign injection, minimum and maximum\<close>

definition sgnj_d :: "u32 \<Rightarrow> u64 \<Rightarrow> u64 \<Rightarrow> u64 option" where
  "sgnj_d f3 a b =
     (if f3 = 0x0 then Some ((a AND 0x7FFFFFFFFFFFFFFF) OR (b AND 0x8000000000000000))
      else if f3 = 0x1 then Some ((a AND 0x7FFFFFFFFFFFFFFF) OR ((b XOR 0x8000000000000000) AND 0x8000000000000000))
      else if f3 = 0x2 then Some (a XOR (b AND 0x8000000000000000))
      else None)"

definition sgnj_s :: "u32 \<Rightarrow> u32 \<Rightarrow> u32 \<Rightarrow> u32 option" where
  "sgnj_s f3 a b =
     (if f3 = 0x0 then Some ((a AND 0x7FFFFFFF) OR (b AND 0x80000000))
      else if f3 = 0x1 then Some ((a AND 0x7FFFFFFF) OR ((b XOR 0x80000000) AND 0x80000000))
      else if f3 = 0x2 then Some (a XOR (b AND 0x80000000))
      else None)"

definition fp_min :: "fp_format \<Rightarrow> 'a::len word \<Rightarrow> 'a word \<Rightarrow> 'a word \<Rightarrow> 'a word" where
  "fp_min F cnan a b =
     (if fp_is_nan F a \<and> fp_is_nan F b then cnan
      else if fp_is_nan F a then b
      else if fp_is_nan F b then a
      else if fp_is_zero F a \<and> fp_is_zero F b then (if fp_neg_bit F a then a else b)
      else if fp_lt F b a then b else a)"

definition fp_max :: "fp_format \<Rightarrow> 'a::len word \<Rightarrow> 'a word \<Rightarrow> 'a word \<Rightarrow> 'a word" where
  "fp_max F cnan a b =
     (if fp_is_nan F a \<and> fp_is_nan F b then cnan
      else if fp_is_nan F a then b
      else if fp_is_nan F b then a
      else if fp_is_zero F a \<and> fp_is_zero F b then (if \<not> fp_neg_bit F a then a else b)
      else if fp_lt F a b then b else a)"

definition minmax :: "fp_format \<Rightarrow> 'a::len word \<Rightarrow> u32 \<Rightarrow> 'a word \<Rightarrow> 'a word \<Rightarrow> 'a word option" where
  "minmax F cnan f3 a b =
     (if f3 = 0x0 then Some (fp_min F cnan a b)
      else if f3 = 0x1 then Some (fp_max F cnan a b)
      else None)"

definition compare_fp :: "fp_format \<Rightarrow> u32 \<Rightarrow> 'a::len word \<Rightarrow> 'a word \<Rightarrow> u64 option" where
  "compare_fp F f3 a b =
     (if f3 = 0x2 then Some (flag (fp_eq F a b))
      else if f3 = 0x1 then Some (flag (fp_lt F a b))
      else if f3 = 0x0 then Some (flag (fp_le F a b))
      else None)"

subsection \<open>Conversions and classification\<close>

definition cvt_to_int :: "fp_format \<Rightarrow> u5 \<Rightarrow> 'a::len word \<Rightarrow> u64 option" where
  "cvt_to_int F rs2 a =
     (if rs2 = 0 then Some (word_of_int (fp_to_int F (- (2 ^ 31)) (2 ^ 31 - 1) a))
      else if rs2 = 1 then Some (word_of_int (fp_to_int F 0 (2 ^ 32 - 1) a))
      else if rs2 = 2 then Some (word_of_int (fp_to_int F (- (2 ^ 63)) (2 ^ 63 - 1) a))
      else if rs2 = 3 then Some (word_of_int (fp_to_int F 0 (2 ^ 64 - 1) a))
      else None)"

definition cvt_of_int :: "fp_format \<Rightarrow> u5 \<Rightarrow> u64 \<Rightarrow> 'a::len word option" where
  "cvt_of_int F rs2 v =
     (if rs2 = 0 then Some (fp_of_int F (sint (ucast v :: u32)))
      else if rs2 = 1 then Some (fp_of_int F (uint (ucast v :: u32)))
      else if rs2 = 2 then Some (fp_of_int F (sint v))
      else if rs2 = 3 then Some (fp_of_int F (uint v))
      else None)"

definition fclass :: "fp_format \<Rightarrow> 'a::len word \<Rightarrow> u64" where
  "fclass F v =
     (if fp_is_nan F v then (if v AND push_bit (fp_frac F - 1) 1 \<noteq> 0 then push_bit 9 1 else push_bit 8 1)
      else if fp_is_inf F v then (if \<not> fp_neg_bit F v then push_bit 7 1 else push_bit 0 1)
      else if fp_is_zero F v then (if \<not> fp_neg_bit F v then push_bit 4 1 else push_bit 3 1)
      else if fp_is_subnormal F v then (if \<not> fp_neg_bit F v then push_bit 5 1 else push_bit 2 1)
      else (if \<not> fp_neg_bit F v then push_bit 6 1 else push_bit 1 1))"

definition exec_fp_move_class :: "u32 \<Rightarrow> unit hart" where
  "exec_fp_move_class inst s =
     (let next_pc = cpu_pc s + 4; rd = inst_rd inst; f3 = inst_funct3 inst; v = cpu_f_regs s (inst_rs1 inst) in
      if inst_rs2 inst \<noteq> 0 then illegal inst s
      else if inst_funct7 inst = 0x71 then
        (if f3 = 0x0 then retire next_pc rd v s
         else if f3 = 0x1 then retire next_pc rd (fclass f64 v) s
         else illegal inst s)
      else
        (if f3 = 0x0 then retire next_pc rd (sext32 (ucast v)) s
         else if f3 = 0x1 then retire next_pc rd (fclass f32 (unbox_f32 v)) s
         else illegal inst s))"

definition fp_option :: "u32 \<Rightarrow> u64 option \<Rightarrow> unit hart" where
  "fp_option inst r s =
     (case r of None \<Rightarrow> illegal inst s | Some v \<Rightarrow> fp_retire (cpu_pc s + 4) (inst_rd inst) v s)"

subsection \<open>OP-FP\<close>

definition fp_enabled :: "cpu \<Rightarrow> bool" where
  "fp_enabled s \<longleftrightarrow> drop_bit 13 (read_csr MSTATUS s) AND 0x3 \<noteq> 0"

definition exec_fp_convert :: "u32 \<Rightarrow> unit hart" where
  "exec_fp_convert inst s =
     (let a = cpu_f_regs s (inst_rs1 inst); nan = cpu_nans s 0 in
      if inst_funct7 inst = 0x20 then
        (if inst_rs2 inst = 1 then
           fp_retire (cpu_pc s + 4) (inst_rd inst) (box_f32 (fp_convert f64 f32 (ucast nan) a)) (next_nan s)
         else illegal inst s)
      else
        (if inst_rs2 inst = 0 then
           fp_retire (cpu_pc s + 4) (inst_rd inst) (fp_convert f32 f64 nan (unbox_f32 a)) (next_nan s)
         else illegal inst s))"

definition exec_fp :: "u32 \<Rightarrow> unit hart" where
  "exec_fp inst s =
     (let f7 = inst_funct7 inst; f3 = inst_funct3 inst; rs2 = inst_rs2 inst;
          a = cpu_f_regs s (inst_rs1 inst); b = cpu_f_regs s rs2;
          sa = unbox_f32 a; sb = unbox_f32 b; x = read_reg (inst_rs1 inst) s in
      if \<not> fp_enabled s then illegal inst s
      else
        (case (fp_arith_d f7, fp_arith_s f7) of
           (Some f, _) \<Rightarrow> fp_option inst (Some (f (cpu_nans s 0) a b)) (next_nan s)
         | (_, Some f) \<Rightarrow> fp_option inst (Some (box_f32 (f (ucast (cpu_nans s 0)) sa sb))) (next_nan s)
         | _ \<Rightarrow>
           if f7 = 0x2D \<or> f7 = 0x2C then exec_fp_sqrt inst s
           else if f7 = 0x11 then fp_option inst (sgnj_d f3 a b) s
           else if f7 = 0x10 then fp_option inst (map_option box_f32 (sgnj_s f3 (ucast a) (ucast b))) s
           else if f7 = 0x15 then fp_option inst (minmax f64 0x7FF8000000000000 f3 a b) s
           else if f7 = 0x14 then fp_option inst (map_option box_f32 (minmax f32 0x7FC00000 f3 sa sb)) s
           else if f7 = 0x51 then exec_result inst (compare_fp f64 f3 a b) s
           else if f7 = 0x50 then exec_result inst (compare_fp f32 f3 sa sb) s
           else if f7 = 0x61 then exec_result inst (cvt_to_int f64 rs2 a) s
           else if f7 = 0x69 then fp_option inst (cvt_of_int f64 rs2 x) s
           else if f7 = 0x60 then exec_result inst (cvt_to_int f32 rs2 sa) s
           else if f7 = 0x68 then fp_option inst (map_option box_f32 (cvt_of_int f32 rs2 x)) s
           else if f7 = 0x20 \<or> f7 = 0x21 then exec_fp_convert inst s
           else if f7 = 0x71 \<or> f7 = 0x70 then exec_fp_move_class inst s
           else if f7 = 0x78 then
             (if f3 = 0x0 \<and> rs2 = 0x0 then fp_option inst (Some (box_f32 (ucast x))) s else illegal inst s)
           else if f7 = 0x79 then
             (if f3 = 0x0 \<and> rs2 = 0x0 then fp_option inst (Some x) s else illegal inst s)
           else illegal inst s))"

subsection \<open>Fused multiply-add\<close>

definition fused :: "fp_format \<Rightarrow> u32 \<Rightarrow> 'a::len word \<Rightarrow> 'a word \<Rightarrow> 'a word \<Rightarrow> 'a word \<Rightarrow> 'a word" where
  "fused F opcode nan a b c =
     (if opcode = 0x43 then fp_fma F nan a b c
      else if opcode = 0x47 then fp_fma F nan a b (fp_neg F c)
      else if opcode = 0x4B then fp_fma F nan (fp_neg F a) b c
      else fp_fma F nan (fp_neg F a) b (fp_neg F c))"

definition exec_fma :: "u32 \<Rightarrow> unit hart" where
  "exec_fma inst s =
     (let rs3 = ucast (drop_bit 27 inst AND 0x1F) :: u5; fmt = drop_bit 25 inst AND 0x3; opcode = inst_opcode inst;
          a = cpu_f_regs s (inst_rs1 inst); b = cpu_f_regs s (inst_rs2 inst); c = cpu_f_regs s rs3;
          nan = cpu_nans s 0 in
      if \<not> fp_enabled s then illegal inst s
      else if fmt = 0x00 then
        fp_option inst (Some (box_f32 (fused f32 opcode (ucast nan) (unbox_f32 a) (unbox_f32 b) (unbox_f32 c)))) (next_nan s)
      else if fmt = 0x01 then fp_option inst (Some (fused f64 opcode nan a b c)) (next_nan s)
      else illegal inst s)"

end
