(* ===== verification/Compressed.thy ===== *)
theory Compressed
  imports Exec
begin

text \<open>
  \<open>execute_compressed\<close> of \<open>src/src/cpu.rs\<close>: the 16-bit instructions, by quadrant. The
  immediates are assembled from the fields in 16 bits, as in the code; a signed one is moved
  to the top of 32 bits and shifted back arithmetically.
\<close>

definition c_illegal :: "u16 \<Rightarrow> 'a hart" where
  "c_illegal inst = failS (Exception IllegalInstruction, ucast inst)"

text \<open>A bit field of the instruction, \<open>(inst >> n) & m\<close>.\<close>

abbreviation field :: "u16 \<Rightarrow> nat \<Rightarrow> u16 \<Rightarrow> u16" where
  "field inst n m \<equiv> drop_bit n inst AND m"

definition reg_p :: "u16 \<Rightarrow> nat \<Rightarrow> u5" where
  "reg_p inst n = ucast (field inst n 0x7) + 8"

definition reg_full :: "u16 \<Rightarrow> nat \<Rightarrow> u5" where
  "reg_full inst n = ucast (field inst n 0x1F)"

text \<open>\<open>((imm as i32) << n >> n) as i64 as u64\<close>.\<close>

definition sign_from :: "nat \<Rightarrow> u32 \<Rightarrow> u64" where
  "sign_from n imm = scast (signed_drop_bit n (push_bit n imm))"

subsection \<open>Immediates\<close>

definition imm_ci :: "u16 \<Rightarrow> u16" where
  "imm_ci inst = push_bit 5 (field inst 12 0x1) OR field inst 2 0x1F"

definition imm_ci_signed :: "u16 \<Rightarrow> u64" where
  "imm_ci_signed inst = sign_from 26 (ucast (imm_ci inst))"

definition imm_addi4spn :: "u16 \<Rightarrow> u16" where
  "imm_addi4spn inst =
     push_bit 4 (field inst 11 0x3) OR push_bit 6 (field inst 7 0xF) OR push_bit 2 (field inst 6 0x1) OR
     push_bit 3 (field inst 5 0x1)"

definition imm_cl_w :: "u16 \<Rightarrow> u16" where
  "imm_cl_w inst =
     push_bit 3 (field inst 10 0x7) OR push_bit 2 (field inst 6 0x1) OR push_bit 6 (field inst 5 0x1)"

definition imm_cl_d :: "u16 \<Rightarrow> u16" where
  "imm_cl_d inst = push_bit 3 (field inst 10 0x7) OR push_bit 6 (field inst 5 0x3)"

definition imm_addi16sp :: "u16 \<Rightarrow> u64" where
  "imm_addi16sp inst = sign_from 22 (ucast
     (push_bit 9 (field inst 12 0x1) OR push_bit 4 (field inst 6 0x1) OR push_bit 6 (field inst 5 0x1) OR
      push_bit 7 (field inst 3 0x3) OR push_bit 5 (field inst 2 0x1)))"

definition imm_c_lui :: "u16 \<Rightarrow> u64" where
  "imm_c_lui inst = sign_from 14
     (push_bit 17 (drop_bit 12 (ucast inst) AND 0x1) OR push_bit 12 (drop_bit 2 (ucast inst) AND 0x1F))"

definition imm_cj :: "u16 \<Rightarrow> u64" where
  "imm_cj inst = sign_from 20 (ucast
     (push_bit 11 (field inst 12 0x1) OR push_bit 4 (field inst 11 0x1) OR push_bit 8 (field inst 9 0x3) OR
      push_bit 10 (field inst 8 0x1) OR push_bit 6 (field inst 7 0x1) OR push_bit 7 (field inst 6 0x1) OR
      push_bit 1 (field inst 3 0x7) OR push_bit 5 (field inst 2 0x1)))"

definition imm_cb :: "u16 \<Rightarrow> u64" where
  "imm_cb inst = sign_from 23 (ucast
     (push_bit 8 (field inst 12 0x1) OR push_bit 3 (field inst 10 0x3) OR push_bit 6 (field inst 5 0x3) OR
      push_bit 1 (field inst 3 0x3) OR push_bit 5 (field inst 2 0x1)))"

definition imm_lwsp :: "u16 \<Rightarrow> u16" where
  "imm_lwsp inst = push_bit 5 (field inst 12 0x1) OR push_bit 2 (field inst 4 0x7) OR push_bit 6 (field inst 2 0x3)"

definition imm_ldsp :: "u16 \<Rightarrow> u16" where
  "imm_ldsp inst = push_bit 5 (field inst 12 0x1) OR push_bit 3 (field inst 5 0x3) OR push_bit 6 (field inst 2 0x7)"

definition imm_swsp :: "u16 \<Rightarrow> u16" where
  "imm_swsp inst = push_bit 2 (field inst 9 0xF) OR push_bit 6 (field inst 7 0x3)"

definition imm_sdsp :: "u16 \<Rightarrow> u16" where
  "imm_sdsp inst = push_bit 3 (field inst 10 0x7) OR push_bit 6 (field inst 7 0x7)"

subsection \<open>Loads and stores\<close>

text \<open>The shapes the arms of the three quadrants share.\<close>

definition c_load :: "u64 \<Rightarrow> u64 \<Rightarrow> u5 \<Rightarrow> unit hart" where
  "c_load va sz rd s =
     (let next_pc = cpu_pc s + 2 in
      bindS (if sz = 4 then mapS (\<lambda>v. sext32 (ucast v)) (load_va va 4) else load_va va 8)
        (retire next_pc rd) s)"

definition c_load_fp :: "u64 \<Rightarrow> u5 \<Rightarrow> unit hart" where
  "c_load_fp va rd s =
     (let next_pc = cpu_pc s + 2 in
      bindS (load_va va 8) (\<lambda>v s. (Ok (), goto next_pc (set_fs_dirty (write_freg rd v s)))) s)"

definition c_store :: "u64 \<Rightarrow> u64 \<Rightarrow> u64 \<Rightarrow> unit hart" where
  "c_store va v sz s =
     (let next_pc = cpu_pc s + 2 in
      bindS (store_va va v sz) (\<lambda>_ s. (Ok (), goto next_pc (clear_reservation s))) s)"

subsection \<open>Quadrant 0\<close>

definition exec_c0 :: "u16 \<Rightarrow> unit hart" where
  "exec_c0 inst s =
     (let f3 = field inst 13 0x7; next_pc = cpu_pc s + 2;
          rd_p = reg_p inst 2; base = read_reg (reg_p inst 7) s in
      if f3 = 0 then
        (let imm = imm_addi4spn inst in
         if imm = 0 then c_illegal inst s
         else retire next_pc rd_p (read_reg 2 s + ucast imm) s)
      else if f3 = 1 then c_load_fp (base + ucast (imm_cl_d inst)) rd_p s
      else if f3 = 2 then c_load (base + ucast (imm_cl_w inst)) 4 rd_p s
      else if f3 = 3 then c_load (base + ucast (imm_cl_d inst)) 8 rd_p s
      else if f3 = 5 then c_store (base + ucast (imm_cl_d inst)) (cpu_f_regs s rd_p) 8 s
      else if f3 = 6 then c_store (base + ucast (imm_cl_w inst)) (read_reg rd_p s) 4 s
      else if f3 = 7 then c_store (base + ucast (imm_cl_d inst)) (read_reg rd_p s) 8 s
      else c_illegal inst s)"

subsection \<open>Quadrant 1\<close>

definition exec_c1_arith :: "u16 \<Rightarrow> unit hart" where
  "exec_c1_arith inst s =
     (let funct2 = field inst 10 0x3; rd_p = reg_p inst 7; next_pc = cpu_pc s + 2;
          a = read_reg rd_p s; shamt = unat (imm_ci inst) in
      if funct2 = 0 then retire next_pc rd_p (drop_bit shamt a) s
      else if funct2 = 1 then retire next_pc rd_p (signed_drop_bit shamt a) s
      else if funct2 = 2 then retire next_pc rd_p (a AND imm_ci_signed inst) s
      else
        (let funct1 = field inst 12 0x1; funct2_low = field inst 5 0x3; b = read_reg (reg_p inst 2) s in
         if funct1 = 0 \<and> funct2_low = 0 then retire next_pc rd_p (a - b) s
         else if funct1 = 0 \<and> funct2_low = 1 then retire next_pc rd_p (a XOR b) s
         else if funct1 = 0 \<and> funct2_low = 2 then retire next_pc rd_p (a OR b) s
         else if funct1 = 0 \<and> funct2_low = 3 then retire next_pc rd_p (a AND b) s
         else if funct1 = 1 \<and> funct2_low = 0 then retire next_pc rd_p (sext32 (ucast a - ucast b)) s
         else if funct1 = 1 \<and> funct2_low = 1 then retire next_pc rd_p (sext32 (ucast a + ucast b)) s
         else c_illegal inst s))"

definition exec_c1 :: "u16 \<Rightarrow> unit hart" where
  "exec_c1 inst s =
     (let f3 = field inst 13 0x7; next_pc = cpu_pc s + 2; rd = reg_full inst 7 in
      if f3 = 0 then
        (if rd = 0 then (Ok (), goto next_pc s)
         else retire next_pc rd (read_reg rd s + imm_ci_signed inst) s)
      else if f3 = 1 then retire next_pc rd (sext32 (ucast (read_reg rd s) + ucast (imm_ci_signed inst))) s
      else if f3 = 2 then retire next_pc rd (imm_ci_signed inst) s
      else if f3 = 3 then
        (if rd = 2 then retire next_pc 2 (read_reg 2 s + imm_addi16sp inst) s
         else retire next_pc rd (imm_c_lui inst) s)
      else if f3 = 4 then exec_c1_arith inst s
      else if f3 = 5 then (Ok (), goto (cpu_pc s + imm_cj inst) s)
      else if f3 = 6 then
        (Ok (), goto (if read_reg (reg_p inst 7) s = 0 then cpu_pc s + imm_cb inst else next_pc) s)
      else (Ok (), goto (if read_reg (reg_p inst 7) s \<noteq> 0 then cpu_pc s + imm_cb inst else next_pc) s))"

subsection \<open>Quadrant 2\<close>

text \<open>C.JALR writes \<open>ra\<close> before it reads its target register.\<close>

definition exec_c2_jump :: "u16 \<Rightarrow> unit hart" where
  "exec_c2_jump inst s =
     (let rs1 = reg_full inst 7; rs2 = reg_full inst 2; next_pc = cpu_pc s + 2 in
      if field inst 12 0x1 = 0 then
        (if rs2 = 0 then (Ok (), goto (read_reg rs1 s) s)
         else retire next_pc rs1 (read_reg rs2 s) s)
      else if rs2 = 0 then
        (if rs1 = 0 then (Err (Exception Breakpoint, cpu_pc s), s)
         else (let s1 = write_reg 1 next_pc s in (Ok (), goto (read_reg rs1 s1) s1)))
      else retire next_pc rs1 (read_reg rs1 s + read_reg rs2 s) s)"

definition exec_c2 :: "u16 \<Rightarrow> unit hart" where
  "exec_c2 inst s =
     (let f3 = field inst 13 0x7; next_pc = cpu_pc s + 2; rd = reg_full inst 7; rs2 = reg_full inst 2;
          sp = read_reg 2 s in
      if f3 = 0 then retire next_pc rd (push_bit (unat (imm_ci inst)) (read_reg rd s)) s
      else if f3 = 1 then c_load_fp (sp + ucast (imm_ldsp inst)) rd s
      else if f3 = 2 then
        (if rd = 0 then c_illegal inst s else c_load (sp + ucast (imm_lwsp inst)) 4 rd s)
      else if f3 = 3 then
        (if rd = 0 then c_illegal inst s else c_load (sp + ucast (imm_ldsp inst)) 8 rd s)
      else if f3 = 5 then c_store (sp + ucast (imm_sdsp inst)) (cpu_f_regs s rs2) 8 s
      else if f3 = 6 then c_store (sp + ucast (imm_swsp inst)) (read_reg rs2 s) 4 s
      else if f3 = 4 then exec_c2_jump inst s
      else c_store (sp + ucast (imm_sdsp inst)) (read_reg rs2 s) 8 s)"

definition execute_compressed :: "u16 \<Rightarrow> unit hart" where
  "execute_compressed inst =
     (let opcode = inst AND 0x3 in
      if opcode = 0 then exec_c0 inst
      else if opcode = 1 then exec_c1 inst
      else if opcode = 2 then exec_c2 inst
      else c_illegal inst)"

end
