(* ===== verification/Step.thy ===== *)
theory Step
  imports HartMem FpExec Compressed
begin

text \<open>
  \<open>execute\<close> and \<open>step\<close> of \<open>src/src/cpu.rs\<close>: the dispatch on the opcode, and one turn of the
  hart, interrupt check, fetch, execution, each ending in the trap handler when it fails.
\<close>

definition execute :: "u32 \<Rightarrow> unit hart" where
  "execute inst =
     (let inst_len = (if inst AND 0x3 \<noteq> 0x3 then 2 else 4 :: nat); opcode = inst_opcode inst in
      if inst_len = 2 then execute_compressed (ucast inst)
      else if opcode = 0x37 then exec_lui inst
      else if opcode = 0x17 then exec_auipc inst
      else if opcode = 0x6F then exec_jal inst
      else if opcode = 0x67 then exec_jalr inst
      else if opcode = 0x63 then exec_branch inst
      else if opcode = 0x03 then exec_load inst
      else if opcode = 0x07 then exec_load_fp inst
      else if opcode = 0x23 then exec_store inst
      else if opcode = 0x27 then exec_store_fp inst
      else if opcode = 0x13 then exec_op_imm inst
      else if opcode = 0x33 then exec_op inst
      else if opcode = 0x1B then exec_op_imm_32 inst
      else if opcode = 0x3B then exec_op_32 inst
      else if opcode = 0x0F then exec_misc_mem inst
      else if opcode = 0x2F then exec_amo inst
      else if opcode = 0x73 then exec_system inst
      else if opcode = 0x53 then exec_fp inst
      else if opcode = 0x43 \<or> opcode = 0x47 \<or> opcode = 0x4B \<or> opcode = 0x4F then exec_fma inst
      else illegal inst)"

text \<open>
  \<open>step\<close> returns \<open>Ok(())\<close> whatever happens: a failure of a phase is handed to the trap
  handler. A panic of a device or of the instruction counter ends the program.
\<close>

definition step :: "(cpu, unit, trap) comp" where
  "step s0 =
     bindS (liftR (add_ck (cpu_inst_count s0) 1)) (\<lambda>n s00.
       (let s = s00\<lparr>cpu_inst_count := n\<rparr> in
        case check_interrupt s of
          (Panic, s1) \<Rightarrow> (Panic, s1)
        | (Err trap, s1) \<Rightarrow> (Ok (), handle_trap trap 0 s1)
        | (Ok _, s1) \<Rightarrow>
            (case fetch s1 of
               (Panic, s2) \<Rightarrow> (Panic, s2)
             | (Err (trap, tval), s2) \<Rightarrow> (Ok (), handle_trap trap tval s2)
             | (Ok inst, s2) \<Rightarrow>
                 (case execute inst s2 of
                    (Panic, s3) \<Rightarrow> (Panic, s3)
                  | (Err (trap, tval), s3) \<Rightarrow> (Ok (), handle_trap trap tval s3)
                  | (Ok _, s3) \<Rightarrow> (Ok (), s3))))) s0"

end
