(* ===== verification/Moves.thy ===== *)
theory Moves
  imports Step
begin

text \<open>
  The moves of the hart. Whatever \<open>execute\<close>, \<open>fetch\<close> and the interrupt check of
  \<open>src/src/cpu.rs\<close> do to the state is a sequence of the moves below: a register written, an
  access of the bus, a CSR the instruction may write, and so on. An invariant of the machine,
  or a limit of what an instruction can touch, is proved by looking at the moves.
\<close>

text \<open>
  \<open>W\<close> says which CSRs the instruction may write, \<open>R\<close> whether it may change the mode, \<open>V\<close>
  whether it may set or drop the reservation. Marking
  the floating-point state dirty is a move of its own: it is the only write of MSTATUS
  outside the CSR instructions and the returns.
\<close>

inductive hart_move :: "(u16 \<Rightarrow> bool) \<Rightarrow> bool \<Rightarrow> bool \<Rightarrow> cpu \<Rightarrow> cpu \<Rightarrow> bool" for W R V where
  to_reg: "hart_move W R V s (write_reg r v s)"
| to_freg: "hart_move W R V s (write_freg r v s)"
| to_csr: "W a \<Longrightarrow> hart_move W R V s (write_csr a v s)"
| fs_dirty: "hart_move W R V s (set_fs_dirty s)"
| to_pc: "hart_move W R V s (goto a s)"
| to_mode: "R \<Longrightarrow> hart_move W R V s (s\<lparr>cpu_mode := m\<rparr>)"
| to_reservation: "V \<Longrightarrow> hart_move W R V s (s\<lparr>cpu_reservation := r\<rparr>)"
| to_nans: "hart_move W R V s (s\<lparr>cpu_nans := n\<rparr>)"
| to_bus: "bus_effect (cpu_bus s) b \<Longrightarrow> hart_move W R V s (s\<lparr>cpu_bus := b\<rparr>)"
| to_irq: "hart_move W R V s (s\<lparr>cpu_bus := update_uart_irq (cpu_bus s)\<rparr>)"
| to_stimecmp: "W STIMECMP \<Longrightarrow> hart_move W R V s (set_stimecmp v s)"

abbreviation moves :: "(u16 \<Rightarrow> bool) \<Rightarrow> bool \<Rightarrow> bool \<Rightarrow> cpu \<Rightarrow> cpu \<Rightarrow> bool" where
  "moves W R V \<equiv> (hart_move W R V)\<^sup>*\<^sup>*"

named_theorems moves_intro \<open>the moves of an operation, from the outside in\<close>

lemma moves_step: "moves W R V s s' \<Longrightarrow> hart_move W R V s' s'' \<Longrightarrow> moves W R V s s''"
  by (rule rtranclp.rtrancl_into_rtrancl)

lemma moves_updates [moves_intro]:
  "moves W R V s s' \<Longrightarrow> moves W R V s (write_reg r v s')"
  "moves W R V s s' \<Longrightarrow> moves W R V s (write_freg r v s')"
  "moves W R V s s' \<Longrightarrow> moves W R V s (set_fs_dirty s')"
  "moves W R V s s' \<Longrightarrow> moves W R V s (goto a s')"
  "moves W R V s s' \<Longrightarrow> moves W R V s (next_nan s')"
  by (auto simp: next_nan_def intro: moves_step hart_move.intros)

lemma moves_restricted:
  "W a \<Longrightarrow> moves W R V s s' \<Longrightarrow> moves W R V s (write_csr a v s')"
  "W STIMECMP \<Longrightarrow> moves W R V s s' \<Longrightarrow> moves W R V s (set_stimecmp v s')"
  "R \<Longrightarrow> moves W R V s s' \<Longrightarrow> moves W R V s (s'\<lparr>cpu_mode := m\<rparr>)"
  "V \<Longrightarrow> moves W R V s s' \<Longrightarrow> moves W R V s (clear_reservation s')"
  "V \<Longrightarrow> moves W R V s s' \<Longrightarrow> moves W R V s (set_reservation pa s')"
  by (auto simp: clear_reservation_def set_reservation_def intro: moves_step hart_move.intros)

lemma moves_bus: "bus_effect\<^sup>*\<^sup>* (cpu_bus s') b \<Longrightarrow> moves W R V s s' \<Longrightarrow> moves W R V s (s'\<lparr>cpu_bus := b\<rparr>)"
proof (induction rule: rtranclp_induct)
  case base
  then show ?case by simp
next
  case (step b c)
  have "hart_move W R V (s'\<lparr>cpu_bus := b\<rparr>) (s'\<lparr>cpu_bus := b\<rparr>\<lparr>cpu_bus := c\<rparr>)"
    using step.hyps by (intro hart_move.to_bus) simp
  with step show ?case by (auto intro: moves_step)
qed

subsection \<open>Through the combinators\<close>

lemma moves_bindS [moves_intro]:
  "moves W R V s (snd (m s')) \<Longrightarrow> (\<And>a t. moves W R V s t \<Longrightarrow> moves W R V s (snd (f a t))) \<Longrightarrow>
   moves W R V s (snd (bindS m f s'))"
  by (rule bindS_inv) auto

lemma moves_pair [moves_intro]: "moves W R V s t \<Longrightarrow> moves W R V s (snd (r, t))"
  by simp

lemma moves_if [moves_intro]:
  "(c \<Longrightarrow> moves W R V s (snd A)) \<Longrightarrow> (\<not> c \<Longrightarrow> moves W R V s (snd B)) \<Longrightarrow> moves W R V s (snd (if c then A else B))"
  "(c \<Longrightarrow> moves W R V s (snd (f t))) \<Longrightarrow> (\<not> c \<Longrightarrow> moves W R V s (snd (g t))) \<Longrightarrow>
   moves W R V s (snd ((if c then f else g) t))"
  "(c \<Longrightarrow> moves W R V s (snd (zoom_bus m t))) \<Longrightarrow> (\<not> c \<Longrightarrow> moves W R V s (snd (zoom_bus m' t))) \<Longrightarrow>
   moves W R V s (snd (zoom_bus (if c then m else m') t))"
  "(c \<Longrightarrow> moves W R V s t) \<Longrightarrow> (\<not> c \<Longrightarrow> moves W R V s t') \<Longrightarrow> moves W R V s (if c then t else t')"
  by simp_all

lemma moves_option [moves_intro]:
  "moves W R V s (snd A) \<Longrightarrow> (\<And>x. moves W R V s (snd (B x))) \<Longrightarrow>
   moves W R V s (snd (case x of None \<Rightarrow> A | Some x \<Rightarrow> B x))"
  "moves W R V s (snd (f t)) \<Longrightarrow> (\<And>x. moves W R V s (snd (g x t))) \<Longrightarrow>
   moves W R V s (snd ((case x of None \<Rightarrow> f | Some x \<Rightarrow> g x) t))"
  by (cases x; simp)+

lemma moves_wrappers [moves_intro]:
  "moves W R V s (snd (m t)) \<Longrightarrow> moves W R V s (snd (mapS g m t))"
  "moves W R V s (snd (m t)) \<Longrightarrow> moves W R V s (snd (map_errS h m t))"
  "moves W R V s (snd (m t)) \<Longrightarrow> moves W R V s (snd (unwrap_orS d m t))"
  by simp_all

lemma moves_results [moves_intro]:
  "moves W R V s t \<Longrightarrow> moves W R V s (snd (returnS a t))"
  "moves W R V s t \<Longrightarrow> moves W R V s (snd (failS e t))"
  "moves W R V s t \<Longrightarrow> moves W R V s (snd (illegal i t))"
  "moves W R V s t \<Longrightarrow> moves W R V s (snd (c_illegal c t))"
  "moves W R V s t \<Longrightarrow> moves W R V s (snd (retire pc r v t))"
  "moves W R V s t \<Longrightarrow> moves W R V s (snd (fp_retire pc r v t))"
  by (auto simp: illegal_def c_illegal_def retire_def fp_retire_def intro: moves_updates)

lemma moves_zoom:
  "bus_effect\<^sup>*\<^sup>* (cpu_bus t) (snd (m (cpu_bus t))) \<Longrightarrow> moves W R V s t \<Longrightarrow> moves W R V s (snd (zoom_bus m t))"
  by (simp add: zoom_bus_def moves_bus)

lemma moves_accesses [moves_intro]:
  "moves W R V s t \<Longrightarrow> moves W R V s (snd (zoom_bus (bus_read8 a) t))"
  "moves W R V s t \<Longrightarrow> moves W R V s (snd (zoom_bus (bus_read16 a) t))"
  "moves W R V s t \<Longrightarrow> moves W R V s (snd (zoom_bus (bus_read32 a) t))"
  "moves W R V s t \<Longrightarrow> moves W R V s (snd (zoom_bus (bus_read64 a) t))"
  "moves W R V s t \<Longrightarrow> moves W R V s (snd (zoom_bus (bus_write8 a v8) t))"
  "moves W R V s t \<Longrightarrow> moves W R V s (snd (zoom_bus (bus_write16 a v16) t))"
  "moves W R V s t \<Longrightarrow> moves W R V s (snd (zoom_bus (bus_write32 a v32) t))"
  "moves W R V s t \<Longrightarrow> moves W R V s (snd (zoom_bus (bus_write64 a v64) t))"
  by (rule moves_zoom [OF r_into_rtranclp]; simp add: bus_read_effect bus_write_effect)+

subsection \<open>Translation and memory\<close>

lemma walk_effects: "bus_effect\<^sup>*\<^sup>* s0 s \<Longrightarrow> bus_effect\<^sup>*\<^sup>* s0 (snd (walk va acc m ms n base s))"
proof (induction n arbitrary: base s)
  case 0
  then show ?case by simp
next
  case (Suc level)
  obtain r s1 where read: "bus_read64 (base + vpn va level * 8) s = (r, s1)" by fastforce
  have s1: "bus_effect\<^sup>*\<^sup>* s0 s1"
    using Suc.prems bus_read_effect(1) [of s "base + vpn va level * 8"] read by (auto intro: rtranclp.rtrancl_into_rtrancl)
  have w: "bus_effect\<^sup>*\<^sup>* s0 (snd (bus_write64 a v s1))" for a v
    using s1 bus_write_effect(1) [of s1 a v] by (rule rtranclp.rtrancl_into_rtrancl)
  show ?case
    using s1 Suc.IH [OF s1] w
    by (auto simp: read Let_def split: result.splits option.splits prod.splits) (metis snd_conv)+
qed

lemma translate_effects: "bus_effect\<^sup>*\<^sup>* s (snd (translate va acc m satp ms s))"
  by (simp add: translate_def translate_sv39_def translate_sv48_def translate_sv57_def Let_def walk_effects)

lemma moves_translate [moves_intro]: "moves W R V s t \<Longrightarrow> moves W R V s (snd (translate_at va acc tval t))"
  unfolding translate_at_def
  by (intro moves_wrappers moves_zoom translate_effects)

lemma moves_bus_load [moves_intro]: "moves W R V s t \<Longrightarrow> moves W R V s (snd (zoom_bus (bus_load sz a) t))"
  by (rule moves_zoom) (auto simp: bus_load_def bus_read_effect)

lemma moves_bus_store [moves_intro]: "moves W R V s t \<Longrightarrow> moves W R V s (snd (zoom_bus (bus_store sz a v) t))"
  by (rule moves_zoom) (auto simp: bus_store_def bus_write_effect)

lemma moves_load_bytes: "moves W R V s t \<Longrightarrow> moves W R V s (snd (load_bytes va n i acc t))"
  by (induction va n i acc arbitrary: t rule: load_bytes.induct; simp only: load_bytes.simps) (intro moves_intro; simp)+

lemma moves_store_bytes: "moves W R V s t \<Longrightarrow> moves W R V s (snd (store_bytes va v n i t))"
  by (induction va v n i arbitrary: t rule: store_bytes.induct; simp only: store_bytes.simps) (intro moves_intro; simp)+

lemma moves_memory [moves_intro]:
  "moves W R V s t \<Longrightarrow> moves W R V s (snd (load_va va n t))"
  "moves W R V s t \<Longrightarrow> moves W R V s (snd (store_va va v n t))"
  unfolding load_va_def store_va_def
  by (intro moves_intro moves_load_bytes moves_store_bytes; simp)+

lemma moves_fetch: "moves W R V s t \<Longrightarrow> moves W R V s (snd (fetch t))"
  unfolding fetch_def Let_def by (intro moves_intro; simp)


subsection \<open>The instructions\<close>

lemma moves_refl [moves_intro]: "moves W R V s s"
  by simp

lemma moves_cbo_zero [moves_intro]: "moves W R V s t \<Longrightarrow> moves W R V s (snd (cbo_zero pa is t))"
  by (induction pa "is" arbitrary: t rule: cbo_zero.induct; simp only: cbo_zero.simps) (intro moves_intro; simp)+

lemma moves_arith:
  "moves W R V s (snd (exec_lui i s))" "moves W R V s (snd (exec_auipc i s))" "moves W R V s (snd (exec_jal i s))"
  "moves W R V s (snd (exec_jalr i s))" "moves W R V s (snd (exec_branch i s))" "moves W R V s (snd (exec_result i r s))"
  "moves W R V s (snd (exec_op_imm i s))" "moves W R V s (snd (exec_op i s))" "moves W R V s (snd (exec_op_imm_32 i s))"
  "moves W R V s (snd (exec_op_32 i s))"
  unfolding exec_lui_def exec_auipc_def exec_jal_def exec_jalr_def exec_branch_def exec_result_def exec_op_imm_def
    exec_op_def exec_op_imm_32_def exec_op_32_def Let_def
  by (intro moves_intro)+

lemma moves_load:
  "moves W R V s (snd (exec_load i s))" "moves W R V s (snd (exec_load_fp i s))" "moves W R V s (snd (exec_misc_mem i s))"
  unfolding exec_load_def exec_load_fp_def exec_misc_mem_def Let_def
  by (intro moves_intro; assumption?)+

lemma moves_store:
  assumes V shows "moves W R V s (snd (exec_store i s))" "moves W R V s (snd (exec_store_fp i s))"
  unfolding exec_store_def exec_store_fp_def Let_def
  by (intro moves_intro moves_restricted assms; assumption?)+

lemma moves_amo: assumes V shows "moves W R V s (snd (exec_amo i s))"
  unfolding exec_amo_def amo_word_def amo_double_def exec_lr_def exec_sc_def Let_def
  by (intro moves_intro moves_restricted assms; assumption?)

lemma moves_fp:
  "moves W R V s (snd (exec_fp i s))" "moves W R V s (snd (exec_fma i s))"
  unfolding exec_fp_def exec_fma_def exec_fp_sqrt_def fp_option_def exec_result_def exec_fp_convert_def exec_fp_move_class_def Let_def
    prod.case
  by (intro moves_intro; assumption?)+

text \<open>The compressed stores: quadrants 0 and 2, \<open>funct3\<close> 5 to 7.\<close>

definition c_stores :: "u16 \<Rightarrow> bool" where
  "c_stores c \<longleftrightarrow> c AND 0x3 \<in> {0, 2} \<and> field c 13 0x7 \<in> {5, 6, 7}"

lemma field_cases: "x AND 0x7 = 0 \<or> x AND 0x7 = 1 \<or> x AND 0x7 = 2 \<or> x AND 0x7 = 3 \<or> x AND 0x7 = 4 \<or>
    x AND 0x7 = 5 \<or> x AND 0x7 = 6 \<or> x AND 0x7 = 7" for x :: u16
proof -
  have "unat (x AND 0x7) \<le> 7" using unat_and_mask_le [of x 7] by simp
  then have "unat (x AND 0x7) \<in> {0, 1, 2, 3, 4, 5, 6, 7}" by auto
  then show ?thesis by (simp add: word_unat_eq_iff [of "x AND 0x7"])
qed

lemma moves_c_quadrants:
  "(field c 13 0x7 \<in> {5, 6, 7} \<Longrightarrow> V) \<Longrightarrow> moves W R V s (snd (exec_c0 c s))"
  "moves W R V s (snd (exec_c1 c s))"
  "(field c 13 0x7 \<in> {5, 6, 7} \<Longrightarrow> V) \<Longrightarrow> moves W R V s (snd (exec_c2 c s))"
proof -
  show "(field c 13 0x7 \<in> {5, 6, 7} \<Longrightarrow> V) \<Longrightarrow> moves W R V s (snd (exec_c0 c s))"
    unfolding exec_c0_def c_load_def c_load_fp_def c_store_def Let_def
    by (intro moves_intro moves_restricted; (assumption | simp)?)
  show "moves W R V s (snd (exec_c1 c s))"
    unfolding exec_c1_def exec_c1_arith_def Let_def by (intro moves_intro)
  show "(field c 13 0x7 \<in> {5, 6, 7} \<Longrightarrow> V) \<Longrightarrow> moves W R V s (snd (exec_c2 c s))"
    using field_cases [of "drop_bit 13 c"]
    unfolding exec_c2_def exec_c2_jump_def c_load_def c_load_fp_def c_store_def Let_def
    by (intro moves_intro moves_restricted; (assumption | simp)?)
qed

lemma moves_compressed: "(c_stores c \<Longrightarrow> V) \<Longrightarrow> moves W R V s (snd (execute_compressed c s))"
  unfolding execute_compressed_def Let_def
  by (intro moves_intro moves_c_quadrants; simp add: c_stores_def)

text \<open>A CSR instruction writes only where the access checks let the current mode write.\<close>

definition csr_writable :: "mode \<Rightarrow> u16 \<Rightarrow> bool" where
  "csr_writable m a \<longleftrightarrow> is_valid_csr a \<and> check_csr_privilege a (ucast (mode_bits m)) True"

lemma csr_allowed_writable: "csr_allowed i True s \<longleftrightarrow> csr_writable (cpu_mode s) (csr_addr i)"
  by (simp add: csr_allowed_def csr_writable_def)

lemma moves_csr_atomic:
  "W a \<Longrightarrow> moves W R V s t \<Longrightarrow> moves W R V s (snd (csr_atomic (\<lambda>c. csrrw c a v) t))"
  "(v \<noteq> 0 \<Longrightarrow> W a) \<Longrightarrow> moves W R V s t \<Longrightarrow> moves W R V s (snd (csr_atomic (\<lambda>c. csrrs c a v) t))"
  "(v \<noteq> 0 \<Longrightarrow> W a) \<Longrightarrow> moves W R V s t \<Longrightarrow> moves W R V s (snd (csr_atomic (\<lambda>c. csrrc c a v) t))"
  using moves_restricted(1) [of W a R V s t]
  by (auto simp: csr_atomic_def csrrw_def csrrs_def csrrc_def Let_def write_csr_def)

lemma moves_read_time [moves_intro]: "moves W R V s t \<Longrightarrow> moves W R V s (snd (read_time t))"
  unfolding read_time_def by (intro moves_intro)

lemma moves_csrrw:
  assumes "\<And>a. csr_writable (cpu_mode s) a \<Longrightarrow> W a"
  shows "moves W R V s (snd (exec_csrrw i s))" "moves W R V s (snd (exec_csrrwi i s))"
  using assms [of "csr_addr i"]
  unfolding exec_csrrw_def exec_csrrwi_def Let_def csr_allowed_writable
  by (intro moves_intro moves_csr_atomic moves_restricted; simp)+

lemma moves_csr_bits:
  assumes "\<And>a. csr_writable (cpu_mode s) a \<Longrightarrow> W a" and "inst_rs1 i = 0 \<Longrightarrow> msk = 0"
  shows "moves W R V s (snd (exec_csr_bits csrrs i msk s))" "moves W R V s (snd (exec_csr_bits csrrc i msk s))"
  using assms(1) [of "csr_addr i"] assms(2)
  unfolding exec_csr_bits_def Let_def
  by (intro moves_intro moves_csr_atomic moves_restricted; cases "inst_rs1 i = 0"; simp add: csr_allowed_writable)+

text \<open>The two instructions that change the mode without a trap.\<close>

definition returns :: "u32 \<Rightarrow> bool" where
  "returns inst \<longleftrightarrow> inst_opcode inst = 0x73 \<and> inst_funct3 inst = 0 \<and> imm_i inst \<in> {0x302, 0x102}"

lemma moves_returns:
  "W MSTATUS \<Longrightarrow> R \<Longrightarrow> V \<Longrightarrow> moves W R V s (exec_mret s)"
  "W SSTATUS \<Longrightarrow> R \<Longrightarrow> V \<Longrightarrow> moves W R V s (exec_sret s)"
  unfolding exec_mret_def exec_sret_def Let_def
  by (intro moves_intro moves_restricted; assumption)+

lemma moves_priv:
  assumes "inst_opcode i = 0x73" and "inst_funct3 i = 0" and "returns i \<Longrightarrow> R \<and> V \<and> W MSTATUS \<and> W SSTATUS"
  shows "moves W R V s (snd (exec_priv i s))"
  using assms moves_returns [of W R V s]
  by (auto simp: exec_priv_def exec_ecall_def Let_def returns_def split: mode.split intro!: moves_intro)

text \<open>The instructions that set or drop the reservation when they succeed.\<close>

definition reserving :: "u32 \<Rightarrow> bool" where
  "reserving i \<longleftrightarrow>
     (if i AND 0x3 \<noteq> 0x3 then c_stores (ucast i) else inst_opcode i \<in> {0x23, 0x27, 0x2F} \<or> returns i)"

lemma returns_reserving: "returns i \<Longrightarrow> reserving i"
proof -
  have "i AND 0x3 = (i AND 0x7F) AND 0x3" by (simp add: and.assoc)
  then show "returns i \<Longrightarrow> reserving i" by (simp add: returns_def reserving_def inst_opcode_def)
qed

theorem execute_moves:
  assumes "\<And>a. csr_writable (cpu_mode s) a \<Longrightarrow> W a" and "returns i \<Longrightarrow> R \<and> W MSTATUS \<and> W SSTATUS" and "reserving i \<Longrightarrow> V"
  shows "moves W R V s (snd (execute i s))"
proof -
  have priv: "returns i \<Longrightarrow> R \<and> V \<and> W MSTATUS \<and> W SSTATUS"
    using assms(2,3) returns_reserving by blast
  show ?thesis
    using assms(3) unfolding execute_def exec_system_def Let_def
    by (intro moves_intro moves_arith moves_load moves_store moves_amo moves_fp moves_compressed moves_csrrw
        moves_csr_bits moves_priv priv assms(1); simp add: read_reg_def reserving_def split: if_splits)
qed

subsection \<open>A step\<close>

lemma moves_handle_trap: "moves (\<lambda>_. True) True True s t \<Longrightarrow> moves (\<lambda>_. True) True True s (handle_trap e v t)"
  unfolding handle_trap_def take_s_trap_def take_trap_def Let_def
  by (intro moves_intro moves_restricted; simp)

lemma moves_check_interrupt: "moves (\<lambda>_. True) True True s (snd (check_interrupt s))"
proof -
  have "moves (\<lambda>_. True) True True s (s\<lparr>cpu_bus := update_uart_irq (cpu_bus s)\<rparr>)"
    by (rule r_into_rtranclp, rule to_irq)
  then show ?thesis
    unfolding check_interrupt_def Let_def
    by (intro moves_intro moves_restricted; simp)
qed

abbreviation counted :: "cpu \<Rightarrow> cpu" where
  "counted s \<equiv> s\<lparr>cpu_inst_count := cpu_inst_count s + 1\<rparr>"

lemma step_moves:
  "(unat (cpu_inst_count s) + 1 < 2 ^ 64 \<and> moves (\<lambda>_. True) True True (counted s) (snd (step s))) \<or> step s = (Panic, s)"
proof (cases "unat (cpu_inst_count s) + 1 < 2 ^ 64")
  case False
  then show ?thesis by (simp add: step_def bindS_def add_ck_def)
next
  case True
  let ?s = "counted s"
  obtain r1 s1 where c: "check_interrupt ?s = (r1, s1)" by fastforce
  have m1: "moves (\<lambda>_. True) True True ?s s1" using moves_check_interrupt [of ?s] c by simp
  obtain r2 s2 where f: "fetch s1 = (r2, s2)" by fastforce
  have m2: "moves (\<lambda>_. True) True True ?s s2" using moves_fetch [OF m1] f by simp
  have m3: "moves (\<lambda>_. True) True True ?s (snd (execute i s2))" for i
    using m2 execute_moves [of s2 "\<lambda>_. True" i True True] by auto
  show ?thesis
    using True m1 m2 m3 moves_handle_trap
    by (auto simp: step_def bindS_def add_ck_def c f split: result.splits prod.splits) (metis snd_conv)+
qed

lemma step_never_fails: "fst (step s) = Ok () \<or> fst (step s) = Panic"
  by (auto simp: step_def bindS_def add_ck_def split: result.splits prod.splits)

subsection \<open>What the moves keep\<close>

lemma moves_frame: "moves W R V s s' \<Longrightarrow> cpu_inst_count s' = cpu_inst_count s \<and> (\<not> R \<longrightarrow> cpu_mode s' = cpu_mode s) \<and>
    (\<not> V \<longrightarrow> cpu_reservation s' = cpu_reservation s)"
  by (induction rule: rtranclp_induct)
    (auto simp: hart_move.simps write_reg_def write_freg_def set_fs_dirty_def set_stimecmp_def)

text \<open>
  The hart is well formed when its bus and its CSRs are, and \<open>x0\<close> has never been written.
\<close>

definition hart_wf :: "cpu \<Rightarrow> bool" where
  "hart_wf s \<longleftrightarrow> bus_wf (cpu_bus s) \<and> csr_wf (cpu_csr s) \<and> cpu_regs s 0 = 0"

text \<open>What the guest cannot reach: the boot ROM, the flash array, the size of main memory.\<close>

definition hardware_fixed :: "bus \<Rightarrow> cpu \<Rightarrow> bool" where
  "hardware_fixed b s \<longleftrightarrow> bus_mrom (cpu_bus s) = bus_mrom b \<and> dram_len (bus_dram (cpu_bus s)) = dram_len (bus_dram b) \<and>
     flash_data (bus_flash (cpu_bus s)) = flash_data (bus_flash b)"

lemma bus_wf_stimecmp [simp]: "bus_wf (b\<lparr>bus_stimecmp := v\<rparr>) = bus_wf b"
  by (simp add: bus_wf_def)

lemma hart_move_keeps:
  "hart_move W R V s s' \<Longrightarrow> hart_wf s \<Longrightarrow> hardware_fixed b s \<Longrightarrow>
   hart_wf s' \<and> hardware_fixed b s' \<and> bus_mtime (cpu_bus s') = bus_mtime (cpu_bus s)"
proof (induction rule: hart_move.induct)
  case (to_bus s c)
  then show ?case using bus_effect_keeps [of "cpu_bus s" c] by (auto simp: hart_wf_def hardware_fixed_def bus_fixed_def)
next
  case (to_irq s)
  then show ?case
    using update_uart_irq_fixed [of "cpu_bus s" "cpu_bus s"]
    by (auto simp: hart_wf_def hardware_fixed_def bus_fixed_def update_uart_irq_wf)
qed (auto simp: hart_wf_def hardware_fixed_def write_reg_def write_freg_def write_csr_def set_fs_dirty_def
    set_stimecmp_def csr_write_wf)

lemma moves_keep:
  "moves W R V s s' \<Longrightarrow> hart_wf s \<and> hardware_fixed b s \<Longrightarrow>
   hart_wf s' \<and> hardware_fixed b s' \<and> bus_mtime (cpu_bus s') = bus_mtime (cpu_bus s)"
proof (induction rule: rtranclp_induct)
  case (step t t')
  then show ?case using hart_move_keeps [of W R V t t' b] by simp
qed simp

lemma step_keeps:
  assumes "hart_wf s" and "hardware_fixed b s"
  shows "hart_wf (snd (step s)) \<and> hardware_fixed b (snd (step s)) \<and>
    bus_mtime (cpu_bus (snd (step s))) = bus_mtime (cpu_bus s)"
proof -
  have "hart_wf (counted s) \<and> hardware_fixed b (counted s)" using assms by (simp add: hart_wf_def hardware_fixed_def)
  then show ?thesis
    using step_moves [of s] moves_keep [of _ _ _ "counted s" "snd (step s)" b] assms by auto
qed

lemma step_count:
  "fst (step s) = Ok () \<Longrightarrow> cpu_inst_count (snd (step s)) = cpu_inst_count s + 1 \<and> unat (cpu_inst_count s) + 1 < 2 ^ 64"
  using step_moves [of s] moves_frame [of _ _ _ "counted s" "snd (step s)"] by auto

subsection \<open>Privilege\<close>

text \<open>
  The registers above the supervisor's, as they read before and after: equal, or, for the
  three with a supervisor view, equal outside that view.
\<close>

definition machine_csrs_kept :: "csr \<Rightarrow> csr \<Rightarrow> bool" where
  "machine_csrs_kept c c' \<longleftrightarrow>
     (\<forall>b. get_csr_privilege b \<ge> 2 \<and> b \<notin> {MSTATUS, MIE, MIP} \<longrightarrow> csr_read c' b = csr_read c b) \<and>
     csr_read c' MSTATUS AND NOT SSTATUS_MASK = csr_read c MSTATUS AND NOT SSTATUS_MASK \<and>
     csr_read c' MIE AND NOT SIE_MASK = csr_read c MIE AND NOT SIE_MASK \<and>
     csr_read c' MIP AND NOT SIP_WRITABLE = csr_read c MIP AND NOT SIP_WRITABLE"

definition supervisor_csrs_kept :: "csr \<Rightarrow> csr \<Rightarrow> bool" where
  "supervisor_csrs_kept c c' \<longleftrightarrow>
     (\<forall>b. b \<notin> {FFLAGS, FRM, FCSR, MSTATUS, SSTATUS} \<longrightarrow> csr_read c' b = csr_read c b) \<and>
     csr_read c' MSTATUS AND NOT 0x8000000000006000 = csr_read c MSTATUS AND NOT 0x8000000000006000"

lemma dirty_read:
  "csr_read (csr_write c MSTATUS ((csr_read c MSTATUS AND NOT (push_bit 13 0x3)) OR push_bit 13 0x3)) MSTATUS
     AND NOT 0x8000000000006000 = csr_read c MSTATUS AND NOT 0x8000000000006000"
  by (rule u64_eqI) (simp add: csr_read_simps csr_read_mstatus_def csr_write_mstatus Let_def upt_64 bit_simps)

lemma dirty_other:
  "b \<notin> {MSTATUS, SSTATUS} \<Longrightarrow> csr_read (csr_write c MSTATUS v) b = csr_read c b"
  by (auto simp: csr_read_def csr_write_def Let_def)


lemma dirty_keeps:
  "supervisor_csrs_kept (cpu_csr s) (cpu_csr (set_fs_dirty s))" "machine_csrs_kept (cpu_csr s) (cpu_csr (set_fs_dirty s))"
proof -
  let ?m = "csr_read (cpu_csr s) MSTATUS" and ?m' = "csr_read (cpu_csr (set_fs_dirty s)) MSTATUS"
  have dirty: "?m' AND NOT 0x8000000000006000 = ?m AND NOT 0x8000000000006000"
    unfolding set_fs_dirty_def write_csr_frame by (rule dirty_read)
  have "NOT 0x8000000000006000 AND NOT SSTATUS_MASK = (NOT SSTATUS_MASK :: u64)" by simp
  then have "x AND NOT SSTATUS_MASK = (x AND NOT 0x8000000000006000) AND NOT SSTATUS_MASK" for x :: u64
    by (simp only: and.assoc)
  with dirty have "?m' AND NOT SSTATUS_MASK = ?m AND NOT SSTATUS_MASK" by metis
  moreover have privilege: "\<not> 2 \<le> get_csr_privilege SSTATUS" by (simp add: get_csr_privilege_def word_le_nat_alt)
  ultimately show "machine_csrs_kept (cpu_csr s) (cpu_csr (set_fs_dirty s))"
    using privilege dirty_other [of _ "cpu_csr s"] unfolding machine_csrs_kept_def by (auto simp: set_fs_dirty_def)
  show "supervisor_csrs_kept (cpu_csr s) (cpu_csr (set_fs_dirty s))"
    using dirty unfolding supervisor_csrs_kept_def by (simp add: set_fs_dirty_def dirty_other)
qed

lemma kept_trans:
  "machine_csrs_kept a b \<Longrightarrow> machine_csrs_kept b c \<Longrightarrow> machine_csrs_kept a c"
  "supervisor_csrs_kept a b \<Longrightarrow> supervisor_csrs_kept b c \<Longrightarrow> supervisor_csrs_kept a c"
  by (simp_all add: machine_csrs_kept_def supervisor_csrs_kept_def)

lemma kept_refl: "machine_csrs_kept c c" "supervisor_csrs_kept c c"
  by (simp_all add: machine_csrs_kept_def supervisor_csrs_kept_def)

lemma hart_move_csr_frame:
  "cpu_csr (write_reg r v s) = cpu_csr s" "cpu_csr (write_freg r v s) = cpu_csr s" "cpu_csr (set_stimecmp v s) = cpu_csr s"
  by (simp_all add: write_reg_def write_freg_def set_stimecmp_def)

lemma low_write_keeps:
  assumes "csr_writable m a" and "m = User \<or> m = Supervisor"
  shows "machine_csrs_kept (cpu_csr s) (cpu_csr (write_csr a v s))"
proof -
  have "(ucast (mode_bits m) :: u8) \<le> 1" using assms(2) by auto
  with assms(1) show ?thesis
    using supervisor_write_confined [of a "ucast (mode_bits m)" "cpu_csr s" v]
    unfolding machine_csrs_kept_def write_csr_frame csr_writable_def by blast
qed

lemma user_write_keeps:
  assumes "csr_writable User a"
  shows "supervisor_csrs_kept (cpu_csr s) (cpu_csr (write_csr a v s))"
proof -
  from assms have valid: "is_valid_csr a" and chk: "check_csr_privilege a 0 True"
    by (simp_all add: csr_writable_def)
  have "a \<in> user_writable_csrs \<union> supervisor_csrs"
    by (rule writable_csr_cases [OF valid chk]) simp
  moreover have "get_csr_privilege a = 0"
    using chk word_gt_0 [of "get_csr_privilege a"] by (auto simp: check_csr_privilege_def Let_def)
  moreover have "get_csr_privilege b = 1" if "b \<in> supervisor_csrs" for b
    using that by (elim insertE) (simp_all add: get_csr_privilege_def)
  ultimately have "a \<in> user_writable_csrs" by fastforce
  then show ?thesis
    unfolding supervisor_csrs_kept_def write_csr_frame
    by (elim insertE) (auto simp: csr_read_def csr_read_mstatus_def csr_write_def Let_def)
qed

text \<open>
  Property C2. Privilege separation of the instructions. Below machine mode, whatever
  instruction is executed other than MRET and SRET, and however it ends, the mode stays,
  every machine and hypervisor CSR reads as before except for the supervisor's bits of
  MSTATUS, MIE and MIP; and in user mode every supervisor CSR does too, MSTATUS changes at
  most in FS and its summary bit, and the supervisor's timer is not touched.
\<close>

theorem execute_confined:
  assumes "cpu_mode s = User \<or> cpu_mode s = Supervisor" and "\<not> returns i"
  shows "cpu_mode (snd (execute i s)) = cpu_mode s \<and>
    machine_csrs_kept (cpu_csr s) (cpu_csr (snd (execute i s))) \<and>
    (cpu_mode s = User \<longrightarrow>
       supervisor_csrs_kept (cpu_csr s) (cpu_csr (snd (execute i s))))"
proof -
  let ?m = "cpu_mode s"
  have m: "moves (csr_writable ?m) False True s (snd (execute i s))"
    using assms(2) by (intro execute_moves) auto
  from m have "machine_csrs_kept (cpu_csr s) (cpu_csr (snd (execute i s))) \<and>
    (?m = User \<longrightarrow> supervisor_csrs_kept (cpu_csr s) (cpu_csr (snd (execute i s))))"
  proof (induction rule: rtranclp_induct)
    case base
    then show ?case by (simp add: kept_refl)
  next
    case (step t t')
    have "machine_csrs_kept (cpu_csr t) (cpu_csr t') \<and> (?m = User \<longrightarrow> supervisor_csrs_kept (cpu_csr t) (cpu_csr t'))"
      using step.hyps(2) low_write_keeps [OF _ assms(1)] user_write_keeps
      by (cases rule: hart_move.cases) (auto simp: kept_refl dirty_keeps hart_move_csr_frame)
    with step.IH show ?case using kept_trans by blast
  qed
  with moves_frame [OF m] show ?thesis by blast
qed


theorem execute_confined_witness:
  "machine_csrs_kept (cpu_csr hart_example) (cpu_csr (snd (execute 0x34029073 (hart_example\<lparr>cpu_mode := User\<rparr>))))"
  using execute_confined [of "hart_example\<lparr>cpu_mode := User\<rparr>" "0x34029073"]
  by (simp add: returns_def imm_i_def inst_opcode_def inst_funct3_def)

text \<open>
  The exception is real: the code does not check the mode of MRET, so a user program that
  executes it with machine mode in MPP runs on in machine mode.
\<close>

lemma mret_unprivileged:
  assumes "drop_bit 11 (read_csr MSTATUS s) AND 0x3 = 0x3"
  shows "execute 0x30200073 s = (Ok (), exec_mret s) \<and> cpu_mode (exec_mret s) = Machine"
proof -
  have "execute 0x30200073 s = (Ok (), exec_mret s)"
    by (simp add: execute_def exec_system_def exec_priv_def imm_i_def inst_opcode_def inst_funct3_def inst_funct7_def Let_def)
  then show ?thesis using assms by (simp add: exec_mret_def mode_of_mpp_def Let_def)
qed

end
