(* ===== verification/Machine.thy ===== *)
theory Machine
  imports Moves
begin

text \<open>
  \<open>src/src/main.rs\<close>: the machine is assembled from the host's files, and then runs the step
  loop while another thread feeds the serial port. A turn of the loop and the arrival of a
  byte are the two steps of the machine; a byte arrives between two instructions.
\<close>

abbreviation BOOT_PC :: u64 where "BOOT_PC \<equiv> 0x1000"
abbreviation DTB_ADDR :: u64 where "DTB_ADDR \<equiv> 0x87000000"
abbreviation TIMER_TICK_INTERVAL :: u64 where "TIMER_TICK_INTERVAL \<equiv> 10000"
abbreviation TIMER_TICK_STEP :: u64 where "TIMER_TICK_STEP \<equiv> 1000"
abbreviation MROM_SIZE :: nat where "MROM_SIZE \<equiv> 0xf000"
abbreviation FLASH_SIZE :: nat where "FLASH_SIZE \<equiv> 0x2000000"

subsection \<open>Starting the machine\<close>

text \<open>
  What the host provides: the contents of \<open>mrom.bin\<close> and of the device tree, the size and
  the stream of \<open>dram.bin\<close> (\<open>None\<close> is a file that cannot be opened or whose metadata cannot
  be read), the disk image, which may be missing, the random source, the clocks, and whether
  it accepts what the serial port prints.
\<close>

record host =
  host_mrom :: "u8 list option"
  host_dram :: "(u64 option \<times> read_event list) option"
  host_drive :: "disk option"
  host_dtb :: "u8 list option"
  host_urandom :: "u8 list option"
  host_clock :: "nat \<Rightarrow> u64"
  host_secs :: u64
  host_stdout_ok :: bool
  host_nans :: "nat \<Rightarrow> u64"

datatype boot_error = HostFile | DramSizeMismatch u64 | LoadFailed mem_error

text \<open>\<open>?\<close> on a file of the host, and on an operation of a memory that is then used.\<close>

definition file_of :: "'a option \<Rightarrow> ('a, boot_error) result" where
  "file_of x = (case x of None \<Rightarrow> Err HostFile | Some a \<Rightarrow> Ok a)"

definition loaded :: "('s, unit, mem_error) comp \<Rightarrow> 's \<Rightarrow> ('s, boot_error) result" where
  "loaded m s =
     (case m s of (Ok _, s') \<Rightarrow> Ok s' | (Err e, _) \<Rightarrow> Err (LoadFailed e) | (Panic, _) \<Rightarrow> Panic)"

definition start_rom :: "byteorder \<Rightarrow> host \<Rightarrow> (mrom, boot_error) result" where
  "start_rom B h = bindR (file_of (host_mrom h)) (\<lambda>mrom_data. loaded (mrom_load 0 mrom_data) (mrom_new B MROM_SIZE))"

definition start_dram :: "byteorder \<Rightarrow> host \<Rightarrow> (dram, boot_error) result" where
  "start_dram B h =
     bindR (file_of (host_dram h)) (\<lambda>(len, es).
     bindR (file_of len) (\<lambda>dram_size.
       if dram_size \<noteq> DRAM_SIZE then Err (DramSizeMismatch dram_size)
       else loaded (load_from_reader es) (dram_new B (unat DRAM_SIZE))))"

definition start_drive :: "host \<Rightarrow> (disk option, boot_error) result" where
  "start_drive h =
     (case host_drive h of
        None \<Rightarrow> Ok None
      | Some file \<Rightarrow> if disk_meta_ok file then Ok (Some file) else Err HostFile)"

text \<open>The bus over the files, the serial port printing to the standard output of the host.\<close>

definition start_bus :: "mrom \<Rightarrow> dram \<Rightarrow> disk option \<Rightarrow> host \<Rightarrow> bus" where
  "start_bus rom d drive_image h =
     (bus_new rom d (flash_new FLASH_SIZE) drive_image (host_urandom h) (host_clock h) (host_secs h))
       \<lparr>bus_uart := uart_new\<lparr>uart_stdout_ok := host_stdout_ok h\<rparr>\<rparr>"

definition start_cpu :: "bus \<Rightarrow> cpu" where
  "start_cpu b = write_reg 11 DTB_ADDR (write_reg 10 0 (goto BOOT_PC (cpu_new b)))"

datatype status = Running | Finished | Failed | Aborted

record machine =
  m_cpu :: cpu
  m_inst_count :: u64
  m_status :: status

definition boot :: "byteorder \<Rightarrow> host \<Rightarrow> (machine, boot_error) result" where
  "boot B h =
     bindR (start_rom B h) (\<lambda>rom.
     bindR (start_dram B h) (\<lambda>d.
     bindR (start_drive h) (\<lambda>drive_image.
     bindR (file_of (host_dtb h)) (\<lambda>dtb.
     bindR (loaded (dram_load (DTB_ADDR - DRAM_BASE) dtb) d) (\<lambda>d.
       let s = (start_cpu (start_bus rom d drive_image h))\<lparr>cpu_nans := host_nans h\<rparr> in
       Ok \<lparr>m_cpu = s, m_inst_count = 0, m_status = Running\<rparr>)))))"

subsection \<open>The loop\<close>

text \<open>
  One turn: a step, the clock of the interrupt timer every \<open>TIMER_TICK_INTERVAL\<close> steps, and
  the limit on their number. A panic ends the process.
\<close>

definition turn :: "machine \<Rightarrow> machine" where
  "turn m =
     (case step (m_cpu m) of
        (Panic, s) \<Rightarrow> m\<lparr>m_cpu := s, m_status := Aborted\<rparr>
      | (Err _, s) \<Rightarrow> m\<lparr>m_cpu := s, m_status := Failed\<rparr>
      | (Ok _, s) \<Rightarrow>
          (case (add_ck (m_inst_count m) 1 :: (u64, unit) result) of
             Ok n \<Rightarrow>
               m\<lparr>m_cpu := (if n mod TIMER_TICK_INTERVAL = 0 then update_timer_by TIMER_TICK_STEP s else s),
                 m_inst_count := n,
                 m_status := (if n > 100000000000 then Finished else Running)\<rparr>
           | _ \<Rightarrow> m\<lparr>m_cpu := s, m_status := Aborted\<rparr>))"

text \<open>The other thread, when a byte has been read from the standard input.\<close>

definition receive :: "u8 \<Rightarrow> machine \<Rightarrow> machine" where
  "receive b m =
     (let s = m_cpu m; bs = cpu_bus s; u = bus_uart bs in
      m\<lparr>m_cpu := s\<lparr>cpu_bus := bs\<lparr>bus_uart := u\<lparr>uart_input := uart_input u @ [b]\<rparr>,
        bus_plic := plic_set_pending UART_IRQ (bus_plic bs)\<rparr>\<rparr>\<rparr>)"

text \<open>\<open>machine_run m0 n m\<close>: with \<open>n\<close> turns of the loop, and any input in between, \<open>m0\<close> becomes \<open>m\<close>.\<close>

inductive machine_run :: "machine \<Rightarrow> nat \<Rightarrow> machine \<Rightarrow> bool" for m0 where
  start: "machine_run m0 0 m0"
| turn: "machine_run m0 n m \<Longrightarrow> m_status m = Running \<Longrightarrow> machine_run m0 (Suc n) (turn m)"
| input: "machine_run m0 n m \<Longrightarrow> m_status m = Running \<Longrightarrow> machine_run m0 n (receive b m)"

inductive_cases machine_run_0E: "machine_run m0 0 m"
inductive_cases machine_run_SucE: "machine_run m0 (Suc n) m"

subsection \<open>What booting gives\<close>

lemma loaded_Ok: "loaded m s = Ok t \<longleftrightarrow> m s = (Ok (), t)"
  by (auto simp: loaded_def split: prod.splits result.splits)

lemma file_of_Ok: "file_of x = Ok a \<longleftrightarrow> x = Some a"
  by (simp add: file_of_def split: option.split)

lemma load_loop_frame:
  "dram_len (snd (load_loop offset es d)) = dram_len d \<and> dram_bo (snd (load_loop offset es d)) = dram_bo d"
proof (induction offset es d rule: load_loop.induct)
  case (1 offset es d)
  then show ?case by (subst (1 2) load_loop.simps) (auto split: prod.split option.split)
qed

lemma load_from_reader_frame:
  "dram_len (snd (load_from_reader es d)) = dram_len d" "dram_wf (snd (load_from_reader es d)) = dram_wf d"
  using load_loop_frame [of 0 es d]
  by (auto simp: load_from_reader_def dram_wf_def split: prod.splits option.splits)

lemma boot_Ok:
  assumes "boot B h = Ok m"
  obtains rom rom_data d d' dtb drive where "host_mrom h = Some rom_data" "host_dtb h = Some dtb"
    "mrom_load 0 rom_data (mrom_new B MROM_SIZE) = (Ok (), rom)"
    "dram_len d = unat DRAM_SIZE" "dram_bo d = B"
    "dram_load (DTB_ADDR - DRAM_BASE) dtb d = (Ok (), d')"
    "drive = host_drive h"
    "m = \<lparr>m_cpu = (start_cpu (start_bus rom d' drive h))
            \<lparr>cpu_nans := host_nans h\<rparr>, m_inst_count = 0, m_status = Running\<rparr>"
proof -
  from assms obtain rom_data rom len es d drive dtb d' where
    "host_mrom h = Some rom_data" "mrom_load 0 rom_data (mrom_new B MROM_SIZE) = (Ok (), rom)"
    "load_from_reader es (dram_new B (unat DRAM_SIZE)) = (Ok (), d)"
    "start_drive h = Ok drive" "host_dtb h = Some dtb" "dram_load (DTB_ADDR - DRAM_BASE) dtb d = (Ok (), d')"
    "m = \<lparr>m_cpu = (start_cpu (start_bus rom d' drive h))
            \<lparr>cpu_nans := host_nans h\<rparr>, m_inst_count = 0, m_status = Running\<rparr>"
    unfolding boot_def start_rom_def start_dram_def
    by (auto simp: bindR_Ok_iff loaded_Ok file_of_Ok Let_def split: if_splits)
  moreover from \<open>load_from_reader es _ = _\<close> have "dram_len d = unat DRAM_SIZE \<and> dram_bo d = B"
    using load_loop_frame [of 0 es "dram_new B (unat DRAM_SIZE)"]
    by (auto simp: load_from_reader_def dram_new_def split: prod.splits option.splits if_splits)
  moreover from \<open>start_drive h = Ok drive\<close> have "drive = host_drive h"
    by (auto simp: start_drive_def split: option.splits if_splits)
  ultimately show ?thesis using that by blast
qed


text \<open>What the code relies on of the host: byteorder is little-endian, and no file is larger than the address space.\<close>

definition host_ok :: "byteorder \<Rightarrow> host \<Rightarrow> bool" where
  "host_ok B h \<longleftrightarrow> little_endian B \<and> (\<forall>f. host_drive h = Some f \<longrightarrow> length (disk_bytes f) < 2 ^ 63)"

lemma start_cpu_simps [simp]:
  "cpu_pc (start_cpu b) = BOOT_PC" "cpu_mode (start_cpu b) = Machine" "cpu_bus (start_cpu b) = b"
  "cpu_csr (start_cpu b) = csr_new" "cpu_inst_count (start_cpu b) = 0" "cpu_reservation (start_cpu b) = None"
  "cpu_regs (start_cpu b) = (\<lambda>_. 0)(11 := DTB_ADDR)"
  by (auto simp: start_cpu_def cpu_new_def write_reg_def)

lemma start_bus_wf:
  assumes "mrom_wf rom" and "dram_wf d" and "\<And>f. drive = Some f \<Longrightarrow> length (disk_bytes f) < 2 ^ 63"
  shows "bus_wf (start_bus rom d drive h)"
proof -
  have "bus_wf (bus_new rom d (flash_new FLASH_SIZE) drive (host_urandom h) (host_clock h) (host_secs h))"
    using assms by (intro bus_new_wf) (auto simp: flash_wf_def flash_new_def)
  then show ?thesis by (simp add: start_bus_def bus_wf_def uart_wf_def uart_new_def)
qed

lemma boot_wf:
  assumes "host_ok B h" and "boot B h = Ok m"
  shows "hart_wf (m_cpu m) \<and> m_status m = Running \<and> m_inst_count m = 0 \<and> cpu_inst_count (m_cpu m) = 0 \<and>
    bus_mtime (cpu_bus (m_cpu m)) = 0"
proof -
  obtain rom rom_data d d' dtb where rom: "mrom_load 0 rom_data (mrom_new B MROM_SIZE) = (Ok (), rom)"
    and d: "dram_len d = unat DRAM_SIZE" "dram_bo d = B" "dram_load (DTB_ADDR - DRAM_BASE) dtb d = (Ok (), d')"
    and m: "m = \<lparr>m_cpu = (start_cpu (start_bus rom d' (host_drive h) h))\<lparr>cpu_nans := host_nans h\<rparr>, m_inst_count = 0, m_status = Running\<rparr>"
    using assms(2) by (elim boot_Ok) simp
  have B: "little_endian B" using assms(1) by (simp add: host_ok_def)
  have "mrom_wf rom"
    using mrom_load_wf [of 0 rom_data "mrom_new B MROM_SIZE"] rom mrom_new_wf [of MROM_SIZE B] B by simp
  moreover have "dram_wf d'"
    using d B by (auto simp: dram_load_def dram_wf_def split: if_splits)
  ultimately have "bus_wf (start_bus rom d' (host_drive h) h)"
    using assms(1) by (intro start_bus_wf) (auto simp: host_ok_def)
  then show ?thesis by (simp add: m hart_wf_def csr_new_wf start_bus_def bus_new_def)
qed

subsection \<open>The run\<close>

definition run_inv :: "bus \<Rightarrow> nat \<Rightarrow> machine \<Rightarrow> bool" where
  "run_inv b n m \<longleftrightarrow> hart_wf (m_cpu m) \<and> hardware_fixed b (m_cpu m) \<and> m_status m \<noteq> Failed \<and> n \<le> 100000000001 \<and>
     (m_status m = Running \<longrightarrow> cpu_inst_count (m_cpu m) = of_nat n \<and> m_inst_count m = of_nat n \<and> n \<le> 100000000000) \<and>
     (m_status m = Finished \<longrightarrow> n = 100000000001) \<and>
     (m_status m \<noteq> Aborted \<longrightarrow> bus_mtime (cpu_bus (m_cpu m)) = of_nat (1000 * (n div 10000)))"

lemma receive_keeps: "run_inv b n m \<Longrightarrow> run_inv b n (receive v m)"
  by (auto simp: run_inv_def receive_def hart_wf_def hardware_fixed_def bus_wf_def frame_simps uart_wf_def Let_def)

lemma update_timer_keeps:
  "hart_wf s \<Longrightarrow> hardware_fixed b s \<Longrightarrow> hart_wf (update_timer_by k s) \<and> hardware_fixed b (update_timer_by k s)"
  by (simp add: update_timer_by_def bus_tick_timer_by_def hart_wf_def hardware_fixed_def bus_wf_def)

lemma small_count:
  assumes "n \<le> 100000000000"
  shows "add_ck (of_nat n :: u64) 1 = Ok (of_nat (Suc n))"
    and "(of_nat (Suc n) :: u64) mod 10000 = 0 \<longleftrightarrow> Suc n mod 10000 = 0"
    and "(of_nat (Suc n) :: u64) > 100000000000 \<longleftrightarrow> Suc n > 100000000000"
proof -
  have "n < 2 ^ LENGTH(64)" and "Suc n < 2 ^ LENGTH(64)" using assms by simp_all
  then have u: "unat (of_nat n :: u64) = n" "unat (of_nat (Suc n) :: u64) = Suc n"
    by (simp_all only: unat_of_nat mod_less)
  have "unat (of_nat n :: u64) + unat (1 :: u64) < 2 ^ LENGTH(64)"
    unfolding u(1) using assms by simp
  moreover have "(of_nat n :: u64) + 1 = of_nat (Suc n)" by (simp add: add.commute)
  ultimately show "add_ck (of_nat n :: u64) 1 = Ok (of_nat (Suc n))"
    unfolding add_ck_def by (simp only: if_True)
  have "unat ((of_nat (Suc n) :: u64) mod 10000) = Suc n mod 10000"
    unfolding unat_mod u(2) by simp
  then show "(of_nat (Suc n) :: u64) mod 10000 = 0 \<longleftrightarrow> Suc n mod 10000 = 0"
    by (metis unat_eq_0)
  have "(100000000000 :: u64) < of_nat (Suc n) \<longleftrightarrow> unat (100000000000 :: u64) < Suc n"
    unfolding word_less_nat_alt u(2) ..
  then show "(of_nat (Suc n) :: u64) > 100000000000 \<longleftrightarrow> Suc n > 100000000000"
    by simp
qed

lemma tick_law: "Suc n div 10000 = (if Suc n mod 10000 = 0 then n div 10000 + 1 else n div 10000)"
  by (simp add: div_Suc)

lemma turn_keeps:
  assumes "run_inv b n m" and "m_status m = Running"
  shows "run_inv b (Suc n) (turn m)"
proof -
  let ?s = "m_cpu m"
  have n: "n \<le> 100000000000" and c: "m_inst_count m = of_nat n" and c': "cpu_inst_count ?s = of_nat n"
    and t: "bus_mtime (cpu_bus ?s) = of_nat (1000 * (n div 10000))"
    using assms by (simp_all add: run_inv_def)
  obtain r s where step: "step ?s = (r, s)" by fastforce
  have keep: "hart_wf s \<and> hardware_fixed b s \<and> bus_mtime (cpu_bus s) = bus_mtime (cpu_bus ?s)"
    using step_keeps [of ?s b] assms step by (simp add: run_inv_def)
  consider "r = Panic" | "r = Ok ()" using step_never_fails [of ?s] step by auto
  then show ?thesis
  proof cases
    case 1
    then show ?thesis using keep n by (simp add: turn_def step run_inv_def)
  next
    case 2
    then have count: "cpu_inst_count s = of_nat (Suc n)"
      using step_count [of ?s] step c' by simp
    have turn: "turn m = m\<lparr>m_cpu := (if Suc n mod 10000 = 0 then update_timer_by 1000 s else s),
        m_inst_count := of_nat (Suc n), m_status := (if Suc n > 100000000000 then Finished else Running)\<rparr>"
      using 2 by (simp add: turn_def step c small_count [OF n] del: of_nat_Suc)
    have "bus_mtime (cpu_bus (if Suc n mod 10000 = 0 then update_timer_by 1000 s else s)) = of_nat (1000 * (Suc n div 10000))"
      using keep t by (simp add: tick_law update_timer_by_def bus_tick_timer_by_def algebra_simps)
    then show ?thesis
      using keep n count update_timer_keeps [of s b 1000] unfolding run_inv_def turn
      by (simp add: update_timer_by_def del: of_nat_Suc)
  qed
qed

lemma run_keeps:
  assumes "host_ok B h" and "boot B h = Ok m0" and "machine_run m0 n m"
  shows "run_inv (cpu_bus (m_cpu m0)) n m"
  using assms(3)
proof (induction rule: machine_run.induct)
  case start
  then show ?case using boot_wf [OF assms(1,2)] by (simp add: run_inv_def hardware_fixed_def)
qed (simp_all add: turn_keeps receive_keeps)


subsection \<open>A host with files\<close>

definition zero_image :: "u8 list" where
  "zero_image = replicate 0x80000000 0"

definition host_example :: host where
  "host_example = \<lparr>host_mrom = Some [0x13, 0, 0, 0], host_dram = Some (Some DRAM_SIZE, map Chunk [zero_image]),
     host_drive = None, host_dtb = Some [0xd0, 0x0d, 0xfe, 0xed], host_urandom = None, host_clock = (\<lambda>_. 1),
     host_secs = 0, host_stdout_ok = True, host_nans = (\<lambda>_. 0)\<rparr>"

lemma length_zero_image: "length zero_image = 0x80000000"
  by (simp only: zero_image_def length_replicate)

lemma zero_image_loads: "dram_len d = 0x80000000 \<Longrightarrow> fst (load_from_reader (map Chunk [zero_image]) d) = Ok ()"
proof -
  have "zero_image \<noteq> []" using length_zero_image by auto
  then show "dram_len d = 0x80000000 \<Longrightarrow> ?thesis"
    using load_loop_chunks [of "[zero_image]" 0 d] length_zero_image by (simp add: load_from_reader_def)
qed

lemma host_example_ok: "host_ok le_byteorder host_example"
  by (simp add: host_ok_def host_example_def le_instance.little_endian_axioms)

lemma host_example_boots: "\<exists>m. boot le_byteorder host_example = Ok m"
proof -
  let ?d = "dram_new le_byteorder (unat DRAM_SIZE)"
  obtain d where d: "load_from_reader (map Chunk [zero_image]) ?d = (Ok (), d)" and len: "dram_len d = 0x80000000"
    using zero_image_loads [of ?d] load_from_reader_frame(1) [of "map Chunk [zero_image]" ?d]
    by (cases "load_from_reader (map Chunk [zero_image]) ?d") (simp add: dram_new_def)
  then have "start_dram le_byteorder host_example = Ok d"
    by (simp add: start_dram_def host_example_def file_of_def loaded_def)
  with len show ?thesis
    by (simp add: boot_def start_rom_def start_drive_def host_example_def file_of_def loaded_def
        mrom_load_def mrom_new_def dram_load_def Let_def)
qed

text \<open>
  Property C14. The boot state. When the machine starts, the hart is in machine mode at the
  boot ROM with the hart number in \<open>a0\<close> and the address of the device tree in \<open>a1\<close>, every
  other register zero; the ROM reads as \<open>mrom.bin\<close> and main memory holds the device tree at
  that address.
\<close>

theorem boot_state:
  assumes "host_ok B h" and "boot B h = Ok m" and "host_mrom h = Some rom" and "host_dtb h = Some dtb"
  shows "cpu_pc (m_cpu m) = 0x1000 \<and> cpu_mode (m_cpu m) = Machine \<and>
    (\<forall>r. read_reg r (m_cpu m) = (if r = 11 then 0x87000000 else 0)) \<and>
    (\<forall>i < length rom. fst (bus_read8 (0x1000 + of_nat i) (cpu_bus (m_cpu m))) = Ok (rom ! i)) \<and>
    slice (memory (m_cpu m)) (offset_of (read_reg 11 (m_cpu m))) (length dtb) = dtb"
proof -
  obtain mr d d' where rom: "mrom_load 0 rom (mrom_new B MROM_SIZE) = (Ok (), mr)"
    and d: "dram_load (DTB_ADDR - DRAM_BASE) dtb d = (Ok (), d')"
    and m: "m = \<lparr>m_cpu = (start_cpu (start_bus mr d' (host_drive h) h))\<lparr>cpu_nans := host_nans h\<rparr>, m_inst_count = 0, m_status = Running\<rparr>"
    using assms(2) by (elim boot_Ok) (simp add: assms(3,4))
  have len: "length rom \<le> 0xf000" using rom by (simp add: mrom_load_def mrom_new_def split: if_splits)
  have "fst (bus_read8 (0x1000 + of_nat i) (cpu_bus (m_cpu m))) = Ok (rom ! i)" if i: "i < length rom" for i
  proof -
    have u: "unat (of_nat i :: u64) = i" using i len by (simp add: unat_of_nat)
    then have "in_range MROM_BASE 0xFFFF (0x1000 + of_nat i)"
      using i len by (simp add: in_range_def word_le_nat_alt unat_word_ariths)
    moreover have "mrom_read8 mr (of_nat i) = Ok (rom ! i)"
      using mrom_load_read8 [OF _ rom, of "of_nat i"] mrom_new_wf assms(1) i u by (simp add: host_ok_def)
    ultimately show ?thesis by (simp add: bus_read8_def m start_bus_def bus_new_def)
  qed
  moreover have "slice (dram_mem d') 0x7000000 (length dtb) = dtb"
    using d by (auto simp: dram_load_def slice_blit_same split: if_splits)
  ultimately show ?thesis by (simp add: m read_reg_def start_bus_def bus_new_def offset_of_def)
qed

theorem boot_state_witness:
  "\<exists>m. boot le_byteorder host_example = Ok m \<and> read_reg 11 (m_cpu m) = 0x87000000 \<and>
     fst (bus_read8 0x1000 (cpu_bus (m_cpu m))) = Ok 0x13"
proof -
  obtain m where m: "boot le_byteorder host_example = Ok m" using host_example_boots by blast
  show ?thesis
    using boot_state [OF host_example_ok m, of "[0x13, 0, 0, 0]" "[0xd0, 0x0d, 0xfe, 0xed]"] m
    by (force simp: host_example_def)
qed

text \<open>
  Property C1. The machine invariant: in every state a started machine reaches, whatever
  guest program runs and whatever is typed, the memories, devices and CSRs are well formed,
  \<open>x0\<close> is zero, and the loop has not seen the unhandled trap it guards against.
\<close>

theorem machine_reachable_wf:
  assumes "host_ok B h" and "boot B h = Ok m0" and "machine_run m0 n m"
  shows "hart_wf (m_cpu m) \<and> m_status m \<noteq> Failed"
  using run_keeps [OF assms] by (simp add: run_inv_def)

theorem machine_reachable_wf_witness:
  "\<exists>m. boot le_byteorder host_example = Ok m \<and> hart_wf (m_cpu (receive 65 m))"
proof -
  obtain m where m: "boot le_byteorder host_example = Ok m" using host_example_boots by blast
  moreover have "machine_run m 0 (receive 65 m)"
    using boot_wf [OF host_example_ok m] by (intro machine_run.intros) simp
  ultimately show ?thesis using machine_reachable_wf [OF host_example_ok m] by blast
qed

text \<open>
  Property C13. What a guest cannot change while the machine runs, by any program and any
  device: the boot ROM, the bytes of the flash and the size of main memory.
\<close>

theorem machine_rom_fixed:
  assumes "host_ok B h" and "boot B h = Ok m0" and "machine_run m0 n m"
  shows "bus_mrom (cpu_bus (m_cpu m)) = bus_mrom (cpu_bus (m_cpu m0)) \<and>
    flash_data (bus_flash (cpu_bus (m_cpu m))) = flash_data (bus_flash (cpu_bus (m_cpu m0))) \<and>
    dram_len (bus_dram (cpu_bus (m_cpu m))) = dram_len (bus_dram (cpu_bus (m_cpu m0)))"
  using run_keeps [OF assms] by (simp add: run_inv_def hardware_fixed_def)

theorem machine_rom_fixed_witness:
  "\<exists>m. boot le_byteorder host_example = Ok m \<and> bus_mrom (cpu_bus (m_cpu (turn m))) = bus_mrom (cpu_bus (m_cpu m))"
proof -
  obtain m where m: "boot le_byteorder host_example = Ok m" using host_example_boots by blast
  moreover have "machine_run m (Suc 0) (turn m)"
    using boot_wf [OF host_example_ok m] by (intro machine_run.intros) simp
  ultimately show ?thesis using machine_rom_fixed [OF host_example_ok m] by blast
qed

text \<open>
  Property C12. The loop ends: it makes at most \<open>10\<^sup>1\<^sup>1 + 1\<close> turns, and while it runs both
  instruction counters are the number of turns made, so neither can overflow; it is over by
  itself after exactly \<open>10\<^sup>1\<^sup>1 + 1\<close> turns, unless the emulator panicked before.
\<close>

theorem machine_stops:
  assumes "host_ok B h" and "boot B h = Ok m0" and "machine_run m0 n m"
  shows "n \<le> 10 ^ 11 + 1 \<and> (n = 10 ^ 11 + 1 \<longrightarrow> m_status m = Finished \<or> m_status m = Aborted) \<and>
    (m_status m = Running \<longrightarrow> cpu_inst_count (m_cpu m) = of_nat n \<and> m_inst_count m = of_nat n) \<and>
    (m_status m = Finished \<longrightarrow> n = 10 ^ 11 + 1)"
  using run_keeps [OF assms] by (cases "m_status m") (auto simp: run_inv_def)

theorem machine_stops_witness:
  "\<exists>m. boot le_byteorder host_example = Ok m \<and>
     (m_status (turn m) = Running \<longrightarrow> m_inst_count (turn m) = 1)"
proof -
  obtain m where m: "boot le_byteorder host_example = Ok m" using host_example_boots by blast
  moreover have "machine_run m (Suc 0) (turn m)"
    using boot_wf [OF host_example_ok m] by (intro machine_run.intros) simp
  ultimately show ?thesis using machine_stops [OF host_example_ok m] by fastforce
qed

text \<open>
  Property C15. The clock of the timer: after \<open>n\<close> turns \<open>mtime\<close> is 1000 for every ten
  thousand of them, whatever the guest wrote, so simulated time is the number of executed
  instructions and the guest cannot set it.
\<close>

theorem machine_clock:
  assumes "host_ok B h" and "boot B h = Ok m0" and "machine_run m0 n m" and "m_status m = Running"
  shows "bus_mtime (cpu_bus (m_cpu m)) = of_nat (1000 * (n div 10000))"
  using run_keeps [OF assms(1-3)] assms(4) by (simp add: run_inv_def)

theorem machine_clock_witness:
  "\<exists>m. boot le_byteorder host_example = Ok m \<and> bus_mtime (cpu_bus (m_cpu (receive 65 m))) = 0"
proof -
  obtain m where m: "boot le_byteorder host_example = Ok m" using host_example_boots by blast
  moreover have run: "m_status m = Running" using boot_wf [OF host_example_ok m] by simp
  moreover have "machine_run m 0 (receive 65 m)" by (intro machine_run.intros run)
  moreover have "m_status (receive 65 m) = Running" using run by (simp add: receive_def Let_def)
  ultimately show ?thesis using machine_clock [OF host_example_ok m, of 0 "receive 65 m"] by simp
qed

end
