(* ===== verification/Atomics.thy ===== *)
theory Atomics
  imports Moves
begin

text \<open>
  The atomic memory operations of \<open>src/src/cpu.rs\<close>: when a reservation is made, kept and
  lost, what a store-conditional does with it, and the read-modify-writes on main memory.
\<close>

subsection \<open>The life of a reservation\<close>

definition load_reserved :: "u32 \<Rightarrow> bool" where
  "load_reserved i \<longleftrightarrow> inst_opcode i = 0x2F \<and> drop_bit 2 (inst_funct7 i) = 0x02"

lemma bindS_post:
  assumes "fst (bindS m f s) = Ok b" and "\<And>a t. m s = (Ok a, t) \<Longrightarrow> fst (f a t) = Ok b \<Longrightarrow> P (snd (f a t))"
  shows "P (snd (bindS m f s))"
  using assms by (cases "m s"; cases "fst (m s)") (auto simp: bindS_def)

lemma drops_store:
  "fst (exec_store i s) = Ok () \<Longrightarrow> cpu_reservation (snd (exec_store i s)) = None"
  "fst (exec_store_fp i s) = Ok () \<Longrightarrow> cpu_reservation (snd (exec_store_fp i s)) = None"
  "fst (c_store va v sz s) = Ok () \<Longrightarrow> cpu_reservation (snd (c_store va v sz s)) = None"
  unfolding exec_store_def exec_store_fp_def c_store_def Let_def by (erule bindS_post, simp)+

lemma drops_amo:
  "fst (amo_word i pc va pa f s) = Ok () \<Longrightarrow> cpu_reservation (snd (amo_word i pc va pa f s)) = None"
  "fst (amo_double i pc va pa g s) = Ok () \<Longrightarrow> cpu_reservation (snd (amo_double i pc va pa g s)) = None"
  "fst (exec_sc i pc va pa s) = Ok () \<Longrightarrow> cpu_reservation (snd (exec_sc i pc va pa s)) = None"
  unfolding amo_word_def amo_double_def exec_sc_def by ((erule bindS_post)+, simp)+

lemma drops_exec_amo:
  assumes "fst (exec_amo i s) = Ok ()" and "drop_bit 2 (inst_funct7 i) \<noteq> 0x02"
  shows "cpu_reservation (snd (exec_amo i s)) = None"
  using assms(1) unfolding exec_amo_def Let_def
proof (rule bindS_post, goal_cases)
  case (1 pa t)
  then show ?case
    using assms(2) drops_amo by (auto simp: illegal_def split: if_splits option.splits)
qed

lemma drops_compressed:
  assumes "c_stores c" and "fst (execute_compressed c s) = Ok ()"
  shows "cpu_reservation (snd (execute_compressed c s)) = None"
  using assms drops_store(3)
  by (auto simp: c_stores_def execute_compressed_def exec_c0_def exec_c2_def Let_def)

lemma drops_returns:
  assumes "returns i"
  shows "cpu_reservation (snd (exec_priv i s)) = None \<or> fst (exec_priv i s) = Ok () \<and> inst_funct7 i \<in> {0x09, 0x31, 0x11}"
  using assms by (auto simp: returns_def exec_priv_def exec_mret_def exec_sret_def Let_def)

lemma imm_funct7: "inst_funct7 i = drop_bit 5 (ucast (imm_i i)) AND 0x7F"
  by (rule bit_word_eqI) (auto simp: inst_funct7_def imm_i_def bit_simps mask_numerals)

text \<open>
  Property C20. The life of a reservation. It is dropped by every store and every atomic
  operation that succeeds, compressed or not, by MRET and SRET, and by every trap; every
  other instruction except load-reserved, however it ends, leaves it alone.
\<close>

theorem reservation_life:
  "(fst (execute i s) = Ok () \<and> reserving i \<and> \<not> load_reserved i \<longrightarrow> cpu_reservation (snd (execute i s)) = None) \<and>
   (\<not> reserving i \<longrightarrow> cpu_reservation (snd (execute i s)) = cpu_reservation s) \<and>
   cpu_reservation (handle_trap e v s) = None"
proof (intro conjI impI)
  assume *: "fst (execute i s) = Ok () \<and> reserving i \<and> \<not> load_reserved i"
  show "cpu_reservation (snd (execute i s)) = None"
  proof (cases "i AND 0x3 = 0x3")
    case False
    then show ?thesis using * drops_compressed by (auto simp: execute_def reserving_def)
  next
    case True
    then consider "inst_opcode i = 0x23" | "inst_opcode i = 0x27" | "inst_opcode i = 0x2F" | "returns i"
      using * by (auto simp: reserving_def)
    then show ?thesis
    proof cases
      case 3
      then show ?thesis using * True drops_exec_amo by (simp add: execute_def load_reserved_def)
    next
      case 4
      then have "inst_funct7 i \<notin> {0x09, 0x31, 0x11}" by (auto simp: returns_def imm_funct7)
      then show ?thesis using 4 True drops_returns [OF 4, of s]
        by (auto simp: execute_def exec_system_def returns_def Let_def)
    qed (use * True drops_store in \<open>simp_all add: execute_def\<close>)
  qed
next
  assume "\<not> reserving i"
  then have "moves (\<lambda>_. True) True False s (snd (execute i s))"
    by (intro execute_moves) auto
  then show "cpu_reservation (snd (execute i s)) = cpu_reservation s"
    using moves_frame by blast
next
  show "cpu_reservation (handle_trap e v s) = None"
    by (simp add: handle_trap_def take_s_trap_def take_trap_def Let_def)
qed

theorem reservation_life_witness:
  "cpu_reservation (snd (execute 0x33 (hart_example\<lparr>cpu_reservation := Some 8\<rparr>))) = Some 8 \<and>
   cpu_reservation (snd (execute 0x30200073 (hart_example\<lparr>cpu_reservation := Some 8\<rparr>))) = None"
proof -
  have "\<not> reserving 0x33"
    by (simp add: reserving_def returns_def inst_opcode_def)
  moreover have "reserving 0x30200073" "\<not> load_reserved 0x30200073"
    by (simp_all add: reserving_def returns_def load_reserved_def inst_opcode_def inst_funct3_def imm_i_def)
  moreover have "fst (execute 0x30200073 (hart_example\<lparr>cpu_reservation := Some 8\<rparr>)) = Ok ()"
    by (simp add: execute_def exec_system_def exec_priv_def imm_i_def inst_opcode_def inst_funct3_def inst_funct7_def Let_def)
  ultimately show ?thesis
    using reservation_life [where i = "0x33" and s = "hart_example\<lparr>cpu_reservation := Some 8\<rparr>"]
      reservation_life [where i = "0x30200073" and s = "hart_example\<lparr>cpu_reservation := Some 8\<rparr>"] by simp
qed

subsection \<open>On main memory\<close>

text \<open>The value in \<open>w\<close> bytes of memory, sign-extended to the register.\<close>

definition cell :: "cpu \<Rightarrow> u64 \<Rightarrow> nat \<Rightarrow> u64" where
  "cell s a w = le_word (slice (memory s) (offset_of a) w)"

definition width_of :: "u32 \<Rightarrow> nat" where
  "width_of i = (if inst_funct3 i = 0x2 then 4 else 8)"

definition sext_width :: "nat \<Rightarrow> u64 \<Rightarrow> u64" where
  "sext_width w v = (if w = 4 then sext32 (ucast v) else v)"

lemma word_access_memory:
  assumes "in_memory s a 4"
  shows "zoom_bus (bus_read32 a) s = (Ok (ucast (cell s a 4)), s)"
    and "zoom_bus (bus_write32 a v) s = (Ok (), put_bytes a (le_bytes 4 v) s)"
proof -
  have "(ucast (le_word bs :: u64) :: u32) = le_word bs" if "length bs = 4" for bs
    by (rule bit_word_eqI) (use that in \<open>auto simp: bit_simps bit_le_word\<close>)
  then show "zoom_bus (bus_read32 a) s = (Ok (ucast (cell s a 4)), s)"
    using in_memory_cell [OF assms] by (simp add: zoom_bus_def zoomS_def bus_dram_access dram_read_in cell_def)
  show "zoom_bus (bus_write32 a v) s = (Ok (), put_bytes a (le_bytes 4 v) s)"
    using in_memory_cell [OF assms] by (simp add: zoom_bus_def zoomS_def bus_dram_access dram_write_in put_bytes_def)
qed

lemma double_access_memory:
  assumes "in_memory s a 8"
  shows "zoom_bus (bus_read64 a) s = (Ok (cell s a 8), s)"
    and "zoom_bus (bus_write64 a v) s = (Ok (), put_bytes a (le_bytes 8 v) s)"
  using in_memory_cell [OF assms]
  by (simp_all add: zoom_bus_def zoomS_def bus_dram_access dram_read_in dram_write_in put_bytes_def cell_def)

lemma frame_updates [simp]:
  "cpu_bus (write_reg r v s) = cpu_bus s" "cpu_pc (write_reg r v s) = cpu_pc s" "cpu_mode (write_reg r v s) = cpu_mode s"
  "cpu_csr (write_reg r v s) = cpu_csr s" "cpu_reservation (write_reg r v s) = cpu_reservation s"
  "cpu_reservation (put_bytes a bs s) = cpu_reservation s" "cpu_mode (put_bytes a bs s) = cpu_mode s"
  "cpu_csr (put_bytes a bs s) = cpu_csr s" "cpu_pc (put_bytes a bs s) = cpu_pc s"
  "read_reg r (put_bytes a bs s) = read_reg r s" "read_reg r (goto pc s) = read_reg r s"
  "read_reg r (clear_reservation s) = read_reg r s" "read_reg r (set_reservation pa s) = read_reg r s"
  "cpu_bus (set_reservation pa s) = cpu_bus s"
  by (auto simp: write_reg_def put_bytes_def read_reg_def clear_reservation_def set_reservation_def)

lemma read_write_reg [simp]: "read_reg r (write_reg r' v s) = (if r = 0 then 0 else if r = r' then v else read_reg r s)"
  by (auto simp: read_reg_def write_reg_def)

text \<open>
  An atomic instruction at an untranslated address of main memory, whose width and address
  the instruction names.
\<close>

definition atomic_on :: "u32 \<Rightarrow> cpu \<Rightarrow> bool" where
  "atomic_on i s \<longleftrightarrow> inst_funct3 i \<in> {0x2, 0x3} \<and> untranslated s \<and> in_memory s (read_reg (inst_rs1 i) s) (width_of i)"

abbreviation funct5 :: "u32 \<Rightarrow> u32" where
  "funct5 i \<equiv> drop_bit 2 (inst_funct7 i)"

lemma le_bytes_low: "le_bytes 4 (ucast v :: u32) = le_bytes 4 v" for v :: u64
  by (rule le_bytes_ucast) simp

lemma exec_lr_memory:
  assumes "atomic_on i s" and "funct5 i = 0x02"
  shows "exec_amo i s = (Ok (), goto (cpu_pc s + 4) (set_reservation (read_reg (inst_rs1 i) s)
    (write_reg (inst_rd i) (sext_width (width_of i) (cell s (read_reg (inst_rs1 i) s) (width_of i))) s)))"
  using assms
  by (auto simp: atomic_on_def exec_amo_def exec_lr_def width_of_def sext_width_def Let_def bindS_def mapS_def map_errS_def
      translate_untranslated word_access_memory double_access_memory)

lemma exec_sc_memory:
  assumes "atomic_on i s" and "funct5 i = 0x03"
  defines "a \<equiv> read_reg (inst_rs1 i) s"
  shows "exec_amo i s = (Ok (), goto (cpu_pc s + 4) (clear_reservation (
    if check_reservation a s then write_reg (inst_rd i) 0 (put_bytes a (le_bytes (width_of i) (read_reg (inst_rs2 i) s)) s)
    else write_reg (inst_rd i) 1 s)))"
  using assms
  by (auto simp: atomic_on_def exec_amo_def exec_sc_def width_of_def Let_def bindS_def map_errS_def
      translate_untranslated word_access_memory double_access_memory le_bytes_low)

lemma atomic_on_cong [simp]:
  "atomic_on i (clear_reservation s) = atomic_on i s" "atomic_on i (set_reservation pa s) = atomic_on i s"
  "atomic_on i (goto pc s) = atomic_on i s"
  by (simp_all add: atomic_on_def untranslated_def in_memory_def clear_reservation_def set_reservation_def read_reg_def)

lemma atomic_on_write: "inst_rs1 i \<noteq> r \<or> r = 0 \<Longrightarrow> atomic_on i (write_reg r v s) = atomic_on i s"
  by (auto simp: atomic_on_def untranslated_def in_memory_def read_reg_def write_reg_def)

lemma check_reservation_simps [simp]:
  "check_reservation a (goto pc s) = check_reservation a s"
  "check_reservation a (set_reservation a' s) \<longleftrightarrow> a AND NOT 7 = a' AND NOT 7"
  by (simp_all add: check_reservation_def set_reservation_def)

text \<open>
  Property C11. LR and SC on main memory. The load-reserved returns the (sign-extended) cell;
  a store-conditional of the same width to the same address that follows it succeeds: it
  returns 0 and leaves its operand in the cell and nothing else changed. Without a
  reservation for the address the store-conditional returns 1 and does not touch memory.
  Either way the reservation is gone.
\<close>

theorem lr_sc:
  assumes "atomic_on lr s" and "funct5 lr = 0x02" and "funct5 sc = 0x03"
    and "inst_funct3 sc = inst_funct3 lr" and "inst_rs1 sc = inst_rs1 lr" and "inst_rd lr \<noteq> inst_rs1 lr"
  defines "a \<equiv> read_reg (inst_rs1 lr) s" and "s1 \<equiv> snd (exec_amo lr s)"
  defines "s2 \<equiv> snd (exec_amo sc s1)" and "s3 \<equiv> snd (exec_amo sc (clear_reservation s1))"
  shows "fst (exec_amo lr s) = Ok () \<and>
    read_reg (inst_rd lr) s1 = (if inst_rd lr = 0 then 0 else sext_width (width_of lr) (cell s a (width_of lr))) \<and>
    memory s1 = memory s \<and>
    fst (exec_amo sc s1) = Ok () \<and> cpu_reservation s2 = None \<and> read_reg (inst_rd sc) s2 = 0 \<and>
    memory s2 = blit (memory s) (offset_of a) (le_bytes (width_of lr) (read_reg (inst_rs2 sc) s1)) \<and>
    fst (exec_amo sc (clear_reservation s1)) = Ok () \<and> cpu_reservation s3 = None \<and> memory s3 = memory s \<and>
    read_reg (inst_rd sc) s3 = (if inst_rd sc = 0 then 0 else 1)"
proof -
  have s1: "exec_amo lr s = (Ok (), s1)" and s1': "s1 = goto (cpu_pc s + 4) (set_reservation a
      (write_reg (inst_rd lr) (sext_width (width_of lr) (cell s a (width_of lr))) s))"
    using exec_lr_memory [OF assms(1,2)] by (simp_all add: s1_def a_def)
  have a: "read_reg (inst_rs1 sc) s1 = a" "read_reg (inst_rs1 sc) (clear_reservation s1) = a"
    using assms(5,6) by (simp_all add: s1' a_def) (auto simp: read_reg_def)
  have w: "width_of sc = width_of lr" using assms(4) by (simp add: width_of_def)
  have "atomic_on sc s"
    using assms(1,4,5) w by (simp add: atomic_on_def)
  then have on: "atomic_on sc s1" "atomic_on sc (clear_reservation s1)"
    using assms(5,6) by (simp_all add: s1' atomic_on_write)
  have "\<not> check_reservation a (clear_reservation s1)"
    by (simp add: check_reservation_def)
  moreover have "check_reservation a s1" by (simp add: s1')
  moreover have "memory s1 = memory s" by (simp add: s1')
  ultimately show ?thesis
    using exec_sc_memory [OF on(1) assms(3)] exec_sc_memory [OF on(2) assms(3)] a w s1
    by (simp add: s2_def s3_def memory_put) (simp add: s1')
qed

theorem lr_sc_witness:
  "let s = write_reg 10 0x80000100 (write_reg 11 0x2A hart_example); s1 = snd (exec_amo 0x100532AF s);
       s2 = snd (exec_amo 0x18B5332F s1) in
   read_reg 6 s2 = 0 \<and> memory s2 = blit (memory s) 0x100 (le_bytes 8 (0x2A :: u64))"
proof -
  let ?s = "write_reg 10 0x80000100 (write_reg 11 0x2A hart_example)"
  have f: "inst_funct3 0x100532AF = 3" "inst_funct3 0x18B5332F = 3" "inst_rs1 0x100532AF = 10" "inst_rs1 0x18B5332F = 10"
      "inst_rd 0x100532AF = 5" "inst_rd 0x18B5332F = 6" "inst_rs2 0x18B5332F = 11"
      "funct5 0x100532AF = 2" "funct5 0x18B5332F = 3"
    by (simp_all add: inst_funct3_def inst_rs1_def inst_rd_def inst_rs2_def inst_funct7_def)
  have on: "atomic_on 0x100532AF ?s"
    using hart_example_memory(1) hart_example_memory(2) [of "0x80000100" 8]
    by (simp add: atomic_on_def f width_of_def untranslated_def in_memory_def)
  have "read_reg 11 (snd (exec_amo 0x100532AF ?s)) = 0x2A"
    using exec_lr_memory [OF on] by (simp add: f)
  then show ?thesis
    using lr_sc [OF on, of "0x18B5332F"] by (simp add: f width_of_def Let_def offset_of_def)
qed

subsection \<open>Read-modify-write\<close>

text \<open>
  The operations as arithmetic on the values of the two operands, of \<open>w\<close> bytes each:
  \<open>signed_value\<close> and \<open>unsigned_value\<close> read them as the manual does.
\<close>

definition signed_value :: "nat \<Rightarrow> u64 \<Rightarrow> int" where
  "signed_value w v = (if w = 4 then sint (ucast v :: u32) else sint v)"

definition unsigned_value :: "nat \<Rightarrow> u64 \<Rightarrow> int" where
  "unsigned_value w v = (if w = 4 then uint (ucast v :: u32) else uint v)"

definition amo_spec :: "nat \<Rightarrow> u32 \<Rightarrow> u64 \<Rightarrow> u64 \<Rightarrow> u64" where
  "amo_spec w f5 old v =
     (if f5 = 0x01 then v
      else if f5 = 0x00 then old + v
      else if f5 = 0x04 then old XOR v
      else if f5 = 0x0C then old AND v
      else if f5 = 0x08 then old OR v
      else if f5 = 0x10 then (if signed_value w v < signed_value w old then v else old)
      else if f5 = 0x14 then (if signed_value w old < signed_value w v then v else old)
      else if f5 = 0x18 then (if unsigned_value w v < unsigned_value w old then v else old)
      else (if unsigned_value w old < unsigned_value w v then v else old))"

abbreviation amo_codes :: "u32 set" where
  "amo_codes \<equiv> {0x01, 0x00, 0x04, 0x0C, 0x08, 0x10, 0x14, 0x18, 0x1C}"

lemma ucast_low:
  "(ucast (x + y) :: u32) = ucast x + ucast y" "(ucast (x XOR y) :: u32) = ucast x XOR ucast y"
  "(ucast (x AND y) :: u32) = ucast x AND ucast y" "(ucast (x OR y) :: u32) = ucast x OR ucast y" for x y :: u64
proof -
  show "(ucast (x + y) :: u32) = ucast x + ucast y"
    by transfer (subst (2) take_bit_add [symmetric], simp add: take_bit_add)
qed (rule bit_word_eqI; auto simp: bit_simps)+

lemma max_alt: "max x y = (if x < y then y else x)" for x y :: "'a::len word"
  by (auto simp: max_def)

lemma min_alt: "min x y = (if y < x then y else x)" for x y :: "'a::len word"
  by (auto simp: min_def)

lemma amo_op_word:
  "f5 \<in> amo_codes \<Longrightarrow> \<exists>f. amo_op f5 = Some f \<and> (\<forall>old v. f (ucast old) (ucast v) = (ucast (amo_spec 4 f5 old v) :: u32))"
  by (elim insertE emptyE)
    (auto simp: amo_op_def amo_spec_def ucast_low sless_def signed_value_def unsigned_value_def min_alt max_alt word_less_def)

lemma amo_op_double: "f5 \<in> amo_codes \<Longrightarrow> amo_op f5 = Some (amo_spec 8 f5)"
  by (elim insertE emptyE)
    (auto simp: amo_op_def amo_spec_def fun_eq_iff sless_def signed_value_def unsigned_value_def min_alt max_alt word_less_def)

text \<open>
  Property C19. The read-modify-writes on main memory. Each returns the old (sign-extended)
  value of the cell, leaves in the cell the result of its operation on the old value and the
  register, minimum and maximum signed or unsigned at the width of the access, changes no
  other byte, drops the reservation and goes to the next instruction.
\<close>

theorem amo_updates:
  assumes "atomic_on i s" and "funct5 i \<in> amo_codes"
  defines "a \<equiv> read_reg (inst_rs1 i) s" and "w \<equiv> width_of i"
  shows "exec_amo i s = (Ok (), goto (cpu_pc s + 4) (clear_reservation
    (write_reg (inst_rd i) (sext_width w (cell s a w))
      (put_bytes a (le_bytes w (amo_spec w (funct5 i) (cell s a w) (read_reg (inst_rs2 i) s))) s))))"
proof -
  have f5: "funct5 i \<noteq> 0x02" "funct5 i \<noteq> 0x03" using assms(2) by auto
  have t: "translate_at a Store a s = (Ok a, s)"
    using assms(1) by (simp add: atomic_on_def translate_untranslated)
  show ?thesis
  proof (cases "inst_funct3 i = 0x2")
    case True
    then have m: "in_memory s a 4" and w: "w = 4" using assms(1) by (simp_all add: atomic_on_def a_def w_def width_of_def)
    obtain f where f: "amo_op (funct5 i) = Some f" "\<And>old v. f (ucast old) (ucast v) = (ucast (amo_spec 4 (funct5 i) old v) :: u32)"
      using amo_op_word [OF assms(2)] by blast
    show ?thesis
      using True t f5 by (simp add: exec_amo_def a_def [symmetric] Let_def bindS_def amo_word_def map_errS_def f
          word_access_memory [OF m] w sext_width_def le_bytes_low)
  next
    case False
    then have m: "in_memory s a 8" and w: "w = 8" and f3: "inst_funct3 i = 0x3"
      using assms(1) by (simp_all add: atomic_on_def a_def w_def width_of_def)
    show ?thesis
      using f3 t f5 by (simp add: exec_amo_def a_def [symmetric] Let_def bindS_def amo_double_def map_errS_def
          amo_op_double [OF assms(2)] double_access_memory [OF m] w sext_width_def)
  qed
qed

theorem amo_updates_witness:
  "let s = write_reg 10 0x80000100 (write_reg 11 0xFFFFFFFFFFFFFFFE hart_example) in
   memory (snd (exec_amo 0x80B532AF s)) =
     blit (memory s) 0x100 (le_bytes 8 (amo_spec 8 0x10 (cell s 0x80000100 8) 0xFFFFFFFFFFFFFFFE))"
proof -
  let ?s = "write_reg 10 0x80000100 (write_reg 11 0xFFFFFFFFFFFFFFFE hart_example)"
  have f: "inst_funct3 0x80B532AF = 3" "inst_rs1 0x80B532AF = 10" "inst_rd 0x80B532AF = 5" "inst_rs2 0x80B532AF = 11"
      "funct5 0x80B532AF = 0x10"
    by (simp_all add: inst_funct3_def inst_rs1_def inst_rd_def inst_rs2_def inst_funct7_def)
  have on: "atomic_on 0x80B532AF ?s"
    using hart_example_memory(1) hart_example_memory(2) [of "0x80000100" 8]
    by (simp add: atomic_on_def f width_of_def untranslated_def in_memory_def)
  show ?thesis
    using amo_updates [OF on] by (simp add: f width_of_def Let_def memory_put offset_of_def)
qed

end
