(* ===== verification/Expand.thy ===== *)
theory Expand
  imports Moves
begin

text \<open>
  The compressed instructions against their expansions. The manual defines each 16-bit
  instruction by the 32-bit instruction it stands for; \<open>expand\<close> writes that table down, with
  the immediates as lists of bit positions, and \<open>execute_compressed\<close> of \<open>src/src/cpu.rs\<close> is
  compared with \<open>execute\<close> on the expansion. A reserved encoding with a zero immediate or
  register that the code does not reject has the expansion of its pattern.
\<close>

subsection \<open>The table of the manual\<close>

text \<open>An immediate is given by pairs: bit of the immediate, bit of the instruction.\<close>

definition imm_bits :: "(nat \<times> nat) list \<Rightarrow> u16 \<Rightarrow> u64" where
  "imm_bits tab c = fold (\<lambda>(dst, src) w. w OR push_bit dst (of_bool (bit c src))) tab 0"

definition nzuimm_addi4spn :: "(nat \<times> nat) list" where
  "nzuimm_addi4spn = [(5, 12), (4, 11), (9, 10), (8, 9), (7, 8), (6, 7), (2, 6), (3, 5)]"
definition uimm_cl_w :: "(nat \<times> nat) list" where
  "uimm_cl_w = [(5, 12), (4, 11), (3, 10), (2, 6), (6, 5)]"
definition uimm_cl_d :: "(nat \<times> nat) list" where
  "uimm_cl_d = [(5, 12), (4, 11), (3, 10), (7, 6), (6, 5)]"
definition imm6 :: "(nat \<times> nat) list" where
  "imm6 = [(5, 12), (4, 6), (3, 5), (2, 4), (1, 3), (0, 2)]"
definition nzimm_addi16sp :: "(nat \<times> nat) list" where
  "nzimm_addi16sp = [(9, 12), (4, 6), (6, 5), (8, 4), (7, 3), (5, 2)]"
definition nzimm_lui :: "(nat \<times> nat) list" where
  "nzimm_lui = [(17, 12), (16, 6), (15, 5), (14, 4), (13, 3), (12, 2)]"
definition uimm_lwsp :: "(nat \<times> nat) list" where
  "uimm_lwsp = [(5, 12), (4, 6), (3, 5), (2, 4), (7, 3), (6, 2)]"
definition uimm_ldsp :: "(nat \<times> nat) list" where
  "uimm_ldsp = [(5, 12), (4, 6), (3, 5), (8, 4), (7, 3), (6, 2)]"
definition uimm_swsp :: "(nat \<times> nat) list" where
  "uimm_swsp = [(5, 12), (4, 11), (3, 10), (2, 9), (7, 8), (6, 7)]"
definition uimm_sdsp :: "(nat \<times> nat) list" where
  "uimm_sdsp = [(5, 12), (4, 11), (3, 10), (8, 9), (7, 8), (6, 7)]"
definition imm_jump :: "(nat \<times> nat) list" where
  "imm_jump = [(11, 12), (4, 11), (9, 10), (8, 9), (10, 8), (6, 7), (7, 6), (3, 5), (2, 4), (1, 3), (5, 2)]"
definition imm_branch :: "(nat \<times> nat) list" where
  "imm_branch = [(8, 12), (4, 11), (3, 10), (7, 6), (6, 5), (2, 4), (1, 3), (5, 2)]"

lemmas tables = nzuimm_addi4spn_def uimm_cl_w_def uimm_cl_d_def imm6_def nzimm_addi16sp_def nzimm_lui_def
  uimm_lwsp_def uimm_ldsp_def uimm_swsp_def uimm_sdsp_def imm_jump_def imm_branch_def

definition expand :: "u16 \<Rightarrow> u32 option" where
  "expand c =
     (let op = c AND 3; f3 = field c 13 7; rd = reg_full c 7; rs2 = reg_full c 2;
          rdc = reg_p c 2; rs1c = reg_p c 7; f2 = field c 10 3; low = field c 5 3;
          simm = signed_take_bit 5 (imm_bits imm6 c); shamt = imm_bits imm6 c in
      if op = 0 then
        (if f3 = 0 then
           (if imm_bits nzuimm_addi4spn c = 0 then None else Some (enc_i (imm_bits nzuimm_addi4spn c) 2 0 rdc 0x13))
         else if f3 = 1 then Some (enc_i (imm_bits uimm_cl_d c) rs1c 3 rdc 0x07)
         else if f3 = 2 then Some (enc_i (imm_bits uimm_cl_w c) rs1c 2 rdc 0x03)
         else if f3 = 3 then Some (enc_i (imm_bits uimm_cl_d c) rs1c 3 rdc 0x03)
         else if f3 = 5 then Some (enc_s (imm_bits uimm_cl_d c) rdc rs1c 3 0x27)
         else if f3 = 6 then Some (enc_s (imm_bits uimm_cl_w c) rdc rs1c 2 0x23)
         else if f3 = 7 then Some (enc_s (imm_bits uimm_cl_d c) rdc rs1c 3 0x23)
         else None)
      else if op = 1 then
        (if f3 = 0 then Some (enc_i simm rd 0 rd 0x13)
         else if f3 = 1 then Some (enc_i simm rd 0 rd 0x1B)
         else if f3 = 2 then Some (enc_i simm 0 0 rd 0x13)
         else if f3 = 3 then
           (if rd = 2 then Some (enc_i (signed_take_bit 9 (imm_bits nzimm_addi16sp c)) 2 0 2 0x13)
            else Some (enc_u (signed_take_bit 17 (imm_bits nzimm_lui c)) rd 0x37))
         else if f3 = 4 then
           (if f2 = 0 then Some (enc_i shamt rs1c 5 rs1c 0x13)
            else if f2 = 1 then Some (enc_i (shamt OR 0x400) rs1c 5 rs1c 0x13)
            else if f2 = 2 then Some (enc_i simm rs1c 7 rs1c 0x13)
            else if \<not> bit c 12 then
              (if low = 0 then Some (enc_r 0x20 rdc rs1c 0 rs1c 0x33)
               else if low = 1 then Some (enc_r 0 rdc rs1c 4 rs1c 0x33)
               else if low = 2 then Some (enc_r 0 rdc rs1c 6 rs1c 0x33)
               else Some (enc_r 0 rdc rs1c 7 rs1c 0x33))
            else if low = 0 then Some (enc_r 0x20 rdc rs1c 0 rs1c 0x3B)
            else if low = 1 then Some (enc_r 0 rdc rs1c 0 rs1c 0x3B)
            else None)
         else if f3 = 5 then Some (enc_j (signed_take_bit 11 (imm_bits imm_jump c)) 0 0x6F)
         else if f3 = 6 then Some (enc_b (signed_take_bit 8 (imm_bits imm_branch c)) 0 rs1c 0 0x63)
         else Some (enc_b (signed_take_bit 8 (imm_bits imm_branch c)) 0 rs1c 1 0x63))
      else if op = 2 then
        (if f3 = 0 then Some (enc_i shamt rd 1 rd 0x13)
         else if f3 = 1 then Some (enc_i (imm_bits uimm_ldsp c) 2 3 rd 0x07)
         else if f3 = 2 then (if rd = 0 then None else Some (enc_i (imm_bits uimm_lwsp c) 2 2 rd 0x03))
         else if f3 = 3 then (if rd = 0 then None else Some (enc_i (imm_bits uimm_ldsp c) 2 3 rd 0x03))
         else if f3 = 4 then
           (if rs2 = 0 then
              (if \<not> bit c 12 then Some (enc_i 0 rd 0 0 0x67)
               else if rd = 0 then Some (enc_i 1 0 0 0 0x73)
               else Some (enc_i 0 rd 0 1 0x67))
            else if \<not> bit c 12 then Some (enc_r 0 rs2 0 0 rd 0x33)
            else Some (enc_r 0 rs2 rd 0 rd 0x33))
         else if f3 = 5 then Some (enc_s (imm_bits uimm_sdsp c) rs2 2 3 0x27)
         else if f3 = 6 then Some (enc_s (imm_bits uimm_swsp c) rs2 2 2 0x23)
         else Some (enc_s (imm_bits uimm_sdsp c) rs2 2 3 0x23))
      else None)"

subsection \<open>The immediates\<close>

lemma imm_bits_unfold: "imm_bits [] c = 0" "imm_bits (xs @ [(d, n)]) c = imm_bits xs c OR push_bit d (of_bool (bit c n))"
  by (simp_all add: imm_bits_def)

lemma imm_tables:
  "ucast (imm_addi4spn c) = imm_bits nzuimm_addi4spn c" "ucast (imm_cl_w c) = imm_bits uimm_cl_w c"
  "ucast (imm_cl_d c) = imm_bits uimm_cl_d c" "ucast (imm_ci c) = imm_bits imm6 c"
  "ucast (imm_lwsp c) = imm_bits uimm_lwsp c" "ucast (imm_ldsp c) = imm_bits uimm_ldsp c"
  "ucast (imm_swsp c) = imm_bits uimm_swsp c" "ucast (imm_sdsp c) = imm_bits uimm_sdsp c"
  by (rule u64_eqI; simp add: upt_64 bit_simps two imm_bits_def tables imm_addi4spn_def imm_cl_w_def imm_cl_d_def imm_ci_def
      imm_lwsp_def imm_ldsp_def imm_swsp_def imm_sdsp_def; fail)+

lemma imm_tables_signed:
  "imm_ci_signed c = signed_take_bit 5 (imm_bits imm6 c)"
  "imm_addi16sp c = signed_take_bit 9 (imm_bits nzimm_addi16sp c)"
  "imm_c_lui c = signed_take_bit 17 (imm_bits nzimm_lui c)"
  by (rule u64_eqI; simp add: upt_64 bit_simps two imm_bits_def tables imm_ci_signed_def sign_from_def imm_ci_def
      imm_addi16sp_def imm_c_lui_def imm_cj_def imm_cb_def; fail)+

lemma imm_small:
  "signed_take_bit 11 (imm_bits nzuimm_addi4spn c) = imm_bits nzuimm_addi4spn c"
  "signed_take_bit 11 (imm_bits uimm_cl_w c) = imm_bits uimm_cl_w c"
  "signed_take_bit 11 (imm_bits uimm_cl_d c) = imm_bits uimm_cl_d c"
  "signed_take_bit 11 (imm_bits imm6 c) = imm_bits imm6 c"
  "signed_take_bit 11 (imm_bits imm6 c OR 0x400) = imm_bits imm6 c OR 0x400"
  "signed_take_bit 11 (imm_bits uimm_lwsp c) = imm_bits uimm_lwsp c"
  "signed_take_bit 11 (imm_bits uimm_ldsp c) = imm_bits uimm_ldsp c"
  "signed_take_bit 11 (imm_bits uimm_swsp c) = imm_bits uimm_swsp c"
  "signed_take_bit 11 (imm_bits uimm_sdsp c) = imm_bits uimm_sdsp c"
  "signed_take_bit 11 (signed_take_bit 5 w) = signed_take_bit 5 w" for w :: u64
  by (rule u64_eqI; simp add: upt_64 bit_simps two imm_bits_def tables; fail)+


lemma bit_times_2: "bit (x * 2) n \<longleftrightarrow> 0 < n \<and> n < LENGTH('a) \<and> bit x (n - 1)" for x :: "'a::len word"
proof -
  have "x * 2 = push_bit 1 x" by (simp add: push_bit_eq_mult mult.commute)
  then show ?thesis by (simp only: bit_simps) auto
qed

lemma imm_tables_jump:
  "imm_cj c = signed_take_bit 11 (imm_bits imm_jump c)" "imm_cb c = signed_take_bit 8 (imm_bits imm_branch c)"
  by (rule u64_eqI; simp add: upt_64 bit_simps two imm_bits_def tables sign_from_def imm_cj_def imm_cb_def bit_times_2; fail)+

subsection \<open>Executing an expansion\<close>

text \<open>
  An instruction that is 2 bytes shorter ends 2 bytes earlier where it ends at its successor,
  and links 2 bytes earlier where it jumps. A failure has no successor.
\<close>

fun shorten :: "(unit, trap \<times> u64) result \<times> cpu \<Rightarrow> (unit, trap \<times> u64) result \<times> cpu" where
  "shorten (Ok u, s) = (Ok u, goto (cpu_pc s - 2) s)"
| "shorten (Err e, s) = (Err e, s)"
| "shorten (Panic, s) = (Panic, s)"

fun relink :: "u5 \<Rightarrow> (unit, trap \<times> u64) result \<times> cpu \<Rightarrow> (unit, trap \<times> u64) result \<times> cpu" where
  "relink rd (Ok u, s) = (Ok u, write_reg rd (read_reg rd s - 2) s)"
| "relink rd (Err e, s) = (Err e, s)"
| "relink rd (Panic, s) = (Panic, s)"

text \<open>The outcome of an expansion for the instruction it is the expansion of.\<close>

definition as_compressed :: "u32 \<Rightarrow> cpu \<Rightarrow> (unit, trap \<times> u64) result \<times> cpu" where
  "as_compressed i s =
     (if inst_opcode i = 0x6F \<or> inst_opcode i = 0x67 then relink (inst_rd i) (execute i s)
      else if inst_opcode i = 0x63 \<and>
        branch_taken (inst_funct3 i) (read_reg (inst_rs1 i) s) (read_reg (inst_rs2 i) s) = Some True then execute i s
      else shorten (execute i s))"

lemma shorten_bindS: "shorten (bindS m f s) = bindS m (\<lambda>a s. shorten (f a s)) s"
  by (auto simp: bindS_def split: prod.split result.split)

lemma shorten_retire: "shorten (retire (pc + 4) rd v s) = retire (pc + 2) rd v s"
  by (simp add: retire_def)

lemma shorten_goto: "shorten (Ok u, goto (pc + 4) s) = (Ok u, goto (pc + 2) s)"
  by simp

lemma two_after: "2 + cpu_pc s = cpu_pc s + 2"
  by (rule add.commute)

lemma full_length: "inst_opcode i AND 3 = 3 \<Longrightarrow> i AND 3 = 3"
  by (simp add: inst_opcode_def and.assoc)

lemmas decoded = imm_decoded registers_decoded functs_decoded opcodes_decoded imm_small

lemma execute_load:
  "inst_opcode i = 0x03 \<Longrightarrow> inst_funct3 i = 2 \<Longrightarrow>
   shorten (execute i s) = c_load (read_reg (inst_rs1 i) s + imm_i i) 4 (inst_rd i) s"
  "inst_opcode i = 0x03 \<Longrightarrow> inst_funct3 i = 3 \<Longrightarrow>
   shorten (execute i s) = c_load (read_reg (inst_rs1 i) s + imm_i i) 8 (inst_rd i) s"
  "inst_opcode i = 0x07 \<Longrightarrow> inst_funct3 i = 3 \<Longrightarrow>
   shorten (execute i s) = c_load_fp (read_reg (inst_rs1 i) s + imm_i i) (inst_rd i) s"
  by (simp_all add: execute_def full_length exec_load_def exec_load_fp_def c_load_def c_load_fp_def Let_def shorten_bindS
      shorten_retire sext32_def two_after)

lemma execute_store:
  "inst_opcode i = 0x23 \<Longrightarrow> inst_funct3 i = 2 \<Longrightarrow>
   shorten (execute i s) = c_store (read_reg (inst_rs1 i) s + imm_s i) (read_reg (inst_rs2 i) s) 4 s"
  "inst_opcode i = 0x23 \<Longrightarrow> inst_funct3 i = 3 \<Longrightarrow>
   shorten (execute i s) = c_store (read_reg (inst_rs1 i) s + imm_s i) (read_reg (inst_rs2 i) s) 8 s"
  "inst_opcode i = 0x27 \<Longrightarrow> inst_funct3 i = 3 \<Longrightarrow>
   shorten (execute i s) = c_store (read_reg (inst_rs1 i) s + imm_s i) (cpu_f_regs s (inst_rs2 i)) 8 s"
  by (simp_all add: execute_def full_length exec_store_def exec_store_fp_def c_store_def Let_def shorten_bindS two_after)

lemma execute_op_imm:
  "inst_opcode i = 0x13 \<Longrightarrow> op_imm i (read_reg (inst_rs1 i) s) = Some v \<Longrightarrow>
   shorten (execute i s) = retire (cpu_pc s + 2) (inst_rd i) v s"
  "inst_opcode i = 0x1B \<Longrightarrow> op_imm_32 i (read_reg (inst_rs1 i) s) = Some v \<Longrightarrow>
   shorten (execute i s) = retire (cpu_pc s + 2) (inst_rd i) v s"
  by (simp_all add: execute_def full_length exec_op_imm_def exec_op_imm_32_def exec_result_def shorten_retire)

lemma execute_op:
  "inst_opcode i = 0x33 \<Longrightarrow>
   op_reg (inst_funct7 i) (inst_funct3 i) (read_reg (inst_rs1 i) s) (read_reg (inst_rs2 i) s) = Some v \<Longrightarrow>
   shorten (execute i s) = retire (cpu_pc s + 2) (inst_rd i) v s"
  "inst_opcode i = 0x3B \<Longrightarrow>
   op_reg_32 (inst_funct7 i) (inst_funct3 i) (read_reg (inst_rs1 i) s) (read_reg (inst_rs2 i) s) = Some v \<Longrightarrow>
   shorten (execute i s) = retire (cpu_pc s + 2) (inst_rd i) v s"
  by (simp_all add: execute_def full_length exec_op_def exec_op_32_def exec_result_def shorten_retire)

lemma execute_lui:
  "inst_opcode i = 0x37 \<Longrightarrow> shorten (execute i s) = retire (cpu_pc s + 2) (inst_rd i) (imm_u i) s"
  by (simp add: execute_def full_length exec_lui_def shorten_retire)

subsection \<open>The results of the arithmetic expansions\<close>

lemma imm12_enc: "imm12 (enc_i v rs1 f3 rd opc) = ucast v AND 0xFFF"
  by (rule u32_eqI) (simp add: upt_32 bit_simps u5_bits two enc_defs imm12_def)

lemma sra_bit: "drop_bit 30 (enc_i v rs1 f3 rd opc) AND 1 = of_bool (bit v 10)"
  unfolding and_1_eq by (simp add: bit_simps u5_bits two enc_defs)

lemma shamt_bits:
  "imm_bits imm6 c AND 0x3F = imm_bits imm6 c" "(imm_bits imm6 c OR 0x400) AND 0x3F = imm_bits imm6 c"
  "\<not> bit (imm_bits imm6 c) 10" "bit (imm_bits imm6 c OR 0x400) 10"
proof -
  show "imm_bits imm6 c AND 0x3F = imm_bits imm6 c" "(imm_bits imm6 c OR 0x400) AND 0x3F = imm_bits imm6 c"
    by (rule u64_eqI; simp add: upt_64 bit_simps two imm_bits_def tables)+
  show "\<not> bit (imm_bits imm6 c) 10" "bit (imm_bits imm6 c OR 0x400) 10"
    by (simp_all add: bit_simps imm_bits_def tables)
qed

lemma shamt_unat: "unat (imm_bits imm6 c) = unat (imm_ci c)"
proof -
  have "unat (imm_ci c) < 2 ^ 16" using unsigned_less [of "imm_ci c"] by simp
  then show ?thesis by (simp flip: imm_tables(4) add: unsigned_ucast_eq take_bit_nat_eq_self)
qed

text \<open>The immediates of the shifts are none of the encodings the arms test first.\<close>

lemma masked_neq: "x AND NOT m \<noteq> y AND NOT m \<Longrightarrow> x \<noteq> y" for x :: "'a::len word"
  by auto

lemma imm12_low:
  "(ucast (imm_bits imm6 c) AND 0xFFF :: u32) AND NOT 0x3F = 0"
  "(drop_bit 5 (ucast (imm_bits imm6 c)) AND 0x7F :: u32) AND NOT 1 = 0"
  "(ucast (imm_bits imm6 c OR 0x400) AND 0xFFF :: u32) AND NOT 0x3F = 0x400"
  "(drop_bit 5 (ucast (imm_bits imm6 c OR 0x400)) AND 0x7F :: u32) AND NOT 1 = 0x20"
  by (rule u32_eqI; simp add: upt_32 bit_simps two imm_bits_def tables; fail)+

lemma imm12_not:
  "n AND NOT 0x3F \<noteq> 0 \<Longrightarrow> (ucast (imm_bits imm6 c) AND 0xFFF :: u32) \<noteq> n"
  "n AND NOT 1 \<noteq> 0 \<Longrightarrow> (drop_bit 5 (ucast (imm_bits imm6 c)) AND 0x7F :: u32) \<noteq> n"
  "n AND NOT 0x3F \<noteq> 0x400 \<Longrightarrow> (ucast (imm_bits imm6 c OR 0x400) AND 0xFFF :: u32) \<noteq> n"
  "n AND NOT 1 \<noteq> 0x20 \<Longrightarrow> (drop_bit 5 (ucast (imm_bits imm6 c OR 0x400)) AND 0x7F :: u32) \<noteq> n"
  using imm12_low [of c] by metis+

lemma op_imm_expansions:
  "op_imm (enc_i v rs1 0 rd 0x13) a = Some (a + signed_take_bit 11 v)"
  "op_imm (enc_i v rs1 7 rd 0x13) a = Some (a AND signed_take_bit 11 v)"
  "op_imm_32 (enc_i v rs1 0 rd 0x1B) a = Some (sext32 (ucast a + ucast (signed_take_bit 11 v)))"
  "op_imm (enc_i (imm_bits imm6 c) rs1 1 rd 0x13) a = Some (push_bit (unat (imm_ci c)) a)"
  "op_imm (enc_i (imm_bits imm6 c) rs1 5 rd 0x13) a = Some (drop_bit (unat (imm_ci c)) a)"
  "op_imm (enc_i (imm_bits imm6 c OR 0x400) rs1 5 rd 0x13) a = Some (signed_drop_bit (unat (imm_ci c)) a)"
  by (simp_all add: op_imm_def op_imm_32_def op_imm_slli_def op_imm_srli_def Let_def decoded imm12_enc imm12_not
      sra_bit shamt_bits shamt_unat)

lemma op_reg_expansions:
  "op_reg 0x20 0 a b = Some (a - b)" "op_reg 0 0 a b = Some (a + b)" "op_reg 0 4 a b = Some (a XOR b)"
  "op_reg 0 6 a b = Some (a OR b)" "op_reg 0 7 a b = Some (a AND b)"
  "op_reg_32 0x20 0 a b = Some (sext32 (ucast a - ucast b))" "op_reg_32 0 0 a b = Some (sext32 (ucast a + ucast b))"
  by (simp_all add: op_reg_def op_reg_32_def Let_def)

lemma execute_enc_i:
  "shorten (execute (enc_i v rs1 0 rd 0x13) s) = retire (cpu_pc s + 2) rd (read_reg rs1 s + signed_take_bit 11 v) s"
  "shorten (execute (enc_i v rs1 7 rd 0x13) s) = retire (cpu_pc s + 2) rd (read_reg rs1 s AND signed_take_bit 11 v) s"
  "shorten (execute (enc_i v rs1 0 rd 0x1B) s) =
     retire (cpu_pc s + 2) rd (sext32 (ucast (read_reg rs1 s) + ucast (signed_take_bit 11 v))) s"
  "shorten (execute (enc_i (imm_bits imm6 c) rs1 1 rd 0x13) s) =
     retire (cpu_pc s + 2) rd (push_bit (unat (imm_ci c)) (read_reg rs1 s)) s"
  "shorten (execute (enc_i (imm_bits imm6 c) rs1 5 rd 0x13) s) =
     retire (cpu_pc s + 2) rd (drop_bit (unat (imm_ci c)) (read_reg rs1 s)) s"
  "shorten (execute (enc_i (imm_bits imm6 c OR 0x400) rs1 5 rd 0x13) s) =
     retire (cpu_pc s + 2) rd (signed_drop_bit (unat (imm_ci c)) (read_reg rs1 s)) s"
  by (subst execute_op_imm; simp add: decoded op_imm_expansions)+

lemma execute_enc_r:
  "op_reg f7 f3 (read_reg rs1 s) (read_reg rs2 s) = Some v \<Longrightarrow> f3 AND 7 = f3 \<Longrightarrow> f7 AND 0x7F = f7 \<Longrightarrow>
   shorten (execute (enc_r f7 rs2 rs1 f3 rd 0x33) s) = retire (cpu_pc s + 2) rd v s"
  "op_reg_32 f7 f3 (read_reg rs1 s) (read_reg rs2 s) = Some v \<Longrightarrow> f3 AND 7 = f3 \<Longrightarrow> f7 AND 0x7F = f7 \<Longrightarrow>
   shorten (execute (enc_r f7 rs2 rs1 f3 rd 0x3B) s) = retire (cpu_pc s + 2) rd v s"
  by (subst execute_op; simp add: decoded)+

lemma addi4spn_zero: "imm_addi4spn c = 0 \<longleftrightarrow> imm_bits nzuimm_addi4spn c = 0"
proof -
  have down: "(ucast (ucast w :: u64) :: u16) = w" for w :: u16
    by (rule bit_word_eqI) (auto simp: bit_simps)
  have "imm_bits nzuimm_addi4spn c = 0 \<longleftrightarrow> (ucast (imm_addi4spn c) :: u64) = 0" by (simp only: imm_tables(1))
  also have "\<dots> \<longleftrightarrow> imm_addi4spn c = 0"
    using down [of "imm_addi4spn c"] by (metis unsigned_0)
  finally show ?thesis by simp
qed

text \<open>The expansions that end at their successor.\<close>

abbreviation falls_through :: "u32 \<Rightarrow> bool" where
  "falls_through i \<equiv> inst_opcode i \<notin> {0x6F, 0x67, 0x63, 0x73}"

lemma expand_q0:
  assumes "expand c = Some i" and "c AND 3 = 0"
  shows "execute_compressed c s = shorten (execute i s)"
  using assms field_cases [of "drop_bit 13 c"]
  by (auto simp: expand_def execute_compressed_def exec_c0_def Let_def decoded imm_tables execute_enc_i addi4spn_zero
      execute_load execute_store split: if_splits)

lemma bit_12: "field c 12 1 = 0 \<longleftrightarrow> \<not> bit c 12"
  by (simp add: and_1_eq)

lemma lui_imm: "signed_take_bit 31 (signed_take_bit 17 (imm_bits nzimm_lui c) AND NOT 0xFFF) = signed_take_bit 17 (imm_bits nzimm_lui c)"
  by (rule u64_eqI) (simp add: upt_64 bit_simps two imm_bits_def tables)

lemma addi16_imm: "signed_take_bit 11 (signed_take_bit 9 w) = signed_take_bit 9 w" for w :: u64
  by (rule u64_eqI) (simp add: upt_64 bit_simps two)

lemma field3_cases: "x AND 3 = 0 \<or> x AND 3 = 1 \<or> x AND 3 = 2 \<or> x AND 3 = 3" for x :: u16
proof -
  have "unat (x AND 3) \<le> 3" using unat_and_mask_le [of x 3] by simp
  then have "unat (x AND 3) \<in> {0, 1, 2, 3}" by auto
  then show ?thesis by (simp add: word_unat_eq_iff [of "x AND 3"])
qed

lemma field1_cases: "field c 12 1 = 1 \<longleftrightarrow> bit c 12"
  by (simp add: and_1_eq)

lemma retire_x0: "retire pc 0 v s = (Ok (), goto pc s)"
  by (simp add: retire_def write_reg_def)

lemma read_x0: "read_reg 0 s = 0"
  by (simp add: read_reg_def)

lemma expand_arith:
  assumes "expand c = Some i" and "c AND 3 = 1" and "field c 13 7 = 4"
  shows "exec_c1_arith c s = shorten (execute i s)"
  using assms field3_cases [of "drop_bit 5 c"]
  by (auto simp: expand_def exec_c1_arith_def Let_def imm_tables_signed execute_enc_i execute_enc_r op_reg_expansions
      imm_small bit_12 field1_cases split: if_splits)

lemma expand_q1:
  assumes "expand c = Some i" and "c AND 3 = 1" and "falls_through i"
  shows "execute_compressed c s = shorten (execute i s)"
proof (cases "field c 13 7 = 4")
  case True
  then show ?thesis using assms expand_arith [OF assms(1,2) True] by (simp add: execute_compressed_def exec_c1_def Let_def)
next
  case False
  have lui: "execute_compressed c s = shorten (execute i s)"
    if "i = enc_u (signed_take_bit 17 (imm_bits nzimm_lui c)) (reg_full c 7) 0x37" "field c 13 7 = 3" "reg_full c 7 \<noteq> 2"
    using that assms(2) unfolding that(1)
    by (subst execute_lui) (simp_all only: decoded lui_imm, simp_all add: execute_compressed_def exec_c1_def Let_def imm_tables_signed)
  show ?thesis
    using assms False field_cases [of "drop_bit 13 c"] lui
    by (auto simp: expand_def execute_compressed_def exec_c1_def Let_def decoded imm_tables_signed execute_enc_i
        addi16_imm retire_x0 read_x0 split: if_splits)
qed

lemma expand_q2:
  assumes "expand c = Some i" and "c AND 3 = 2" and "falls_through i"
  shows "execute_compressed c s = shorten (execute i s)"
  using assms field_cases [of "drop_bit 13 c"]
  by (auto simp: expand_def execute_compressed_def exec_c2_def exec_c2_jump_def Let_def decoded imm_tables execute_enc_i bit_12
      execute_load execute_store execute_enc_r op_reg_expansions read_x0 split: if_splits)

subsection \<open>The jumps\<close>

lemma jump_imm:
  "signed_take_bit 20 (signed_take_bit 11 (imm_bits imm_jump c) AND NOT 1) = signed_take_bit 11 (imm_bits imm_jump c)"
  "signed_take_bit 12 (signed_take_bit 8 (imm_bits imm_branch c) AND NOT 1) = signed_take_bit 8 (imm_bits imm_branch c)"
  by (rule u64_eqI; simp add: upt_64 bit_simps two imm_bits_def tables bit_times_2)+


lemma execute_jal:
  "execute (enc_j v rd 0x6F) s = retire (cpu_pc s + signed_take_bit 20 (v AND NOT 1)) rd (cpu_pc s + 4) s"
  by (simp add: execute_def full_length exec_jal_def decoded)

lemma execute_jalr:
  "execute (enc_i v rs1 0 rd 0x67) s =
     retire ((read_reg rs1 s + signed_take_bit 11 v) AND NOT 1) rd (cpu_pc s + 4) s"
  by (simp add: execute_def full_length exec_jalr_def decoded)

lemma execute_branch:
  "execute (enc_b v rs2 rs1 0 0x63) s = (Ok (), goto (cpu_pc s +
     (if read_reg rs1 s = read_reg rs2 s then signed_take_bit 12 (v AND NOT 1) else 4)) s)"
  "execute (enc_b v rs2 rs1 1 0x63) s = (Ok (), goto (cpu_pc s +
     (if read_reg rs1 s \<noteq> read_reg rs2 s then signed_take_bit 12 (v AND NOT 1) else 4)) s)"
  by (simp_all add: execute_def full_length exec_branch_def branch_taken_def decoded)

lemma execute_ebreak: "execute (enc_i 1 0 0 0 0x73) s = (Err (Exception Breakpoint, cpu_pc s), s)"
  by (simp add: enc_i_def enc_regs_def execute_def exec_system_def exec_priv_def imm_i_def inst_opcode_def
      inst_funct3_def inst_funct7_def Let_def)

lemma relink_retire:
  "relink rd (retire pc rd v s) = (Ok (), goto pc (write_reg rd (v - 2) s))"
  by (simp add: retire_def write_reg_def read_reg_def)

lemma even_target: "\<not> bit a 0 \<Longrightarrow> a AND NOT 1 = a" for a :: u64
  by (rule bit_word_eqI) (auto simp: bit_simps, metis bit_0 not_gr_zero)

lemmas even_simps = jump_imm [unfolded not_one_eq] even_target [unfolded not_one_eq]

lemma expand_jumps:
  assumes "expand c = Some i" and "\<not> falls_through i"
    and "inst_opcode i = 0x67 \<Longrightarrow> \<not> bit (read_reg (inst_rs1 i) s) 0 \<and> \<not> (inst_rs1 i = 1 \<and> inst_rd i = 1)"
  shows "execute_compressed c s = as_compressed i s"
proof -
  consider "c AND 3 = 1" "field c 13 7 = 5" "i = enc_j (signed_take_bit 11 (imm_bits imm_jump c)) 0 0x6F"
    | "c AND 3 = 1" "field c 13 7 = 6" "i = enc_b (signed_take_bit 8 (imm_bits imm_branch c)) 0 (reg_p c 7) 0 0x63"
    | "c AND 3 = 1" "field c 13 7 = 7" "i = enc_b (signed_take_bit 8 (imm_bits imm_branch c)) 0 (reg_p c 7) 1 0x63"
    | "c AND 3 = 2" "field c 13 7 = 4" "reg_full c 2 = 0" "\<not> bit c 12" "i = enc_i 0 (reg_full c 7) 0 0 0x67"
    | "c AND 3 = 2" "field c 13 7 = 4" "reg_full c 2 = 0" "bit c 12" "reg_full c 7 = 0" "i = enc_i 1 0 0 0 0x73"
    | "c AND 3 = 2" "field c 13 7 = 4" "reg_full c 2 = 0" "bit c 12" "reg_full c 7 \<noteq> 0" "i = enc_i 0 (reg_full c 7) 0 1 0x67"
    using assms(1,2) field_cases [of "drop_bit 13 c"]
    by (auto simp: expand_def Let_def decoded split: if_splits)
  then show ?thesis
  proof cases
    case 1
    then show ?thesis
      by (simp add: execute_compressed_def exec_c1_def Let_def as_compressed_def decoded execute_jal relink_retire
          imm_tables_jump even_simps) (simp add: write_reg_def)
  next
    case 2
    then show ?thesis
      by (simp add: execute_compressed_def exec_c1_def Let_def as_compressed_def decoded execute_branch branch_taken_def
          imm_tables_jump even_simps read_x0)
  next
    case 3
    then show ?thesis
      by (simp add: execute_compressed_def exec_c1_def Let_def as_compressed_def decoded execute_branch branch_taken_def
          imm_tables_jump even_simps read_x0)
  next
    case 4
    then have "\<not> bit (read_reg (reg_full c 7) s) 0" using assms(3) by (simp add: decoded)
    with 4 show ?thesis
      by (simp add: execute_compressed_def exec_c2_def exec_c2_jump_def Let_def as_compressed_def decoded execute_jalr
          relink_retire bit_12 even_simps del: bit_0) (simp add: write_reg_def)
  next
    case 5
    then show ?thesis
      by (simp add: execute_compressed_def exec_c2_def exec_c2_jump_def Let_def as_compressed_def decoded execute_ebreak bit_12)
  next
    case 6
    then have "\<not> bit (read_reg (reg_full c 7) s) 0" "reg_full c 7 \<noteq> 1" using assms(3) by (simp_all add: decoded)
    with 6 show ?thesis
      by (simp add: execute_compressed_def exec_c2_def exec_c2_jump_def Let_def as_compressed_def decoded execute_jalr
          relink_retire bit_12 even_simps del: bit_0) (simp add: read_reg_def write_reg_def two_after)
  qed
qed

lemma expand_none_q0: "c AND 3 = 0 \<Longrightarrow> expand c = None \<Longrightarrow> exec_c0 c s = c_illegal c s"
  using field_cases [of "drop_bit 13 c"]
  by (auto simp: expand_def exec_c0_def Let_def addi4spn_zero split: if_splits)

lemma expand_none_q1: "c AND 3 = 1 \<Longrightarrow> expand c = None \<Longrightarrow>
  field c 13 7 = 4 \<and> field c 10 3 \<notin> {0, 1, 2} \<and> bit c 12 \<and> field c 5 3 \<notin> {0, 1}"
  by (simp add: expand_def Let_def split: if_splits)

lemma expand_none_q2: "c AND 3 = 2 \<Longrightarrow> expand c = None \<Longrightarrow>
  (field c 13 7 = 2 \<or> field c 13 7 = 3) \<and> reg_full c 7 = 0"
  by (simp add: expand_def Let_def split: if_splits)

lemma expand_none:
  assumes "expand c = None"
  shows "execute_compressed c s = c_illegal c s"
proof -
  consider "c AND 3 = 0" | "c AND 3 = 1" | "c AND 3 = 2" | "c AND 3 = 3" using field3_cases by blast
  then show ?thesis
  proof cases
    case 1
    then show ?thesis using expand_none_q0 [OF 1 assms] by (simp add: execute_compressed_def)
  next
    case 2
    then show ?thesis
      using expand_none_q1 [OF 2 assms] field3_cases [of "drop_bit 5 c"] field3_cases [of "drop_bit 10 c"]
      by (auto simp: execute_compressed_def exec_c1_def exec_c1_arith_def Let_def field1_cases bit_12)
  next
    case 3
    then show ?thesis using expand_none_q2 [OF 3 assms] by (auto simp: execute_compressed_def exec_c2_def Let_def)
  next
    case 4
    then show ?thesis by (simp add: execute_compressed_def)
  qed
qed

text \<open>
  Property C6. The compressed instructions are abbreviations. A 16-bit instruction that has
  an expansion does, with every outcome, fault and panic, exactly what its 32-bit expansion
  does, except that it ends 2 bytes earlier where it does not jump and links 2 bytes earlier
  where it does; one that has none is illegal. The hypothesis is on C.JR and C.JALR alone:
  the code does not clear bit 0 of their target, and overwrites it when it is in \<open>ra\<close>.
\<close>

theorem compressed_expands:
  assumes "\<And>i. expand c = Some i \<Longrightarrow> inst_opcode i = 0x67 \<Longrightarrow>
    \<not> bit (read_reg (inst_rs1 i) s) 0 \<and> \<not> (inst_rs1 i = 1 \<and> inst_rd i = 1)"
  shows "execute_compressed c s = (case expand c of None \<Rightarrow> c_illegal c s | Some i \<Rightarrow> as_compressed i s)"
proof (cases "expand c")
  case None
  then show ?thesis by (simp add: expand_none)
next
  case (Some i)
  show ?thesis
  proof (cases "falls_through i")
    case True
    have "c AND 3 = 0 \<or> c AND 3 = 1 \<or> c AND 3 = 2"
      using Some by (auto simp: expand_def Let_def split: if_splits)
    then have "execute_compressed c s = shorten (execute i s)"
      using Some True expand_q0 expand_q1 expand_q2 by blast
    with True Some show ?thesis by (simp add: as_compressed_def)
  next
    case False
    then show ?thesis using expand_jumps [OF Some] assms [OF Some] Some by simp
  qed
qed

text \<open>\<open>c.addi a0, 1\<close> is \<open>addi a0, a0, 1\<close>, and \<open>c.jalr a0\<close> is \<open>jalr ra, 0(a0)\<close>.\<close>

theorem compressed_expands_witness:
  "expand 0x0505 = Some 0x00150513 \<and> execute_compressed 0x0505 hart_example = as_compressed 0x00150513 hart_example \<and>
   expand 0x9502 = Some 0x000500E7 \<and> execute_compressed 0x9502 hart_example = as_compressed 0x000500E7 hart_example"
proof -
  have e: "expand 0x0505 = Some 0x00150513" "expand 0x9502 = Some 0x000500E7"
    by (simp_all add: expand_def Let_def reg_full_def reg_p_def imm_bits_def tables enc_i_def enc_regs_def bit_iff_odd_drop_bit)
  have a0: "read_reg 10 hart_example = 0" "inst_rs1 0x000500E7 = 10" "inst_opcode 0x00150513 = 0x13"
    by (simp_all add: inst_rs1_def inst_opcode_def hart_example_def cpu_new_def read_reg_def)
  show ?thesis
    using compressed_expands [of "0x0505" hart_example] compressed_expands [of "0x9502" hart_example]
    by (simp add: e a0)
qed

subsection \<open>The exceptions\<close>

text \<open>\<open>c.jr a0\<close> jumps to an odd address, and \<open>c.jalr ra\<close> to its own return address.\<close>

lemma c_jr_odd: "execute_compressed 0x8502 s = (Ok (), goto (read_reg 10 s) s)"
  by (simp add: execute_compressed_def exec_c2_def exec_c2_jump_def Let_def reg_full_def)

lemma c_jalr_ra: "execute_compressed 0x9082 s = (Ok (), goto (cpu_pc s + 2) (write_reg 1 (cpu_pc s + 2) s))"
  by (simp add: execute_compressed_def exec_c2_def exec_c2_jump_def Let_def reg_full_def read_reg_def write_reg_def)

end
