(* ===== verification/Fetch.thy ===== *)
theory Fetch
  imports Moves
begin

text \<open>
  The turn of the hart over a program in main memory (\<open>fetch\<close> and \<open>step\<close> of
  \<open>src/src/cpu.rs\<close>): the instruction fetched is the one that lies at the program counter,
  also when it crosses a page, and the step executes it or enters the handler of its trap.
\<close>

lemma fetch_untranslated:
  assumes "untranslated s"
  shows "translate_at va Instruction tval s = (Ok va, s)"
proof (cases "cpu_mode s = Machine")
  case True
  then show ?thesis by (simp add: translate_at_def translate_def zoom_bus_def zoomS_def map_errS_def Let_def)
next
  case False
  then have "drop_bit 60 (read_csr SATP s) = 0"
    using assms by (auto simp: untranslated_def effective_mode_def)
  then show ?thesis by (simp add: translate_at_def translate_def zoom_bus_def zoomS_def map_errS_def Let_def)
qed

lemma half_access_memory:
  assumes "in_memory s a 2"
  shows "zoom_bus (bus_read16 a) s = (Ok (le_word (slice (memory s) (offset_of a) 2)), s)"
  using in_memory_cell [OF assms] by (simp add: zoom_bus_def zoomS_def bus_dram_access dram_read_in)

text \<open>The instruction at an address: two bytes, or four when the first two end in \<open>11\<close>.\<close>

definition instruction_at :: "cpu \<Rightarrow> u64 \<Rightarrow> u32" where
  "instruction_at s a =
     (let w = le_word (slice (memory s) (offset_of a) 4) :: u32 in
      if w AND 3 = 3 then w else w AND 0xFFFF)"

lemma halves_of_word:
  fixes bs cs :: "u8 list"
  assumes "length bs = 2" and "length cs = 2"
  shows "ucast (le_word bs :: u16) OR push_bit 16 (ucast (le_word cs :: u16)) = (le_word (bs @ cs) :: u32)"
    and "ucast (le_word bs :: u16) = (le_word (bs @ cs) AND 0xFFFF :: u32)"
proof -
  show "ucast (le_word bs :: u16) OR push_bit 16 (ucast (le_word cs :: u16)) = (le_word (bs @ cs) :: u32)"
    by (rule u32_eqI) (use assms in \<open>simp add: upt_32 bit_simps bit_le_word nth_append\<close>)
  show "ucast (le_word bs :: u16) = (le_word (bs @ cs) AND 0xFFFF :: u32)"
    by (rule u32_eqI) (use assms in \<open>simp add: upt_32 bit_simps bit_le_word nth_append\<close>)
qed

lemma fetch_memory:
  assumes "untranslated s" and "in_memory s (cpu_pc s) 4" and "cpu_pc s mod 2 = 0"
  shows "fetch s = (Ok (instruction_at s (cpu_pc s)), s)"
proof -
  let ?pc = "cpu_pc s" and ?m = "memory s"
  have m: "in_memory s ?pc 2" "in_memory s (?pc + 2) 2" "offset_of (?pc + 2) = offset_of ?pc + 2"
    using in_memory_byte [of s ?pc 2 2] assms(2) by (auto simp: in_memory_def)
  let ?lo = "le_word (slice ?m (offset_of ?pc) 2) :: u16" and ?hi = "le_word (slice ?m (offset_of ?pc + 2) 2) :: u16"
  have cat: "slice ?m (offset_of ?pc) 4 = slice ?m (offset_of ?pc) 2 @ slice ?m (offset_of ?pc + 2) 2"
    using slice_append [of ?m "offset_of ?pc" 2 2] by simp
  have w: "ucast ?lo OR push_bit 16 (ucast ?hi) = (le_word (slice ?m (offset_of ?pc) 4) :: u32)"
    "ucast ?lo = (le_word (slice ?m (offset_of ?pc) 4) AND 0xFFFF :: u32)"
    unfolding cat by (rule halves_of_word; simp)+
  have low: "ucast ?lo AND 3 = (le_word (slice ?m (offset_of ?pc) 4) AND 3 :: u32)"
    unfolding w(2) by (simp add: and.assoc)
  show ?thesis
    using assms(3) low w
    by (simp add: fetch_def Let_def bindS_def map_errS_def fetch_untranslated [OF assms(1)] half_access_memory [OF m(1)]
        half_access_memory [OF m(2)] m(3) instruction_at_def)
qed

lemma check_interrupt_frame:
  assumes "check_interrupt s = (r, s1)"
  shows "cpu_pc s1 = cpu_pc s" "cpu_regs s1 = cpu_regs s" "cpu_mode s1 = cpu_mode s" "memory s1 = memory s"
    "untranslated s1 = untranslated s" "in_memory s1 a n = in_memory s a n" "instruction_at s1 a = instruction_at s a"
proof -
  have s1: "s1 = write_csr MIP (hardware_mip (update_uart_irq (cpu_bus s)) (read_csr MIP s)) (s\<lparr>cpu_bus := update_uart_irq (cpu_bus s)\<rparr>)"
    using assms by (auto simp: check_interrupt_def Let_def split: if_splits option.splits)
  show "cpu_pc s1 = cpu_pc s" "cpu_regs s1 = cpu_regs s" "cpu_mode s1 = cpu_mode s" by (simp_all add: s1)
  show mem: "memory s1 = memory s" by (simp add: s1 update_uart_irq_def)
  show "instruction_at s1 a = instruction_at s a" by (simp add: instruction_at_def mem)
  show "untranslated s1 = untranslated s"
    by (simp add: s1 untranslated_def csr_read_def csr_read_mstatus_def csr_write_mstatus csr_write_satp Let_def)
  show "in_memory s1 a n = in_memory s a n"
    by (simp add: s1 in_memory_def update_uart_irq_wf) (simp add: update_uart_irq_def)
qed

text \<open>
  Property C5. A step over a program in memory. When no interrupt is taken, the program
  counter is even and in untranslated main memory, one step executes the instruction that
  lies there, of 2 or 4 bytes and wherever the page boundaries are; if it traps, the step
  still succeeds and enters the handler with the trap and its value.
\<close>

theorem step_executes:
  assumes "check_interrupt (counted s) = (Ok (), s1)" and "unat (cpu_inst_count s) + 1 < 2 ^ 64"
    and "untranslated s" and "in_memory s (cpu_pc s) 4" and "cpu_pc s mod 2 = 0"
  shows "step s =
    (case execute (instruction_at s (cpu_pc s)) s1 of
       (Ok _, s') \<Rightarrow> (Ok (), s')
     | (Err (t, v), s') \<Rightarrow> (Ok (), handle_trap t v s')
     | (Panic, s') \<Rightarrow> (Panic, s'))"
proof -
  note frame = check_interrupt_frame [OF assms(1)]
  have "untranslated (counted s)" "in_memory (counted s) (cpu_pc s) 4" "cpu_pc (counted s) = cpu_pc s"
      "instruction_at (counted s) (cpu_pc s) = instruction_at s (cpu_pc s)"
    using assms(3,4) by (simp_all add: untranslated_def in_memory_def instruction_at_def)
  then have "fetch s1 = (Ok (instruction_at s (cpu_pc s)), s1)"
    using assms(5) by (simp add: fetch_memory frame)
  then show ?thesis
    using assms(2) by (simp add: step_def bindS_def add_ck_def assms(1) split: prod.split result.split)
qed

lemma no_interrupt: "read_csr MIE s = 0 \<Longrightarrow> fst (check_interrupt s) = Ok ()"
  by (simp add: check_interrupt_def Let_def csr_read_simps csr_write_mie)

text \<open>\<open>addi a0, a0, 1\<close> at the start of main memory.\<close>

definition program_example :: cpu where
  "program_example = put_bytes 0x80000000 [0x13, 0x05, 0x15, 0x00] (goto 0x80000000 hart_example)"

theorem step_executes_witness:
  "fst (step program_example) = Ok () \<and> read_reg 10 (snd (step program_example)) = 1 \<and>
   cpu_pc (snd (step program_example)) = 0x80000004"
proof -
  let ?s = program_example
  have frame: "cpu_pc ?s = 0x80000000" "cpu_regs ?s = (\<lambda>_. 0)" "cpu_inst_count ?s = 0"
    by (simp_all add: program_example_def put_bytes_def hart_example_def cpu_new_def)
  have "untranslated (goto 0x80000000 hart_example)" "in_memory (goto 0x80000000 hart_example) 0x80000000 4"
    using hart_example_memory(1) hart_example_memory(2) [of "0x80000000" 4]
    by (simp_all add: untranslated_def in_memory_def)
  then have mem: "untranslated ?s" "in_memory ?s 0x80000000 4"
    by (simp_all add: program_example_def)
  have inst: "instruction_at ?s 0x80000000 = 0x00150513"
    by (simp add: instruction_at_def program_example_def memory_put offset_of_def blit_def slice_def upt_rec Let_def)
  have "read_csr MIE (counted ?s) = 0"
    by (simp add: program_example_def put_bytes_def hart_example_def cpu_new_def csr_read_simps csr_new_regs)
  then obtain s1 where c: "check_interrupt (counted ?s) = (Ok (), s1)"
    using no_interrupt by (metis prod.collapse)
  have s1: "cpu_regs s1 = (\<lambda>_. 0)" "cpu_pc s1 = 0x80000000"
    using check_interrupt_frame [OF c] frame by simp_all
  have "execute 0x00150513 s1 = retire 0x80000004 10 1 s1"
    by (simp add: execute_def exec_op_imm_def exec_result_def op_imm_def imm_i_def inst_opcode_def inst_funct3_def
        inst_rd_def inst_rs1_def read_reg_def s1 Let_def)
  then have "execute (instruction_at ?s (cpu_pc ?s)) s1 = retire 0x80000004 10 1 s1"
    by (simp add: frame inst)
  then show ?thesis
    using step_executes [OF c] frame mem by (simp add: retire_def read_reg_def write_reg_def)
qed

end
