(* ===== verification/Privilege.thy ===== *)
theory Privilege
  imports Fetch
begin

text \<open>
  The privilege mode over a step of \<open>src/src/cpu.rs\<close>: it changes only on entry to a trap
  handler, which never lowers it, and by the two return instructions.
\<close>

subsection \<open>The order of the modes\<close>

instantiation mode :: linorder
begin

definition less_eq_mode :: "mode \<Rightarrow> mode \<Rightarrow> bool" where
  "less_eq_mode m m' \<longleftrightarrow> mode_bits m \<le> mode_bits m'"

definition less_mode :: "mode \<Rightarrow> mode \<Rightarrow> bool" where
  "less_mode m m' \<longleftrightarrow> mode_bits m < mode_bits m'"

instance
  by standard (auto simp: less_eq_mode_def less_mode_def not_le less_le mode_bits_inj)

end

lemma handle_trap_raises: "cpu_mode s \<noteq> Hypervisor \<Longrightarrow> cpu_mode s \<le> cpu_mode (handle_trap t v s)"
  by (cases "cpu_mode s") (simp_all add: handle_trap_cases take_trap_frame take_s_trap_frame delegated_def less_eq_mode_def)

subsection \<open>A step\<close>

lemma fetch_keeps_mode: "fetch s = (r, s') \<Longrightarrow> cpu_mode s' = cpu_mode s"
  using moves_frame [OF moves_fetch [of "\<lambda>_. True" False True s s]] by simp

lemma execute_keeps_mode: "execute i s = (r, s') \<Longrightarrow> \<not> returns i \<Longrightarrow> cpu_mode s' = cpu_mode s"
  using moves_frame [OF execute_moves [of s "\<lambda>_. True" i False True]] by simp

text \<open>
  Property C3. Who changes the mode. Over a step the mode of the hart changes only when it
  enters a trap handler, which never lowers the mode, or when the instruction it fetched is
  MRET or SRET. Hypervisor mode, which the code knows but never enters by itself, is set apart: a
  delegated trap leaves it for supervisor mode.
\<close>

theorem mode_changes:
  assumes "cpu_mode (snd (step s)) \<noteq> cpu_mode s" and "cpu_mode s \<noteq> Hypervisor"
  shows "(\<exists>t v s1. snd (step s) = handle_trap t v s1 \<and> cpu_mode s1 = cpu_mode s \<and>
      cpu_mode s < cpu_mode (snd (step s))) \<or>
    (\<exists>s1 s2 i. check_interrupt (counted s) = (Ok (), s1) \<and> fetch s1 = (Ok i, s2) \<and> returns i)"
proof -
  have trap: ?thesis if "snd (step s) = handle_trap t v s1" "cpu_mode s1 = cpu_mode s" for t v s1
  proof -
    have "cpu_mode s \<le> cpu_mode (snd (step s))"
      using handle_trap_raises [of s1 t v] that assms(2) by simp
    with assms(1) have "cpu_mode s < cpu_mode (snd (step s))" by order
    with that show ?thesis by blast
  qed
  obtain r1 s1 where c: "check_interrupt (counted s) = (r1, s1)" by fastforce
  have m1: "cpu_mode s1 = cpu_mode s" using check_interrupt_frame(3) [OF c] by simp
  obtain r2 s2 where f: "fetch s1 = (r2, s2)" by fastforce
  have m2: "cpu_mode s2 = cpu_mode s" using fetch_keeps_mode [OF f] m1 by simp
  have m3: "execute i s2 = (r, s3) \<Longrightarrow> \<not> returns i \<Longrightarrow> cpu_mode s3 = cpu_mode s" for i r s3
    using execute_keeps_mode m2 by simp
  have bound: "unat (cpu_inst_count s) + 1 < 2 ^ 64"
    using assms(1) step_moves [of s] by auto
  have step: "step s =
    (case r1 of Panic \<Rightarrow> (Panic, s1) | Err t \<Rightarrow> (Ok (), handle_trap t 0 s1)
     | Ok _ \<Rightarrow>
         (case r2 of Panic \<Rightarrow> (Panic, s2) | Err (t, v) \<Rightarrow> (Ok (), handle_trap t v s2)
          | Ok i \<Rightarrow>
              (case execute i s2 of (Panic, s3) \<Rightarrow> (Panic, s3) | (Err (t, v), s3) \<Rightarrow> (Ok (), handle_trap t v s3)
               | (Ok _, s3) \<Rightarrow> (Ok (), s3))))"
    using bound by (simp add: step_def bindS_def add_ck_def c f split: result.split)
  show ?thesis
  proof (cases "\<exists>i. r1 = Ok () \<and> r2 = Ok i \<and> returns i")
    case True
    then show ?thesis using c f by blast
  next
    case False
    then show ?thesis
      using assms(1) m1 m2 m3 trap unfolding step by (auto split: result.splits prod.splits)
  qed
qed

text \<open>A user program at an odd address: the fetch fails and the hart is in machine mode.\<close>

theorem mode_changes_witness:
  "let s = (goto 1 hart_example)\<lparr>cpu_mode := User\<rparr> in
   cpu_mode (snd (step s)) \<noteq> User \<and>
   (\<exists>t v s1. snd (step s) = handle_trap t v s1 \<and> cpu_mode s1 = User)"
proof -
  let ?s = "(goto 1 hart_example)\<lparr>cpu_mode := User\<rparr>"
  have "read_csr MIE (counted ?s) = 0"
    by (simp add: hart_example_def cpu_new_def csr_read_simps csr_new_regs)
  then obtain s1 where c: "check_interrupt (counted ?s) = (Ok (), s1)"
    using no_interrupt by (metis prod.collapse)
  have s1: "cpu_pc s1 = 1" "cpu_mode s1 = User"
    using check_interrupt_frame [OF c] by simp_all
  have f: "fetch s1 = (Err (Exception InstructionAddressMisaligned, 1), s1)"
    by (simp add: fetch_def s1 Let_def)
  have count: "cpu_inst_count hart_example = 0" by (simp add: hart_example_def cpu_new_def)
  have "cpu_mode (snd (step ?s)) \<noteq> User"
    using c f count by (simp add: step_def bindS_def add_ck_def handle_trap_cases take_trap_frame take_s_trap_frame)
  then show ?thesis
    using mode_changes [of ?s] c f by (auto simp: Let_def)
qed

end
