(* ===== verification/Precise.thy ===== *)
theory Precise
  imports Moves
begin

text \<open>
  Precise traps. An instruction of \<open>execute\<close> in \<open>src/src/cpu.rs\<close> that fails leaves the hart as
  it was before: what it may have changed is behind the bus. The rules below follow the
  combinators, like those of \<open>Moves\<close>: first what only touches the bus, then what fails only
  before it touches the hart.
\<close>

subsection \<open>Only the bus\<close>

definition only_bus :: "cpu \<Rightarrow> cpu \<Rightarrow> bool" where
  "only_bus s t \<longleftrightarrow> (\<exists>b. t = s\<lparr>cpu_bus := b\<rparr>)"

named_theorems only_bus_intro \<open>operations that leave the hart alone\<close>

lemma only_bus_refl [only_bus_intro, simp]: "only_bus s s"
proof -
  have "s = s\<lparr>cpu_bus := cpu_bus s\<rparr>" by simp
  then show ?thesis unfolding only_bus_def by blast
qed

lemma only_bus_bindS [only_bus_intro]:
  "only_bus s (snd (m t)) \<Longrightarrow> (\<And>a u. only_bus s u \<Longrightarrow> only_bus s (snd (f a u))) \<Longrightarrow> only_bus s (snd (bindS m f t))"
  by (rule bindS_inv) auto

lemma only_bus_if [only_bus_intro]:
  "(c \<Longrightarrow> only_bus s (snd (f t))) \<Longrightarrow> (\<not> c \<Longrightarrow> only_bus s (snd (g t))) \<Longrightarrow> only_bus s (snd ((if c then f else g) t))"
  "(c \<Longrightarrow> only_bus s (snd p)) \<Longrightarrow> (\<not> c \<Longrightarrow> only_bus s (snd q)) \<Longrightarrow> only_bus s (snd (if c then p else q))"
  "only_bus s t \<Longrightarrow> only_bus s (snd (r, t))"
  by simp_all

lemma only_bus_results [only_bus_intro]:
  "only_bus s t \<Longrightarrow> only_bus s (snd (returnS a t))"
  "only_bus s t \<Longrightarrow> only_bus s (snd (illegal i t))"
  "only_bus s (snd (m t)) \<Longrightarrow> only_bus s (snd (mapS g m t))"
  "only_bus s (snd (m t)) \<Longrightarrow> only_bus s (snd (map_errS h m t))"
  "only_bus s (snd (m t)) \<Longrightarrow> only_bus s (snd (unwrap_orS d m t))"
  "only_bus s t \<Longrightarrow> only_bus s (snd (zoom_bus n t))"
  by (auto simp: illegal_def only_bus_def zoom_bus_def zoomS_def split: prod.split)

lemma only_bus_translate [only_bus_intro]: "only_bus s t \<Longrightarrow> only_bus s (snd (translate_at va acc tval t))"
  unfolding translate_at_def by (intro only_bus_intro)

lemma only_bus_load_bytes: "only_bus s t \<Longrightarrow> only_bus s (snd (load_bytes va n i acc t))"
  by (induction va n i acc arbitrary: t rule: load_bytes.induct; simp only: load_bytes.simps) (intro only_bus_intro; simp)+

lemma only_bus_store_bytes: "only_bus s t \<Longrightarrow> only_bus s (snd (store_bytes va v n i t))"
  by (induction va v n i arbitrary: t rule: store_bytes.induct; simp only: store_bytes.simps) (intro only_bus_intro; simp)+

lemma only_bus_memory [only_bus_intro]:
  "only_bus s t \<Longrightarrow> only_bus s (snd (load_va va n t))" "only_bus s t \<Longrightarrow> only_bus s (snd (store_va va v n t))"
  unfolding load_va_def store_va_def
  by (intro only_bus_intro only_bus_load_bytes only_bus_store_bytes; assumption)+

lemma only_bus_cbo_zero [only_bus_intro]: "only_bus s t \<Longrightarrow> only_bus s (snd (cbo_zero pa is t))"
  by (induction pa "is" arbitrary: t rule: cbo_zero.induct; simp only: cbo_zero.simps) (intro only_bus_intro; simp)+

lemma only_bus_fetch: "only_bus s (snd (fetch s))"
  unfolding fetch_def Let_def by (intro only_bus_intro; assumption)

subsection \<open>Failing before the hart is touched\<close>

definition precise :: "cpu \<Rightarrow> ('a, 'e) result \<times> cpu \<Rightarrow> bool" where
  "precise s p \<longleftrightarrow> (\<forall>e. fst p = Err e \<longrightarrow> only_bus s (snd p))"

named_theorems precise_intro \<open>operations that fail before they touch the hart\<close>

lemma precise_bindS [precise_intro]:
  "only_bus s (snd (m t)) \<Longrightarrow> (\<And>a u. only_bus s u \<Longrightarrow> precise s (f a u)) \<Longrightarrow> precise s (bindS m f t)"
  by (cases "m t"; cases "fst (m t)") (auto simp: bindS_def precise_def)

lemma precise_then:
  "precise s (m t) \<Longrightarrow> (\<And>a u e. fst (f a u) \<noteq> Err e) \<Longrightarrow> precise s (bindS m f t)"
  by (cases "m t"; cases "fst (m t)") (auto simp: bindS_def precise_def)

lemma precise_results [precise_intro]:
  "precise s (Ok x, t)" "precise s (retire pc r v t)" "precise s (fp_retire pc r w t)"
  "only_bus s t \<Longrightarrow> precise s (illegal i t)" "only_bus s t \<Longrightarrow> precise s (c_illegal c t)"
  "only_bus s t \<Longrightarrow> precise s (Err e, t)"
  by (simp_all add: precise_def retire_def fp_retire_def illegal_def c_illegal_def)

lemma precise_if [precise_intro]:
  "(c \<Longrightarrow> precise s p) \<Longrightarrow> (\<not> c \<Longrightarrow> precise s q) \<Longrightarrow> precise s (if c then p else q)"
  "(c \<Longrightarrow> precise s (f t)) \<Longrightarrow> (\<not> c \<Longrightarrow> precise s (g t)) \<Longrightarrow> precise s ((if c then f else g) t)"
  by simp_all

lemma precise_option [precise_intro]:
  "precise s p \<Longrightarrow> (\<And>x. precise s (q x)) \<Longrightarrow> precise s (case x of None \<Rightarrow> p | Some x \<Rightarrow> q x)"
  "precise s (f t) \<Longrightarrow> (\<And>x. precise s (g x t)) \<Longrightarrow> precise s ((case x of None \<Rightarrow> f | Some x \<Rightarrow> g x) t)"
  by (cases x; simp)+

subsection \<open>The instructions\<close>

lemma precise_arith:
  "precise s (exec_lui i s)" "precise s (exec_auipc i s)" "precise s (exec_jal i s)" "precise s (exec_jalr i s)"
  "precise s (exec_branch i s)" "precise s (exec_op_imm i s)" "precise s (exec_op i s)" "precise s (exec_op_imm_32 i s)"
  "precise s (exec_op_32 i s)"
  unfolding exec_lui_def exec_auipc_def exec_jal_def exec_jalr_def exec_branch_def exec_result_def exec_op_imm_def
    exec_op_def exec_op_imm_32_def exec_op_32_def Let_def
  by (intro precise_intro only_bus_intro)+

lemma precise_memory:
  "precise s (exec_load i s)" "precise s (exec_load_fp i s)" "precise s (exec_store i s)" "precise s (exec_store_fp i s)"
  "precise s (exec_misc_mem i s)"
  unfolding exec_load_def exec_load_fp_def exec_store_def exec_store_fp_def exec_misc_mem_def Let_def
  by (intro precise_intro only_bus_intro; assumption?)+

lemma precise_lr_sc:
  assumes "only_bus s t"
  shows "precise s (exec_lr i pc va pa t)" "precise s (exec_sc i pc va pa t)"
proof -
  show "precise s (exec_lr i pc va pa t)"
    unfolding exec_lr_def by (intro precise_intro only_bus_intro assms)
  show "precise s (exec_sc i pc va pa t)"
    unfolding exec_sc_def by (rule precise_then) (intro precise_intro only_bus_intro assms, simp)
qed

lemma precise_amo: "precise s (exec_amo i s)"
  unfolding exec_amo_def amo_word_def amo_double_def Let_def
  by (intro precise_intro only_bus_intro precise_lr_sc; assumption?)

lemma precise_priv: "precise s (exec_priv i s)"
proof -
  have "precise s (exec_ecall s)" by (cases "cpu_mode s") (simp_all add: exec_ecall_def precise_def)
  then show ?thesis
    unfolding exec_priv_def Let_def by (intro precise_intro only_bus_intro)
qed

text \<open>An access of a CSR changes the state, but neither it nor what follows fails.\<close>

lemma unwrap_never_fails [simp]: "unwrap_orR d r \<noteq> Err e"
  by (cases r) simp_all

lemma precise_csr:
  "precise s (exec_csrrw i s)" "precise s (exec_csrrwi i s)" "precise s (exec_csr_bits f i v s)"
  by (auto simp: precise_def exec_csrrw_def exec_csrrwi_def exec_csr_bits_def read_time_def csr_atomic_def bindS_def
      retire_def illegal_def returnS_def unwrap_orS_def Let_def split: prod.splits result.splits if_splits)

lemma precise_system: "precise s (exec_system i s)"
  unfolding exec_system_def Let_def
  by (intro precise_intro precise_priv precise_csr only_bus_intro)

lemma precise_fp_option:
  "precise s (fp_option i (Some v) (next_nan s))" "precise s (fp_option i r s)"
  unfolding fp_option_def option.case by (intro precise_intro only_bus_intro)+

lemma precise_fp: "precise s (exec_fp i s)" "precise s (exec_fma i s)"
  unfolding exec_fp_def exec_fma_def exec_fp_sqrt_def exec_result_def exec_fp_convert_def exec_fp_move_class_def
    Let_def prod.case
  by (intro precise_intro precise_fp_option only_bus_intro)+

lemma precise_compressed: "precise s (execute_compressed c s)"
  unfolding execute_compressed_def exec_c0_def exec_c1_def exec_c1_arith_def exec_c2_def exec_c2_jump_def c_load_def
    c_load_fp_def c_store_def Let_def
  by (intro precise_intro only_bus_intro; assumption?)

lemma precise_execute: "precise s (execute i s)"
  unfolding execute_def Let_def
  by (intro precise_intro precise_arith precise_memory precise_amo precise_system precise_fp precise_compressed
      only_bus_intro)

text \<open>
  Property C4. Traps are precise. When an instruction of any kind fails, also a misaligned
  store or an atomic that fails half way, nothing of the hart has changed: pc, registers,
  CSRs, mode and reservation are those before the instruction, and only memory and devices
  behind the bus may have been touched. The handler that is entered finds every register as
  it was and the address of the failing instruction in its exception pc.
\<close>

theorem traps_precise:
  assumes "execute i s = (Err (t, v), s')"
  shows "(\<exists>b. s' = s\<lparr>cpu_bus := b\<rparr>) \<and>
    (let h = handle_trap t v s' in
     cpu_regs h = cpu_regs s \<and> cpu_f_regs h = cpu_f_regs s \<and>
     read_csr (if delegated t s then SEPC else MEPC) h = cpu_pc s)"
proof -
  obtain b where s': "s' = s\<lparr>cpu_bus := b\<rparr>"
    using precise_execute [of s i] assms by (auto simp: precise_def only_bus_def)
  moreover from s' have "delegated t s' = delegated t s" by (simp add: delegated_def)
  ultimately show ?thesis
    by (cases "delegated t s")
      (auto simp: Let_def handle_trap_cases take_trap_frame take_s_trap_frame csr_read_simps)
qed

text \<open>A store to an address where nothing is mapped.\<close>

theorem traps_precise_witness:
  "\<exists>t v s'. execute 0x00003023 hart_example = (Err (t, v), s') \<and> (\<exists>b. s' = hart_example\<lparr>cpu_bus := b\<rparr>) \<and>
     read_csr (if delegated t hart_example then SEPC else MEPC) (handle_trap t v s') = cpu_pc hart_example"
proof -
  have "execute 0x00003023 hart_example = (Err (Exception StoreAMOAccessFault, 0), hart_example)"
  proof -
    have "read_csr SATP hart_example = 0" by (simp add: hart_example_def cpu_new_def csr_read_simps csr_new_regs)
    then have "translate_at 0 Store 0 hart_example = (Ok 0, hart_example)"
      by (simp add: translate_at_def translate_def zoom_bus_def zoomS_def map_errS_def Let_def)
    then show ?thesis
      by (simp add: execute_def exec_store_def inst_opcode_def inst_funct3_def inst_rs1_def inst_rs2_def imm_s_def
          read_reg_def store_va_def bus_store_def bindS_def map_errS_def zoom_bus_def zoomS_def bus_write64_def
          in_range_def in_dram_def Let_def)
  qed
  then show ?thesis using traps_precise [of "0x00003023" hart_example] by (auto simp: Let_def)
qed

end
