(* ===== verification/Floats.thy ===== *)
theory Floats
  imports Moves
begin

text \<open>
  What the conversions and the minimum and maximum of \<open>execute\<close> in \<open>src/src/cpu.rs\<close> compute:
  integers that fit the significand survive the conversion to floating point and back, in both
  precisions and for the four integer types; FMIN and FMAX are the ends of the order in which
  \<open>-0\<close> is below \<open>+0\<close> and a NaN gives way to a number.
\<close>

subsection \<open>Integers as floating-point values\<close>

lemma bit_length_bounds:
  "0 < n \<Longrightarrow> 2 ^ (bit_length n - 1) \<le> n \<and> n < 2 ^ bit_length n \<and> 0 < bit_length n"
proof (induction n rule: bit_length.induct)
  case (1 n)
  show ?case
  proof (cases "n div 2 = 0")
    case True
    with 1 have "n = 1" by simp
    then show ?thesis by (simp add: bit_length.simps)
  next
    case False
    then have "2 ^ (bit_length (n div 2) - 1) \<le> n div 2" "n div 2 < 2 ^ bit_length (n div 2)"
        "0 < bit_length (n div 2)"
      using 1 by simp_all
    moreover from this obtain k where "bit_length (n div 2) = Suc k" by (cases "bit_length (n div 2)") simp_all
    moreover have "bit_length n = Suc (bit_length (n div 2))"
      using "1.prems" by (subst bit_length.simps) simp
    ultimately have "bit_length n = Suc (Suc k)" "2 ^ k \<le> n div 2" "n div 2 < 2 * 2 ^ k"
      by simp_all
    moreover have "2 * m \<le> n \<and> n < 4 * m" if "m \<le> n div 2" "n div 2 < 2 * m" for m
      using that by arith
    ultimately show ?thesis by simp
  qed
qed

lemma bit_length_le:
  assumes "0 < n" and "n < 2 ^ k"
  shows "bit_length n \<le> k"
proof (rule ccontr)
  assume "\<not> bit_length n \<le> k"
  then have "(2 :: nat) ^ k \<le> 2 ^ (bit_length n - 1)" by (intro power_increasing) simp_all
  then show False using bit_length_bounds [OF assms(1)] assms(2) by linarith
qed

text \<open>A format whose patterns fill the word, and whose unit exponents reach below those of its integers.\<close>

definition sound_format :: "fp_format \<Rightarrow> nat \<Rightarrow> bool" where
  "sound_format F n \<longleftrightarrow>
     n = Suc (fp_frac F + fp_expo F) \<and> 1 < fp_expo F \<and> int (2 * fp_frac F) < 2 ^ (fp_expo F - 1)"

lemma sound_formats:
  "sound_format f32 32" "sound_format f64 64"
  by (simp_all add: sound_format_def f32_def f64_def)

lemma fp_mag_less: "fp_mag F a < 2 ^ (fp_frac F + fp_expo F)"
  by (simp add: fp_mag_def unsigned_take_bit_eq)

lemma fp_bits_value:
  fixes F :: fp_format
  assumes "sound_format F LENGTH('a::len)" and "mag < 2 ^ (fp_frac F + fp_expo F)"
  shows "fp_mag F (fp_bits F s mag :: 'a word) = mag"
    and "fp_neg_bit F (fp_bits F s mag :: 'a word) = s"
proof -
  let ?k = "fp_frac F + fp_expo F"
  have len: "LENGTH('a) = Suc ?k" using assms(1) by (simp add: sound_format_def)
  have high: "\<not> bit mag i" if "?k \<le> i" for i
    using assms(2) that by (metis bit_take_bit_iff linorder_not_less take_bit_nat_eq_self_iff)
  have "take_bit ?k (fp_bits F s mag :: 'a word) = of_nat mag"
    by (rule bit_word_eqI)
      (use len high in \<open>auto simp: fp_bits_def bit_simps not_le simp flip: not_less\<close>)
  then show "fp_mag F (fp_bits F s mag :: 'a word) = mag"
    using assms(2) len by (simp add: fp_mag_def unat_of_nat take_bit_nat_eq_self)
  show "fp_neg_bit F (fp_bits F s mag :: 'a word) = s"
    using len high [of ?k] by (auto simp: fp_neg_bit_def fp_bits_def bit_simps)
qed

text \<open>Rounding is exact on an integer that fits the significand.\<close>

lemma round_exact:
  assumes "sound_format F LENGTH('a::len)" and "0 < n" and "n < 2 ^ Suc (fp_frac F)"
  shows "\<exists>k. k \<le> fp_frac F \<and> fp_value F (fp_round F s n 0 :: 'a word) = Fin s (n * 2 ^ k) (- int k)"
proof -
  let ?p = "fp_frac F" and ?L = "bit_length n"
  let ?k = "Suc ?p - ?L"
  obtain B :: nat where B: "B = 2 ^ (fp_expo F - 1)" by simp
  have L: "2 ^ (?L - 1) \<le> n" "n < 2 ^ ?L" "0 < ?L" "?L \<le> Suc ?p"
    using bit_length_bounds [OF assms(2)] bit_length_le [OF assms(2,3)] by simp_all
  have expo: "1 < fp_expo F" and "int (2 * ?p) < int B"
    using assms(1) by (simp_all add: sound_format_def B)
  then have F: "1 < fp_expo F" "2 * ?p < B" by linarith+
  have "2 \<le> B" using expo power_increasing [of 1 "fp_expo F - 1" "2 :: nat"] by (simp add: B)
  with F have F: "1 < fp_expo F" "2 * ?p < B" "2 \<le> B" by simp_all
  have two_B: "2 ^ fp_expo F = 2 * B"
    using expo by (cases "fp_expo F") (simp_all add: B)
  have qmin: "fp_qmin F = 2 - int B - int ?p" by (simp add: fp_qmin_def B)
  have unit: "fp_unit F n 0 = - int ?k"
    using L F by (simp add: fp_unit_def qmin of_nat_diff)
  have M: "round_multiple F n 0 = n * 2 ^ ?k"
    by (simp add: round_multiple_def unit)
  have "2 ^ ?p = (2 :: nat) ^ (?L - 1) * 2 ^ ?k" "2 ^ Suc ?p = (2 :: nat) ^ ?L * 2 ^ ?k"
    using L by (simp_all flip: power_add)
  then have range: "2 ^ ?p \<le> n * 2 ^ ?k" "n * 2 ^ ?k < 2 * 2 ^ ?p"
    using L by simp_all
  let ?e = "nat (fp_unit F n 0 - fp_qmin F)" and ?m = "n * 2 ^ ?k - 2 ^ ?p"
  have e: "?e = B + ?p - 2 - ?k" using F L by (simp add: unit qmin)
  have e_less: "Suc ?e < 2 ^ fp_expo F - 1" using F L by (simp add: e two_B)
  have mag: "?e * 2 ^ ?p + n * 2 ^ ?k = Suc ?e * 2 ^ ?p + ?m" using range by simp
  have m: "?m < 2 ^ ?p" using range by simp
  have div_mod: "(Suc ?e * 2 ^ ?p + ?m) div 2 ^ ?p = Suc ?e" "(Suc ?e * 2 ^ ?p + ?m) mod 2 ^ ?p = ?m"
    using m by (simp_all add: add.commute del: mult_Suc)
  have below: "Suc ?e * 2 ^ ?p + ?m < inf_mag F"
  proof -
    have "Suc ?e * 2 ^ ?p + ?m < Suc (Suc ?e) * 2 ^ ?p" using m by simp
    also have "\<dots> \<le> (2 ^ fp_expo F - 1) * 2 ^ ?p" using e_less by (intro mult_le_mono1) simp
    finally show ?thesis by (simp add: inf_mag_def)
  qed
  have round: "round_mag F n 0 = Suc ?e * 2 ^ ?p + ?m"
    using assms(2) below by (simp add: round_mag_def M mag del: mult_Suc)
  have "inf_mag F \<le> 2 ^ (?p + fp_expo F)" by (simp add: inf_mag_def power_add)
  then have bits: "fp_mag F (fp_round F s n 0 :: 'a word) = Suc ?e * 2 ^ ?p + ?m"
      "fp_neg_bit F (fp_round F s n 0 :: 'a word) = s"
    using fp_bits_value [OF assms(1), of "Suc ?e * 2 ^ ?p + ?m" s] below by (simp_all add: fp_round_def round)
  have "fp_value F (fp_round F s n 0 :: 'a word) = Fin s (?m + 2 ^ ?p) (fp_qmin F + int (Suc ?e) - 1)"
    using e_less by (simp add: fp_value_def bits mag_value_def Let_def div_mod mod_less [OF m] del: mult_Suc)
  moreover have "?m + 2 ^ ?p = n * 2 ^ ?k" "fp_qmin F + int (Suc ?e) - 1 = - int ?k" "?k \<le> ?p"
    using range F L by (simp_all add: unit qmin of_nat_diff)
  ultimately show ?thesis by metis
qed

lemma fp_of_int_exact:
  assumes "sound_format F LENGTH('a::len)" and "\<bar>k\<bar> < 2 ^ Suc (fp_frac F)" and "lo \<le> k" and "k \<le> hi"
  shows "fp_to_int F lo hi (fp_of_int F k :: 'a word) = k"
proof (cases "k = 0")
  case True
  have "fp_mag F (fp_bits F False 0 :: 'a word) = 0" by (simp add: fp_mag_def fp_bits_def)
  moreover have "Suc 0 < 2 ^ fp_expo F"
    using assms(1) one_less_power [of "2 :: nat" "fp_expo F"] by (simp add: sound_format_def)
  ultimately have "fp_value F (fp_bits F False 0 :: 'a word) = Fin (fp_neg_bit F (fp_bits F False 0 :: 'a word)) 0 (fp_qmin F)"
    by (simp add: fp_value_def mag_value_def)
  then show ?thesis
    using True assms(3,4) by (simp add: fp_to_int_def fp_of_int_def round_int_def trunc_int_def signed_mant_def)
next
  case False
  let ?n = "nat \<bar>k\<bar>"
  have "0 < ?n" "?n < 2 ^ Suc (fp_frac F)" using False assms(2) by (simp_all add: nat_less_iff)
  then obtain j where "fp_value F (fp_round F (k < 0) ?n 0 :: 'a word) = Fin (k < 0) (?n * 2 ^ j) (- int j)"
    using round_exact [OF assms(1)] by blast
  then have "fp_to_int F lo hi (fp_of_int F k :: 'a word) = max lo (min hi (signed_mant (k < 0) ?n))"
    using False div_mult_self_is_m [of "2 ^ j" ?n]
    by (cases "j = 0") (simp_all add: fp_to_int_def fp_of_int_def round_int_def trunc_int_def)
  then show ?thesis using assms(3,4) by (simp add: signed_mant_def)
qed

subsection \<open>The instructions\<close>

lemma unbox_box [simp]: "unbox_f32 (box_f32 v) = v"
proof -
  have "drop_bit 32 (box_f32 v) = 0xFFFFFFFF"
    by (rule u64_eqI) (simp add: box_f32_def upt_64 bit_simps)
  moreover have "ucast (box_f32 v) = v"
    by (rule u32_eqI) (simp add: box_f32_def upt_32 bit_simps)
  ultimately show ?thesis by (simp add: unbox_f32_def)
qed

lemma fp_enabled_retire [simp]: "fp_enabled (goto pc (set_fs_dirty s))"
proof -
  have "bit (read_csr MSTATUS (set_fs_dirty s)) 13"
    by (simp add: set_fs_dirty_def csr_read_simps csr_read_mstatus_def csr_write_mstatus Let_def bit_simps)
  then have "bit (drop_bit 13 (read_csr MSTATUS (set_fs_dirty s)) AND 0x3) 0" by (simp add: bit_simps)
  then show ?thesis by (auto simp: fp_enabled_def simp del: bit_0)
qed

text \<open>The integer that a conversion reads from a register: 32 or 64 bits, signed or not.\<close>

definition int_value :: "u5 \<Rightarrow> u64 \<Rightarrow> int" where
  "int_value kind v =
     (if kind = 0 then sint (ucast v :: u32)
      else if kind = 1 then uint (ucast v :: u32)
      else if kind = 2 then sint v
      else uint v)"

lemma cvt_there_and_back:
  assumes "sound_format F LENGTH('a::len)" and "\<bar>int_value kind v\<bar> < 2 ^ Suc (fp_frac F)" and "kind \<in> {0, 1, 2, 3}"
  shows "\<exists>x :: 'a word. cvt_of_int F kind v = Some x \<and> cvt_to_int F kind x = Some (word_of_int (int_value kind v))"
proof -
  have "- (2 ^ 31) \<le> sint (ucast v :: u32)" "sint (ucast v :: u32) \<le> 2 ^ 31 - 1"
    "- (2 ^ 63) \<le> sint v" "sint v \<le> 2 ^ 63 - 1"
    "0 \<le> uint (ucast v :: u32)" "uint (ucast v :: u32) \<le> 2 ^ 32 - 1" "0 \<le> uint v" "uint v \<le> 2 ^ 64 - 1"
    using sint_greater_eq [of "ucast v :: u32"] sint_less [of "ucast v :: u32"] sint_greater_eq [of v] sint_less [of v]
       uint_bounded [of "ucast v :: u32"] uint_bounded [of v]
    by simp_all
  then show ?thesis
    using assms(2,3) by (auto simp: cvt_of_int_def cvt_to_int_def int_value_def fp_of_int_exact [OF assms(1)])
qed

lemma op_fp_low:
  assumes "inst_opcode i = 0x53"
  shows "i AND 3 = 3"
proof -
  have "i AND 3 = (i AND 0x7F) AND 3" by (simp add: and.assoc)
  then show ?thesis using assms by (simp add: inst_opcode_def)
qed

lemma execute_cvt_of_int:
  assumes "inst_opcode i = 0x53" and "fp_enabled s"
  shows "inst_funct7 i = 0x69 \<Longrightarrow> execute i s = fp_option i (cvt_of_int f64 (inst_rs2 i) (read_reg (inst_rs1 i) s)) s"
    and "inst_funct7 i = 0x68 \<Longrightarrow>
      execute i s = fp_option i (map_option box_f32 (cvt_of_int f32 (inst_rs2 i) (read_reg (inst_rs1 i) s))) s"
  using assms by (simp_all add: execute_def op_fp_low exec_fp_def fp_arith_d_def fp_arith_s_def Let_def)

lemma execute_cvt_to_int:
  assumes "inst_opcode i = 0x53" and "fp_enabled s"
  shows "inst_funct7 i = 0x61 \<Longrightarrow> execute i s = exec_result i (cvt_to_int f64 (inst_rs2 i) (cpu_f_regs s (inst_rs1 i))) s"
    and "inst_funct7 i = 0x60 \<Longrightarrow>
      execute i s = exec_result i (cvt_to_int f32 (inst_rs2 i) (unbox_f32 (cpu_f_regs s (inst_rs1 i)))) s"
  using assms by (simp_all add: execute_def op_fp_low exec_fp_def fp_arith_d_def fp_arith_s_def Let_def)

lemma fp_retire_freg: "cpu_f_regs (set_fs_dirty (write_freg rd v s)) rd = v"
  by (simp add: set_fs_dirty_def write_freg_def)

text \<open>
  Property C23. Integers that fit the significand survive FCVT. An integer of any of the four
  types, of at most 24 bits in single and of at most 53 bits in double precision, converted to
  floating point by one instruction and back by another is the integer again.
\<close>

theorem int_float_int:
  assumes "inst_opcode i = 0x53" and "inst_funct7 i = (if double then 0x69 else 0x68)" and "inst_rs2 i = kind"
    and "inst_opcode j = 0x53" and "inst_funct7 j = (if double then 0x61 else 0x60)" and "inst_rs2 j = kind"
    and "kind \<in> {0, 1, 2, 3}" and "inst_rs1 j = inst_rd i" and "inst_rd j \<noteq> 0" and "fp_enabled s"
    and "\<bar>int_value kind (read_reg (inst_rs1 i) s)\<bar> < 2 ^ (if double then 53 else 24)"
  shows "\<exists>s1 s2. execute i s = (Ok (), s1) \<and> execute j s1 = (Ok (), s2) \<and>
    read_reg (inst_rd j) s2 = word_of_int (int_value kind (read_reg (inst_rs1 i) s))"
proof (cases double)
  case True
  then have "\<bar>int_value kind (read_reg (inst_rs1 i) s)\<bar> < 2 ^ Suc (fp_frac f64)"
    using assms(11) by (simp add: f64_def)
  then obtain x :: u64 where "cvt_of_int f64 kind (read_reg (inst_rs1 i) s) = Some x"
      "cvt_to_int f64 kind x = Some (word_of_int (int_value kind (read_reg (inst_rs1 i) s)))"
    using cvt_there_and_back [where 'a = 64 and F = f64] sound_formats assms(7) by auto
  then show ?thesis
    using True assms(1-10)
    by (simp add: execute_cvt_of_int execute_cvt_to_int fp_option_def fp_retire_def fp_retire_freg exec_result_def
        retire_def) (simp add: read_reg_def write_reg_def)
next
  case False
  then have "\<bar>int_value kind (read_reg (inst_rs1 i) s)\<bar> < 2 ^ Suc (fp_frac f32)"
    using assms(11) by (simp add: f32_def)
  then obtain x :: u32 where "cvt_of_int f32 kind (read_reg (inst_rs1 i) s) = Some x"
      "cvt_to_int f32 kind x = Some (word_of_int (int_value kind (read_reg (inst_rs1 i) s)))"
    using cvt_there_and_back [where 'a = 32 and F = f32] sound_formats assms(7) by auto
  then show ?thesis
    using False assms(1-10)
    by (simp add: execute_cvt_of_int execute_cvt_to_int fp_option_def fp_retire_def fp_retire_freg exec_result_def
        retire_def) (simp add: read_reg_def write_reg_def)
qed


text \<open>\<open>-5\<close> through FCVT.D.W and FCVT.W.D.\<close>

theorem int_float_int_witness:
  "\<exists>s1 s2. execute 0xD20080D3 (set_fs_dirty (write_reg 1 (- 5) hart_example)) = (Ok (), s1) \<and>
     execute 0xC2008153 s1 = (Ok (), s2) \<and> read_reg 2 s2 = - 5"
proof -
  let ?s = "set_fs_dirty (write_reg 1 (- 5) hart_example)"
  have s: "fp_enabled ?s" "read_reg 1 ?s = - 5"
    using fp_enabled_retire [of "cpu_pc ?s" "write_reg 1 (- 5) hart_example"]
    by (simp_all add: fp_enabled_def read_reg_def write_reg_def set_fs_dirty_def)
  show ?thesis
    using int_float_int [of "0xD20080D3" True 0 "0xC2008153" ?s] s
    by (simp add: inst_opcode_def inst_funct7_def inst_rs1_def inst_rs2_def inst_rd_def int_value_def)
qed

text \<open>
  Where the conversions leave the manual, which asks for the largest integer for a NaN and
  sign-extends the 32-bit result of FCVT.WU like that of FCVT.W.
\<close>

lemma fcvt_nan_gives_zero:
  assumes "fp_is_nan F a" and "kind \<in> {0, 1, 2, 3}"
  shows "cvt_to_int F kind a = Some 0"
proof -
  let ?q = "fp_mag F a div 2 ^ fp_frac F"
  have "2 ^ fp_expo F - 1 \<le> fp_mag F a div 2 ^ fp_frac F"
    using assms(1) by (simp add: fp_is_nan_def inf_mag_def less_eq_div_iff_mult_less_eq)
  moreover have "fp_mag F a div 2 ^ fp_frac F < 2 ^ fp_expo F"
    using fp_mag_less [of F a] by (simp add: less_mult_imp_div_less power_add mult.commute)
  ultimately have q: "?q = 2 ^ fp_expo F - 1" by linarith
  then have "fp_mag F a mod 2 ^ fp_frac F \<noteq> 0"
    using assms(1) div_mult_mod_eq [of "fp_mag F a" "2 ^ fp_frac F"] by (auto simp: fp_is_nan_def inf_mag_def)
  then have "fp_value F a = NaN"
    using q by (simp add: fp_value_def mag_value_def Let_def)
  then show ?thesis using assms(2) by (auto simp: cvt_to_int_def fp_to_int_def)
qed

lemma fcvt_wu_zero_extends: "cvt_to_int f64 1 (0x41EFFFFFFFE00000 :: u64) = Some 0xFFFFFFFF"
  by (simp add: cvt_to_int_def fp_to_int_def fp_value_def mag_value_def fp_mag_def fp_neg_bit_def f64_def fp_qmin_def
      Let_def trunc_int_def signed_mant_def bit_iff_odd_drop_bit)

subsection \<open>Minimum and maximum\<close>

text \<open>A number with \<open>-0\<close> just below \<open>+0\<close>: the order of the manual on numbers.\<close>

definition fp_rank :: "fp_format \<Rightarrow> 'a::len word \<Rightarrow> int" where
  "fp_rank F a = (if fp_neg_bit F a then - int (fp_mag F a) - 1 else int (fp_mag F a))"

lemma fp_rank_inject:
  fixes a b :: "'a::len word"
  assumes "sound_format F LENGTH('a)" and "fp_rank F a = fp_rank F b"
  shows "a = b"
proof -
  let ?k = "fp_frac F + fp_expo F"
  have "fp_neg_bit F a = fp_neg_bit F b \<and> fp_mag F a = fp_mag F b"
    using assms(2) by (simp add: fp_rank_def del: of_nat_eq_iff split: if_splits)
  then have same: "bit a ?k = bit b ?k" and "take_bit ?k a = take_bit ?k b"
    by (simp add: fp_neg_bit_def, metis fp_mag_def unsigned_word_eqI)
  then have "bit a i = bit b i" if "i < ?k" for i
    using that by (metis bit_take_bit_iff)
  then show ?thesis
    using same(1) assms(1) by (intro bit_word_eqI) (metis less_SucE sound_format_def)
qed

text \<open>The minimum and maximum of the manual, with the canonical NaN of the format.\<close>

definition minmax_ends :: "fp_format \<Rightarrow> 'a::len word \<Rightarrow> 'a word \<Rightarrow> 'a word \<Rightarrow> 'a word \<Rightarrow> 'a word \<Rightarrow> bool" where
  "minmax_ends F cnan a b lo hi \<longleftrightarrow>
     (if fp_is_nan F a \<and> fp_is_nan F b then lo = cnan \<and> hi = cnan
      else if fp_is_nan F a then lo = b \<and> hi = b
      else if fp_is_nan F b then lo = a \<and> hi = a
      else fp_rank F lo \<le> fp_rank F hi \<and> (lo = a \<and> hi = b \<or> lo = b \<and> hi = a))"

lemma minmax_are_ends:
  fixes a b :: "'a::len word"
  assumes "sound_format F LENGTH('a)"
  shows "\<exists>lo hi. minmax F cnan 0 a b = Some lo \<and> minmax F cnan 1 a b = Some hi \<and> minmax_ends F cnan a b lo hi"
proof -
  have "a = b" if "fp_rank F a = fp_rank F b" using fp_rank_inject [OF assms that] .
  then show ?thesis
    by (simp add: minmax_ends_def minmax_def fp_min_def fp_max_def fp_lt_def fp_rank_def fp_cmp_key_def signed_mant_def
        fp_is_zero_def)
qed

text \<open>
  Property C39. FMIN and FMAX are the minimum and the maximum. Of two numbers one is the result
  of FMIN and the other that of FMAX, in their order, where \<open>-0\<close> is below \<open>+0\<close>; of a NaN and
  a number both give the number; of two NaNs both give the canonical NaN; in both precisions.
\<close>

theorem fp_minmax_ends:
  "(\<exists>lo hi. minmax f64 0x7FF8000000000000 0 a b = Some lo \<and> minmax f64 0x7FF8000000000000 1 a b = Some hi \<and>
      minmax_ends f64 0x7FF8000000000000 a b (lo :: u64) hi) \<and>
   (\<exists>lo hi. minmax f32 0x7FC00000 0 c d = Some lo \<and> minmax f32 0x7FC00000 1 c d = Some hi \<and>
      minmax_ends f32 0x7FC00000 c d (lo :: u32) hi)"
  using minmax_are_ends [of f64 "0x7FF8000000000000 :: u64" a b] minmax_are_ends [of f32 "0x7FC00000 :: u32" c d]
    sound_formats by simp

end
