(* ===== verification/Spec2Isabelle.thy ===== *)
theory Spec2Isabelle
  imports Prelude Trap Csr Dram Mrom Plic Uart Flash Virtq VirtioBlk VirtioRng Bus Mmu
    Hart HartMem Alu Exec IeeeFloat FpExec Compressed Step Moves Machine Atomics Expand Fetch Privilege Precise Floats
begin

text \<open>
  The RISC-V virtual machine of this repository: an RV64GC hart with its privileged
  architecture, a PLIC and a CLINT, a 16550 serial port, a CFI flash, two VirtIO devices of
  the legacy queue layout, a boot ROM and main memory, and a main program that loads the
  images of the guest and steps the hart.

  The development is a shallow embedding of the Rust source under \<open>src/src\<close>. A struct is a
  record, an enum a datatype, an integer a word of its width, a method a function of the
  state it borrows. An operation that may fail returns \<open>('a, 'e) result\<close>: \<open>Ok\<close>, \<open>Err\<close> with
  the error of the source, or \<open>Panic\<close> where the code would stop (an unchecked arithmetic
  overflow of a debug build, a division by zero, an index or a slice out of range). Stateful
  operations have the type \<open>('s, 'a, 'e) comp = 's \<Rightarrow> ('a, 'e) result \<times> 's\<close>; an error keeps the
  state as far as the code got. All definitions are executable.
\<close>

text \<open>
  The parts and the theories, from the devices to the machine:

  \<^item> \<open>Prelude\<close>: results, computations, checked arithmetic, slices of memory, byte order
    (the interface \<open>little_endian\<close> of the \<open>byteorder\<close> crate), bit-level lemmas.
  \<^item> \<open>Trap\<close> (\<open>trap.rs\<close>, and \<open>Mode\<close> of \<open>cpu.rs\<close>): causes, codes, privilege modes.
  \<^item> \<open>Csr\<close> (\<open>csr.rs\<close>): the register file as a map; reads through views, writes through masks;
    the locale \<open>masked_view\<close> is what SIE, SIP, MIP and FFLAGS have in common.
  \<^item> \<open>Dram\<close>, \<open>Mrom\<close>, \<open>Flash\<close> (\<open>dram.rs\<close>, \<open>mrom.rs\<close>, \<open>flash.rs\<close>): the memories. The locale
    \<open>cell_memory\<close> is the contract of a memory of cells, given at four widths by main memory
    and again by the bus over main memory.
  \<^item> \<open>Plic\<close>, \<open>Uart\<close> (\<open>plic.rs\<close>, \<open>uart.rs\<close>): interrupt controller and serial port; the locale
    \<open>interrupt_lines\<close> is what a device relies on when it raises and lowers its line.
  \<^item> \<open>Virtq\<close>, \<open>VirtioBlk\<close>, \<open>VirtioRng\<close> (\<open>virtio.rs\<close>, \<open>virtio_rng.rs\<close>): guest memory,
    descriptors, and the two devices; the locale \<open>virtio_transport\<close> holds the register
    protocol they share.
  \<^item> \<open>Bus\<close> (\<open>bus.rs\<close>): owns all of the above, decodes addresses at four widths, keeps the CLINT
    registers, runs a device's queue when its notify register is written, and computes the
    interrupt lines of the hart.
  \<^item> \<open>Mmu\<close> (\<open>mmu.rs\<close>): the page-table walks of Sv39, Sv48 and Sv57 over the bus.
  \<^item> \<open>Hart\<close>, \<open>HartMem\<close>, \<open>Alu\<close>, \<open>Exec\<close>, \<open>IeeeFloat\<close>, \<open>FpExec\<close>, \<open>Compressed\<close>, \<open>Step\<close> (\<open>cpu.rs\<close>): the
    registers, translated loads and stores, trap entry and return, interrupt selection; one
    definition for each arm of the decoder \<open>execute\<close> and each quadrant of
    \<open>execute_compressed\<close>; fetch and \<open>step\<close>. \<open>IeeeFloat\<close> is the model of the \<open>f32\<close> and \<open>f64\<close>
    operations of Rust's standard library: exact integer arithmetic and one rounding.
  \<^item> \<open>Machine\<close> (\<open>main.rs\<close>): the start of the machine from the host's files, the loop, the input.
  \<^item> \<open>Moves\<close>, \<open>Atomics\<close>, \<open>Expand\<close>, \<open>Fetch\<close>, \<open>Privilege\<close>, \<open>Precise\<close>,
    \<open>Floats\<close>: the theory of the hart.
\<close>

text \<open>
  What the theorems show.

  \<^item> The machine (\<open>Machine\<close>): the state it starts in; every state it reaches, whatever the
    guest executes and whenever input arrives, is well formed, and the failure branch of the
    loop is never taken; ROM, flash contents and memory size never change; the clock; the loop
    ends. These rest on \<open>Moves\<close>: a step is a sequence of small moves (\<open>hart_move\<close>), each
    instruction is shown once to be made of moves, and an invariant is proved over the moves.
  \<^item> Privilege (\<open>Moves\<close>, \<open>Privilege\<close>): what an instruction below machine mode cannot change, and
    the only two ways the mode can change.
  \<^item> The instruction cycle (\<open>Fetch\<close>, \<open>Expand\<close>, \<open>Alu\<close>): a step executes the instruction that lies
    in memory at the program counter; the fields and immediates of the formats; each compressed
    instruction does what its 32-bit expansion does, two bytes shorter (\<open>as_compressed\<close>), jumps
    included, and one without an expansion is illegal.
  \<^item> Traps and interrupts (\<open>Hart\<close>, \<open>Precise\<close>): entry, return, the interrupt that is taken, and that an
    instruction that fails has not touched the hart.
  \<^item> Memory (\<open>HartMem\<close>, \<open>Mmu\<close>, \<open>Bus\<close>, \<open>Dram\<close>): stores and loads of any width and alignment;
    translation as the relational page-table lookup of the manual (\<open>leaf_at\<close>), faults, and the
    settling of the accessed and dirty bits; independent cells behind the decoding.
  \<^item> Atomics (\<open>Atomics\<close>): the life of the reservation, LR and SC, the read-modify-writes.
  \<^item> Arithmetic (\<open>Alu\<close>, \<open>Floats\<close>): multiplication and division against the integers, carry-less
    products against polynomial multiplication, integer and floating-point conversions, FMIN
    and FMAX.
  \<^item> Devices: the best interrupt is claimed; the requests of a queue are
    served one by one in ring order (\<open>rounds\<close>, the relation that \<open>ring_loop\<close> is shown to run),
    each with its entry in the used ring, up to the published index; a sector written is read
    back and the image keeps its size; the serial interrupt and its line
    agree and an acknowledged interrupt stays acknowledged; the flash array survives any
    sequence of commands; the register file keeps its invariant.

  Each property with hypotheses has a theorem \<open><name>_witness\<close> that applies it to a concrete
  state of the machine.
\<close>

text \<open>
  Bounds. No definition takes fuel: the walks recurse on the level of the table, the descriptor
  chains on the bounds of the source (\<open>MAX_CHAIN_LEN\<close>, \<open>RNG_MAX_CHAIN_LEN\<close>), the ring loops on the
  distance of two 16-bit indices, the loaders on the bytes left, the byte-wise accesses on the
  size. The loop of the main program ends by its own limit of \<open>10 ^ 11\<close> instructions, so that
  \<open>machine_run\<close> counts its turns. The instruction counters are checked 64-bit additions.

  Parameters. What the code takes from outside is a field or an argument: the files, the
  standard output, the random source, the clocks (\<open>host\<close> and the fields of the devices), the
  byte order functions of the \<open>byteorder\<close> crate (\<open>little_endian\<close>), and the sign and payload of
  the NaN that a floating-point operation of the host generates (\<open>cpu_nans\<close>).

  Not modelled. Log and diagnostic output, and the flags that turn it on. The failure of the
  allocation of main memory. Threads and locks: the only other thread of the program waits for
  input, and its critical section is the step \<open>receive\<close>, taken between two turns of the loop;
  it cannot fall between two accesses of one instruction. Memory fences are no-ops in a
  sequential model, as the fence instructions are in the code. The rounding mode and the
  exception flags of the floating-point instructions are not read or written by the code.

  Where the code leaves the manual or its comments, the model follows the code; a few such
  places are lemmas: \<open>mret_unprivileged\<close>, \<open>supervisor_before_machine\<close>,
  \<open>undelegated_never_taken\<close>, \<open>mip_machine_lines_kept\<close>, \<open>c_jr_odd\<close>, \<open>c_jalr_ra\<close>, \<open>bseti_high_is_slli\<close>,
  \<open>fcvt_nan_gives_zero\<close>, \<open>fcvt_wu_zero_extends\<close>.
\<close>

end
